(* ===== verification/Prelude.thy ===== *)
theory Prelude
  imports Main "HOL-Library.Word"
begin

text \<open>
  Shared vocabulary of the development: the machine types of the loader
  (64-bit addresses, 8/16/32/64-bit fields), the error outcomes of the C code
  (every \<open>exit(-1)\<close> and every undefined-behaviour path is a constructor of
  \<open>err\<close>), the result type \<open>'a res = (err + 'a) option\<close> in which \<open>None\<close> is a
  loop that never returns, little-endian byte encoding, and the page
  alignment macros of \<^verbatim>\<open>src/mapLibrary.c\<close>.
\<close>

unbundle bit_operations_syntax

named_theorems res_simps "evaluation rules of the result monad"
named_theorems mem_simps "load/store rules of the byte memory"

subsection \<open>Machine types\<close>

type_synonym u8 = "8 word"
type_synonym u16 = "16 word"
type_synonym u32 = "32 word"
type_synonym u64 = "64 word"
type_synonym addr = "64 word"

subsection \<open>Errors and results\<close>

text \<open>
  The loader has no error recovery: every failure it detects prints a
  message and calls \<open>exit(-1)\<close>.  Those are the first constructors.  The
  remaining ones name the places where the C code has undefined behaviour
  (a NULL dereference, a division by zero, a read past the end of an array,
  a read of an uninitialised heap slot, a stack buffer overflow, an
  over-wide shift): the model stops there instead of inventing a value.
\<close>

datatype err =
    FileNotFound string
  | EhdrReadFailure string
  | PhdrReadFailure string
  | DepOpenFailure string string
  | DlopenFailure string
  | PltUnresolved string string
  | MmapFailure string
  | NullDeref
  | DivByZero
  | ArrayOverrun
  | UninitRead
  | BufferOverflow
  | NoLoadSegment
  | ShiftOverflow

type_synonym 'a res = "(err + 'a) option"

definition ret :: "'a \<Rightarrow> 'a res" where
  "ret x = Some (Inr x)"

definition fail :: "err \<Rightarrow> 'a res" where
  "fail e = Some (Inl e)"

definition bindR :: "'a res \<Rightarrow> ('a \<Rightarrow> 'b res) \<Rightarrow> 'b res" where
  "bindR x f = Option.bind x (\<lambda>r. case r of Inl e \<Rightarrow> Some (Inl e) | Inr a \<Rightarrow> f a)"

definition mapR :: "('a \<Rightarrow> 'b) \<Rightarrow> 'a res \<Rightarrow> 'b res" where
  "mapR f x = bindR x (\<lambda>a. ret (f a))"

text \<open>A computation that may diverge but cannot fail, lifted into \<open>res\<close>.\<close>

definition liftR :: "'a option \<Rightarrow> 'a res" where
  "liftR x = map_option Inr x"

subsection \<open>Little-endian encoding\<close>

text \<open>
  x86-64 stores a multi-byte integer least significant byte first.
  \<open>le_bytes n v\<close> is the \<open>n\<close> bytes of \<open>v\<close> in memory order, \<open>le_word\<close>
  reads a byte sequence back as an integer of any width.
\<close>

fun le_bytes :: "nat \<Rightarrow> 'a::len word \<Rightarrow> u8 list" where
  "le_bytes 0 v = []"
| "le_bytes (Suc n) v = ucast v # le_bytes n (drop_bit 8 v)"

definition le_word :: "u8 list \<Rightarrow> 'a::len word" where
  "le_word bs = horner_sum ucast 256 bs"

subsection \<open>Page alignment (\<^verbatim>\<open>ALIGN_DOWN\<close>, \<^verbatim>\<open>ALIGN_UP\<close>)\<close>

text \<open>
  The macros of \<^verbatim>\<open>mapLibrary.c\<close> on \<open>Elf64_Addr\<close> operands:
  \<open>ALIGN_DOWN(base, size) = base & -size\<close> and
  \<open>ALIGN_UP(base, size) = ALIGN_DOWN(base + size - 1, size)\<close>, both in
  64-bit unsigned arithmetic, so \<open>ALIGN_UP\<close> wraps near the top of the
  address space.
\<close>

definition ALIGN_DOWN :: "u64 \<Rightarrow> u64 \<Rightarrow> u64" where
  "ALIGN_DOWN base sz = base AND - sz"

definition ALIGN_UP :: "u64 \<Rightarrow> u64 \<Rightarrow> u64" where
  "ALIGN_UP base sz = ALIGN_DOWN (base + sz - 1) sz"

subsection \<open>Errors and results: properties\<close>

lemma bindR_ret [simp, res_simps]: "bindR (ret x) f = f x"
  by (simp add: bindR_def ret_def)

lemma bindR_fail [simp, res_simps]: "bindR (fail e) f = fail e"
  by (simp add: bindR_def fail_def)

lemma bindR_None [simp, res_simps]: "bindR None f = None"
  by (simp add: bindR_def)

lemma bindR_ret_right [simp]: "bindR x ret = x"
  by (cases x) (auto simp: bindR_def ret_def split: sum.splits)

lemma bindR_assoc [res_simps]: "bindR (bindR x f) g = bindR x (\<lambda>a. bindR (f a) g)"
  by (cases x) (auto simp: bindR_def split: sum.splits)

lemma bindR_eq_ret_iff [res_simps]:
  "bindR x f = Some (Inr y) \<longleftrightarrow> (\<exists>a. x = Some (Inr a) \<and> f a = Some (Inr y))"
  by (cases x) (auto simp: bindR_def split: sum.splits)

lemma bindR_eq_ret [res_simps]: "bindR x f = ret y \<longleftrightarrow> (\<exists>a. x = ret a \<and> f a = ret y)"
  by (simp add: ret_def bindR_eq_ret_iff)

lemma ret_eq_iff [simp]: "ret x = ret y \<longleftrightarrow> x = y"
  by (simp add: ret_def)

lemma ret_neq_fail [simp]: "ret x \<noteq> fail e" "fail e \<noteq> ret x"
  by (simp_all add: ret_def fail_def)

lemma ret_not_None [simp]: "ret x \<noteq> None" "fail e \<noteq> None"
  by (simp_all add: ret_def fail_def)

lemma mapR_ret [simp, res_simps]: "mapR f (ret x) = ret (f x)"
  by (simp add: mapR_def)

lemma liftR_Some [simp, res_simps]: "liftR (Some x) = ret x"
  by (simp add: liftR_def ret_def)

lemma liftR_None [simp, res_simps]: "liftR None = None"
  by (simp add: liftR_def)

lemma bindR_mono [partial_function_mono]:
  assumes A: "mono_option A" and B: "\<And>y. mono_option (B y)"
  shows "mono_option (\<lambda>f. bindR (A f) (\<lambda>y. B y f))"
  unfolding bindR_def
proof (rule bind_mono [OF A])
  fix r
  show "mono_option (\<lambda>f. case r of Inl e \<Rightarrow> Some (Inl e) | Inr a \<Rightarrow> B a f)"
    by (cases r) (simp_all add: B option.const_mono)
qed

subsection \<open>Little-endian encoding: properties\<close>

lemma length_le_bytes [simp]: "length (le_bytes n v) = n"
  by (induction n arbitrary: v) simp_all

lemma take_bit_split8:
  "take_bit (8 + m) (v::'a::len word) = ucast (ucast v :: u8) + 256 * take_bit m (drop_bit 8 v)"
proof -
  have mul: "256 * take_bit m (drop_bit 8 v) = push_bit 8 (take_bit m (drop_bit 8 v))"
    by (simp add: push_bit_eq_mult)
  have dis: "ucast (ucast v :: u8) AND push_bit 8 (take_bit m (drop_bit 8 v)) = 0"
    by (rule bit_word_eqI) (auto simp: bit_simps)
  show ?thesis
    unfolding mul disjunctive_add_eq_or [OF dis]
    by (rule bit_word_eqI) (auto simp: bit_simps)
qed

lemma le_word_le_bytes: "le_word (le_bytes n v) = take_bit (8 * n) v"
proof (induction n arbitrary: v)
  case 0
  then show ?case by (simp add: le_word_def)
next
  case (Suc n)
  have "le_word (le_bytes (Suc n) v) = ucast (ucast v :: u8) + 256 * take_bit (8 * n) (drop_bit 8 v)"
    using Suc by (simp add: le_word_def)
  also have "\<dots> = take_bit (8 * Suc n) v"
    using take_bit_split8 [of "8 * n" v] by simp
  finally show ?case .
qed

lemma le_word_le_bytes_full [simp]:
  "LENGTH('a) \<le> 8 * n \<Longrightarrow> le_word (le_bytes n (v::'a::len word)) = v"
  by (simp add: le_word_le_bytes take_bit_word_eq_self)

subsection \<open>Page alignment (\<^verbatim>\<open>ALIGN_DOWN\<close>, \<^verbatim>\<open>ALIGN_UP\<close>): properties\<close>

lemma and_not_mask_eq_minus_take_bit:
  "(b::'a::len word) AND NOT (mask k) = b - take_bit k b"
proof -
  have "(b AND NOT (mask k)) AND take_bit k b = 0"
    by (rule bit_word_eqI) (auto simp: bit_simps)
  then have "(b AND NOT (mask k)) + take_bit k b = (b AND NOT (mask k)) OR take_bit k b"
    by (rule disjunctive_add_eq_or)
  also have "\<dots> = b"
    by (rule bit_word_eqI) (auto simp: bit_simps)
  finally show ?thesis by (metis add_diff_cancel_right')
qed

lemma unat_pow2_u64: "k < 64 \<Longrightarrow> unat (2 ^ k :: u64) = 2 ^ k"
proof -
  assume k: "k < 64"
  have "(2 ^ k :: u64) = word_of_nat (2 ^ k)" by simp
  moreover have "(2::nat) ^ k < 2 ^ 64"
    using power_strict_increasing [OF k, of "2::nat"] by simp
  ultimately show ?thesis by (simp add: unat_of_nat del: of_nat_power)
qed

lemma unat_ALIGN_DOWN: "unat (ALIGN_DOWN b (2 ^ k)) = unat b div 2 ^ k * 2 ^ k"
proof -
  have u: "unat (take_bit k b) = unat b mod 2 ^ k"
    by (simp only: unsigned_take_bit_eq) (simp add: take_bit_eq_mod)
  have le: "take_bit k b \<le> b"
    by (simp add: word_le_nat_alt u)
  have "ALIGN_DOWN b (2 ^ k) = b - take_bit k b"
    by (simp add: ALIGN_DOWN_def minus_exp_eq_not_mask and_not_mask_eq_minus_take_bit)
  then have "unat (ALIGN_DOWN b (2 ^ k)) = unat b - unat b mod 2 ^ k"
    using le by (simp add: unat_sub u)
  then show ?thesis
    by (simp add: minus_mod_eq_div_mult)
qed

lemma unat_ALIGN_UP:
  assumes k: "k < 64" and nowrap: "unat b + 2 ^ k \<le> 2 ^ 64"
  shows "unat (ALIGN_UP b (2 ^ k)) = (unat b + 2 ^ k - 1) div 2 ^ k * 2 ^ k"
proof -
  have p: "unat (2 ^ k :: u64) = 2 ^ k" using k by (rule unat_pow2_u64)
  then have "(2 ^ k :: u64) \<noteq> 0" by (metis unat_0 power_not_zero zero_neq_numeral)
  then have q: "unat (2 ^ k - 1 :: u64) = 2 ^ k - 1" using p by (simp add: unat_minus_one)
  have "unat b + unat (2 ^ k - 1 :: u64) < 2 ^ 64"
    using nowrap q by simp
  then have "unat (b + (2 ^ k - 1)) = unat b + 2 ^ k - 1"
    using q unat_add_lem [of b "2 ^ k - 1"] by simp
  then have "unat (b + 2 ^ k - 1) = unat b + 2 ^ k - 1"
    by (simp add: add_diff_eq)
  then show ?thesis
    by (simp add: ALIGN_UP_def unat_ALIGN_DOWN)
qed

lemma ceil_mult_bounds:
  assumes "0 < (p::nat)"
  shows "b \<le> (b + p - 1) div p * p" and "(b + p - 1) div p * p < b + p"
proof -
  have e: "(b + p - 1) div p * p + (b + p - 1) mod p = b + p - 1" by (rule div_mult_mod_eq)
  have "(b + p - 1) mod p < p" using assms by simp
  then show "b \<le> (b + p - 1) div p * p" using e assms by linarith
  show "(b + p - 1) div p * p < b + p" using e assms by linarith
qed

lemma unat_ALIGN_UP_bounds:
  assumes "k < 64" and "unat b + 2 ^ k \<le> 2 ^ 64"
  shows "unat b \<le> unat (ALIGN_UP b (2 ^ k))" and "unat (ALIGN_UP b (2 ^ k)) < unat b + 2 ^ k"
    and "unat (ALIGN_UP b (2 ^ k)) mod 2 ^ k = 0"
  using unat_ALIGN_UP [OF assms] ceil_mult_bounds [of "2 ^ k" "unat b"] by simp_all

end
