(* ===== verification/Memory.thy ===== *)
theory Memory
  imports Prelude
begin

text \<open>
  The process address space as a byte memory \<open>addr \<Rightarrow> u8\<close>: little-endian
  loads of 8 to 64 bits, stores of byte sequences (the one ``poke'' primitive
  every relocation write goes through), the frame rules that say which loads a
  store leaves alone, NUL-terminated strings (\<open>strdup\<close>/\<open>strcmp\<close>), and
  \<open>ptr_loop\<close>, the C idiom \<open>for (it = start; it < end; it += stride)\<close> as a
  possibly non-terminating loop, with the condition under which it is the
  fold \<open>seqR\<close> over a finite list of element addresses.
\<close>

type_synonym mem = "addr \<Rightarrow> u8"

subsection \<open>Loads and stores\<close>

definition bytes_at :: "mem \<Rightarrow> addr \<Rightarrow> nat \<Rightarrow> u8 list" where
  "bytes_at m a n = map (\<lambda>i. m (a + word_of_nat i)) [0..<n]"

definition load_u16 :: "mem \<Rightarrow> addr \<Rightarrow> u16" where
  "load_u16 m a = le_word (bytes_at m a 2)"

definition load_u32 :: "mem \<Rightarrow> addr \<Rightarrow> u32" where
  "load_u32 m a = le_word (bytes_at m a 4)"

definition load_u64 :: "mem \<Rightarrow> addr \<Rightarrow> u64" where
  "load_u64 m a = le_word (bytes_at m a 8)"

definition store_bytes :: "mem \<Rightarrow> addr \<Rightarrow> u8 list \<Rightarrow> mem" where
  "store_bytes m a bs = (\<lambda>x. if unat (x - a) < length bs then bs ! unat (x - a) else m x)"

definition store_u64 :: "mem \<Rightarrow> addr \<Rightarrow> u64 \<Rightarrow> mem" where
  "store_u64 m a v = store_bytes m a (le_bytes 8 v)"

text \<open>
  Two byte ranges \<open>[a, a + n)\<close> and \<open>[b, b + k)\<close> of the (cyclic) address
  space are disjoint when neither start lies in the other range.
\<close>

definition disjoint :: "addr \<Rightarrow> nat \<Rightarrow> addr \<Rightarrow> nat \<Rightarrow> bool" where
  "disjoint a n b k \<longleftrightarrow> k \<le> unat (a - b) \<and> n \<le> unat (b - a)"

subsection \<open>NUL-terminated strings\<close>

text \<open>
  \<open>read_cstr m a\<close> is the string at \<open>a\<close> up to its terminating NUL
  (what \<open>strdup\<close> copies); with no NUL anywhere the scan never stops, which
  is \<open>None\<close>.  \<open>cstr_eq m a s\<close> is \<open>strcmp(a, s) == 0\<close> for a NUL-free
  \<open>s\<close>: it compares byte by byte and needs the NUL right after \<open>s\<close>.
\<close>

partial_function (option) read_cstr :: "mem \<Rightarrow> addr \<Rightarrow> string option" where
  "read_cstr m a =
     (if m a = 0 then Some []
      else Option.bind (read_cstr m (a + 1)) (\<lambda>s. Some (char_of (unat (m a)) # s)))"

declare read_cstr.simps [code]

primrec cstr_eq :: "mem \<Rightarrow> addr \<Rightarrow> string \<Rightarrow> bool" where
  "cstr_eq m a [] \<longleftrightarrow> m a = 0"
| "cstr_eq m a (c # cs) \<longleftrightarrow> m a = of_char c \<and> cstr_eq m (a + 1) cs"

text \<open>
  \<open>strcmp(a, b) == 0\<close> on two strings in memory: compare byte by byte and
  stop at the first difference or at a common NUL.
\<close>

partial_function (option) strcmp_eq :: "mem \<Rightarrow> addr \<Rightarrow> addr \<Rightarrow> bool option" where
  "strcmp_eq m a b =
     (if m a \<noteq> m b then Some False
      else if m a = 0 then Some True
      else strcmp_eq m (a + 1) (b + 1))"

declare strcmp_eq.simps [code]

definition cstr_res :: "mem \<Rightarrow> addr \<Rightarrow> string res" where
  "cstr_res m a = liftR (read_cstr m a)"

subsection \<open>Pointer loops\<close>

partial_function (option) ptr_loop ::
  "(addr \<Rightarrow> 's \<Rightarrow> 's res) \<Rightarrow> u64 \<Rightarrow> addr \<Rightarrow> addr \<Rightarrow> 's \<Rightarrow> 's res" where
  "ptr_loop body stride it lim s =
     (if it < lim then bindR (body it s) (\<lambda>s'. ptr_loop body stride (it + stride) lim s')
      else ret s)"

declare ptr_loop.simps [code]

fun seqR :: "('x \<Rightarrow> 's \<Rightarrow> 's res) \<Rightarrow> 'x list \<Rightarrow> 's \<Rightarrow> 's res" where
  "seqR f [] s = ret s"
| "seqR f (x # xs) s = bindR (f x s) (\<lambda>s'. seqR f xs s')"

definition ptr_count :: "u64 \<Rightarrow> addr \<Rightarrow> addr \<Rightarrow> nat" where
  "ptr_count stride it lim = (unat lim - unat it + unat stride - 1) div unat stride"

definition ptr_range :: "u64 \<Rightarrow> addr \<Rightarrow> addr \<Rightarrow> addr list" where
  "ptr_range stride it lim = map (\<lambda>k. it + stride * word_of_nat k) [0..<ptr_count stride it lim]"

subsection \<open>Concrete images\<close>

text \<open>
  A memory image given as byte runs over a zero background, for stating
  concrete instances; a run earlier in the list wins where runs overlap.
\<close>

fun mk_mem :: "(addr \<times> u8 list) list \<Rightarrow> mem" where
  "mk_mem [] = (\<lambda>_. 0)"
| "mk_mem ((a, bs) # rest) = store_bytes (mk_mem rest) a bs"

subsection \<open>Loads and stores: properties\<close>

lemma length_bytes_at [simp]: "length (bytes_at m a n) = n"
  by (simp add: bytes_at_def)

lemma unat_word_of_nat_small: "i < 2 ^ 64 \<Longrightarrow> unat (word_of_nat i :: addr) = i"
  by (simp add: unat_of_nat)

lemma bytes_at_store_same [mem_simps]:
  assumes "length bs < 2 ^ 64"
  shows "bytes_at (store_bytes m a bs) a (length bs) = bs"
proof (rule nth_equalityI)
  fix i assume "i < length (bytes_at (store_bytes m a bs) a (length bs))"
  then have i: "i < length bs" by simp
  with assms have "unat (word_of_nat i :: addr) = i"
    by (simp add: unat_word_of_nat_small)
  with i show "bytes_at (store_bytes m a bs) a (length bs) ! i = bs ! i"
    by (simp add: bytes_at_def store_bytes_def)
qed simp

lemma unat_sub_sym:
  assumes "a \<noteq> (b::addr)"
  shows "unat (a - b) + unat (b - a) = 2 ^ 64"
proof -
  have ne: "0 < unat (a - b)" using assms by (simp add: unat_gt_0)
  have "unat ((a - b) + (b - a)) = 0" by simp
  then have "\<not> unat (a - b) + unat (b - a) < 2 ^ 64"
    using ne unat_add_lem [of "a - b" "b - a"] by simp
  moreover have "unat (a - b) + unat (b - a) - 2 ^ 64 = 0"
    using calculation unat_plus_if' [of "a - b" "b - a"] by simp
  ultimately show ?thesis by simp
qed

lemma disjoint_offset:
  assumes d: "disjoint a n b k" and i: "i < n"
  shows "k \<le> unat (a + word_of_nat i - b)"
proof (cases "a = b")
  case True
  with d show ?thesis by (simp add: disjoint_def)
next
  case False
  then have lt: "unat (a - b) + i < 2 ^ 64"
    using d i unat_sub_sym [OF False] by (simp add: disjoint_def)
  then have "unat (word_of_nat i :: addr) = i"
    by (simp add: unat_word_of_nat_small)
  then have u: "unat ((a - b) + word_of_nat i) = unat (a - b) + i"
    using lt unat_add_lem [of "a - b" "word_of_nat i"] by simp
  have "a + word_of_nat i - b = (a - b) + word_of_nat i"
    by (simp add: algebra_simps)
  then have "unat (a + word_of_nat i - b) = unat (a - b) + i"
    by (simp only: u)
  then show ?thesis
    using d by (simp add: disjoint_def)
qed

lemma disjoint_sym: "disjoint a n b k \<longleftrightarrow> disjoint b k a n"
  by (auto simp: disjoint_def)

lemma disjoint_nat_offsets:
  assumes yk: "y + k \<le> x" and xn: "x + n \<le> 2 ^ 64 + y" and x: "x < 2 ^ 64" and k: "0 < k"
  shows "disjoint (p + word_of_nat x) n (p + word_of_nat y) k"
proof -
  have yx: "y < x" using yk k by linarith
  have d1: "(p + word_of_nat x) - (p + word_of_nat y) = (word_of_nat (x - y) :: addr)"
    using yx by (simp add: of_nat_diff)
  have xy: "x - y < 2 ^ 64" using x by linarith
  have u1: "unat (word_of_nat (x - y) :: addr) = x - y"
    using xy by (rule unat_word_of_nat_small)
  have z: "(word_of_nat (2 ^ 64) :: addr) = 0" by simp
  have le: "x \<le> 2 ^ 64 + y" using x by linarith
  have "(word_of_nat (2 ^ 64 + y - x) :: addr) = word_of_nat (2 ^ 64 + y) - word_of_nat x"
    by (rule of_nat_diff [OF le])
  also have "\<dots> = word_of_nat y - word_of_nat x" by (simp only: of_nat_add z add_0_left)
  finally have d2: "(p + word_of_nat y) - (p + word_of_nat x) = (word_of_nat (2 ^ 64 + y - x) :: addr)"
    by simp
  have yx2: "2 ^ 64 + y - x < 2 ^ 64" using yx le by linarith
  have u2: "unat (word_of_nat (2 ^ 64 + y - x) :: addr) = 2 ^ 64 + y - x"
    using yx2 by (rule unat_word_of_nat_small)
  have "k \<le> x - y" using yk by linarith
  moreover have "n \<le> 2 ^ 64 + y - x" using xn by linarith
  ultimately show ?thesis unfolding disjoint_def d1 d2 u1 u2 by (rule conjI)
qed

lemma bytes_at_store_other [mem_simps]:
  "disjoint a n b (length bs) \<Longrightarrow> bytes_at (store_bytes m b bs) a n = bytes_at m a n"
  by (auto simp: bytes_at_def store_bytes_def dest: disjoint_offset)

lemma load_u64_store_u64_same [simp, mem_simps]: "load_u64 (store_u64 m a v) a = v"
  using bytes_at_store_same [of "le_bytes 8 v" m a]
  by (simp add: load_u64_def store_u64_def)

lemma load_u64_store_u64_other [mem_simps]:
  assumes "disjoint a 8 b 8"
  shows "load_u64 (store_u64 m b v) a = load_u64 m a"
proof -
  have "bytes_at (store_bytes m b (le_bytes 8 v)) a 8 = bytes_at m a 8"
    by (rule bytes_at_store_other) (simp only: length_le_bytes assms)
  then show ?thesis by (simp only: load_u64_def store_u64_def)
qed

lemma load_u32_store_u64_other [mem_simps]:
  assumes "disjoint a 4 b 8"
  shows "load_u32 (store_u64 m b v) a = load_u32 m a"
proof -
  have "bytes_at (store_bytes m b (le_bytes 8 v)) a 4 = bytes_at m a 4"
    by (rule bytes_at_store_other) (simp only: length_le_bytes assms)
  then show ?thesis by (simp only: load_u32_def store_u64_def)
qed

lemma store_bytes_outside [mem_simps]:
  "length bs \<le> unat (x - a) \<Longrightarrow> store_bytes m a bs x = m x"
  by (simp add: store_bytes_def)

subsection \<open>NUL-terminated strings: properties\<close>

lemma of_char_char_of_u8 [simp]: "of_char (char_of (unat (x :: u8))) = x"
proof -
  have lt: "unat x < (256::nat)" using unsigned_less [of x] by (simp del: unsigned_less)
  have "(of_char (char_of (unat x)) :: u8) = word_of_nat (of_char (char_of (unat x)) :: nat)"
    by (simp only: of_nat_of_char)
  also have "\<dots> = word_of_nat (unat x mod 256)" by (simp only: of_char_of)
  also have "\<dots> = x" using lt by simp
  finally show ?thesis .
qed

lemma char_of_of_char_u8 [simp]: "char_of (unat (of_char c :: u8)) = c"
proof -
  have "(of_char c :: u8) = word_of_nat (of_char c :: nat)" by (simp only: of_nat_of_char)
  then have "unat (of_char c :: u8) = of_char c" by (simp add: unat_of_nat)
  then show ?thesis by simp
qed

lemma read_cstr_cstr_eq:
  assumes "read_cstr m a = Some s" and "\<forall>c\<in>set t. of_char c \<noteq> (0::u8)"
  shows "cstr_eq m a t \<longleftrightarrow> t = s"
  using assms
proof (induction t arbitrary: a s)
  case Nil
  then show ?case
    by (subst (asm) read_cstr.simps) (auto split: if_splits simp: bind_eq_Some_conv)
next
  case (Cons c cs)
  show ?case
  proof (cases "m a = 0")
    case True
    with Cons.prems have "s = []" by (subst (asm) read_cstr.simps) simp
    with True Cons.prems(2) show ?thesis by auto
  next
    case False
    with Cons.prems(1) obtain s' where s': "read_cstr m (a + 1) = Some s'"
      and s: "s = char_of (unat (m a)) # s'"
      by (subst (asm) read_cstr.simps) (auto split: bind_splits)
    have "m a = of_char c \<longleftrightarrow> c = char_of (unat (m a))"
      by (metis char_of_of_char_u8 of_char_char_of_u8)
    then show ?thesis
      using Cons.IH [OF s'] Cons.prems(2) s by auto
  qed
qed

lemma read_cstr_nul_free:
  assumes ret: "read_cstr m a = Some s"
  shows "\<forall>c\<in>set s. of_char c \<noteq> (0::u8)"
proof (rule read_cstr.raw_induct [where P = "\<lambda>m a s. \<forall>c\<in>set s. of_char c \<noteq> (0::u8)", OF _ ret])
  fix f and m :: mem and a s
  assume IH: "\<And>m a s. f m a = Some s \<Longrightarrow> \<forall>c\<in>set s. of_char c \<noteq> (0::u8)"
    and eq: "(if m a = 0 then Some []
              else Option.bind (f m (a + 1)) (\<lambda>s. Some (char_of (unat (m a)) # s))) = Some s"
  show "\<forall>c\<in>set s. of_char c \<noteq> (0::u8)"
    using eq IH [of m "a + 1"] by (auto split: if_splits simp: bind_eq_Some_conv of_char_char_of_u8)
qed

lemma cstr_eq_read_cstr:
  "cstr_eq m a s \<Longrightarrow> \<forall>c\<in>set s. of_char c \<noteq> (0::u8) \<Longrightarrow> read_cstr m a = Some s"
proof (induction s arbitrary: a)
  case Nil
  then show ?case by (subst read_cstr.simps) simp
next
  case (Cons c cs)
  then have "m a = of_char c" "m a \<noteq> 0" "read_cstr m (a + 1) = Some cs" by auto
  then show ?case by (subst read_cstr.simps) simp
qed

lemma strcmp_eq_read_cstr:
  "read_cstr m a = Some s \<Longrightarrow> strcmp_eq m a b = Some (cstr_eq m b s)"
proof (induction s arbitrary: a b)
  case Nil
  then have "m a = 0" by (subst (asm) read_cstr.simps) (auto split: if_splits bind_splits)
  then show ?case by (subst strcmp_eq.simps) auto
next
  case (Cons c cs)
  then have nz: "m a \<noteq> 0" by (subst (asm) read_cstr.simps) (auto split: if_splits)
  with Cons.prems obtain s' where s': "read_cstr m (a + 1) = Some s'"
    and eq: "c # cs = char_of (unat (m a)) # s'"
    by (subst (asm) read_cstr.simps) (auto split: bind_splits)
  then have c: "of_char c = m a" and "s' = cs" by simp_all
  with s' have IH: "strcmp_eq m (a + 1) (b + 1) = Some (cstr_eq m (b + 1) cs)" by (simp add: Cons.IH)
  show ?case using nz c IH by (subst strcmp_eq.simps) auto
qed

subsection \<open>Pointer loops: properties\<close>

lemma seqR_append: "seqR f (xs @ ys) s = bindR (seqR f xs s) (seqR f ys)"
proof (induction xs arbitrary: s)
  case (Cons x xs)
  then have "seqR f (xs @ ys) = (\<lambda>s. bindR (seqR f xs s) (seqR f ys))"
    by (intro ext) (rule Cons.IH)
  then show ?case by (simp add: bindR_assoc)
qed simp

lemma ceil_div_step:
  assumes "i < l" "0 < (st::nat)"
  shows "(l - i + st - 1) div st = Suc ((l - (i + st) + st - 1) div st)"
proof (cases "i + st < l")
  case True
  then have e: "l - i + st - 1 = (l - (i + st) + st - 1) + st" by linarith
  have "((l - (i + st) + st - 1) + st) div st = (l - (i + st) + st - 1) div st + 1"
    using assms(2) by (simp only: div_add_self2 neq0_conv)
  then show ?thesis by (subst e) (simp only: Suc_eq_plus1)
next
  case False
  then have e: "l - i + st - 1 = (l - i - 1) + st" using assms by linarith
  have z: "(l - i - 1) div st = 0" using False assms by (simp only: div_less)
  have z2: "(l - (i + st) + st - 1) div st = 0" using False assms by (simp only: div_less)
  have "((l - i - 1) + st) div st = (l - i - 1) div st + 1"
    using assms(2) by (simp only: div_add_self2 neq0_conv)
  then show ?thesis by (subst e) (simp only: z z2)
qed

lemma ptr_count_step:
  assumes lt: "it < lim" and st: "0 < unat stride" and nowrap: "unat lim + unat stride \<le> 2 ^ 64"
  shows "ptr_count stride it lim = Suc (ptr_count stride (it + stride) lim)"
proof -
  have ul: "unat it < unat lim" using lt by (simp only: word_less_nat_alt)
  have lt2: "unat it + unat stride < 2 ^ 64" using nowrap ul by linarith
  have u: "unat (it + stride) = unat it + unat stride"
    using lt2 unat_add_lem [of it stride] by simp
  have l: "0 < unat stride" by (rule st)
  show ?thesis
    unfolding ptr_count_def u by (rule ceil_div_step [OF ul l])
qed

lemma ptr_range_step:
  assumes lt: "it < lim" and st: "0 < unat stride" and nowrap: "unat lim + unat stride \<le> 2 ^ 64"
  shows "ptr_range stride it lim = it # ptr_range stride (it + stride) lim"
  unfolding ptr_range_def ptr_count_step [OF assms] upt_conv_Cons [OF zero_less_Suc]
    map_Suc_upt [symmetric]
  by (simp add: distrib_left add.assoc)

lemma ptr_count_stop: "\<not> it < lim \<Longrightarrow> ptr_count stride it lim = 0"
  by (cases "unat stride") (simp_all add: ptr_count_def word_less_nat_alt)

lemma ptr_range_stop: "\<not> it < lim \<Longrightarrow> ptr_range stride it lim = []"
  by (simp add: ptr_range_def ptr_count_stop)

text \<open>
  When \<open>end + stride\<close> does not wrap, the C loop visits exactly the
  addresses \<open>start, start + stride, \<dots>\<close> below \<open>end\<close> and does what the fold
  over them does.
\<close>

lemma ptr_loop_seqR:
  assumes st: "0 < unat stride" and nowrap: "unat lim + unat stride \<le> 2 ^ 64"
  shows "ptr_loop body stride it lim s = seqR body (ptr_range stride it lim) s"
proof (induction "ptr_count stride it lim" arbitrary: it s)
  case 0
  have "\<not> it < lim"
  proof
    assume "it < lim"
    then have "ptr_count stride it lim \<noteq> 0"
      using ptr_count_step [OF _ st nowrap] by simp
    with "0" show False by simp
  qed
  then show ?case by (simp add: ptr_loop.simps [of body stride it] ptr_range_stop)
next
  case (Suc n)
  show ?case
  proof (cases "it < lim")
    case True
    have "ptr_count stride it lim = Suc (ptr_count stride (it + stride) lim)"
      using ptr_count_step [OF True st nowrap] .
    then have "n = ptr_count stride (it + stride) lim" using Suc.hyps(2) by simp
    then have IH: "ptr_loop body stride (it + stride) lim
                     = seqR body (ptr_range stride (it + stride) lim)"
      using Suc.hyps(1) by blast
    show ?thesis
      by (simp add: ptr_loop.simps [of body stride it] True IH ptr_range_step [OF True st nowrap])
  next
    case False
    then show ?thesis by (simp add: ptr_loop.simps [of body stride it] ptr_range_stop)
  qed
qed

lemma seqR_total:
  "(\<And>x s. x \<in> set xs \<Longrightarrow> body x s \<noteq> None) \<Longrightarrow> seqR body xs s \<noteq> None"
proof (induction xs arbitrary: s)
  case (Cons x xs)
  then have "body x s \<noteq> None" by simp
  then obtain r where r: "body x s = Some r" by blast
  show ?case
  proof (cases r)
    case (Inl e)
    with r show ?thesis by (simp add: bindR_def)
  next
    case (Inr s')
    have "seqR body xs s' \<noteq> None" using Cons.IH Cons.prems by simp
    with r Inr show ?thesis by (simp add: bindR_def)
  qed
qed simp

end
