(* ===== verification/Elf.thy ===== *)
theory Elf
  imports Memory
begin

text \<open>
  The data the loader works on.  The ELF64 constants and record layouts of
  the system header \<^verbatim>\<open><elf.h>\<close> that the code uses (tags, segment types
  and flags, the byte offsets of \<open>Elf64_Dyn\<close>, \<open>Elf64_Sym\<close>, \<open>Elf64_Rela\<close>,
  \<open>Elf64_Phdr\<close>, \<open>Elf64_Ehdr\<close> fields), read from the byte memory or from a
  file's byte list; the \<open>Library\<close> struct of \<^verbatim>\<open>src/library.h\<close> as the
  record \<open>library\<close>; the host collaborators (\<open>dlopen\<close>/\<open>dlsym\<close> and the
  call of an IFUNC resolver) as the record \<open>host\<close>; and the loader state,
  the memory together with the chain of library records.
\<close>

subsection \<open>Constants of \<^verbatim>\<open><elf.h>\<close>\<close>

definition PT_LOAD :: u32 where
  PT_LOAD_def [simp]: "PT_LOAD = 1"
definition PT_DYNAMIC :: u32 where
  PT_DYNAMIC_def [simp]: "PT_DYNAMIC = 2"
definition PF_X :: u32 where
  PF_X_def [simp]: "PF_X = 1"
definition PF_W :: u32 where
  PF_W_def [simp]: "PF_W = 2"
definition PF_R :: u32 where
  PF_R_def [simp]: "PF_R = 4"

definition DT_NULL :: nat where
  DT_NULL_def [simp]: "DT_NULL = 0"
definition DT_NEEDED :: nat where
  DT_NEEDED_def [simp]: "DT_NEEDED = 1"
definition DT_PLTRELSZ :: nat where
  DT_PLTRELSZ_def [simp]: "DT_PLTRELSZ = 2"
definition DT_PLTGOT :: nat where
  DT_PLTGOT_def [simp]: "DT_PLTGOT = 3"
definition DT_STRTAB :: nat where
  DT_STRTAB_def [simp]: "DT_STRTAB = 5"
definition DT_SYMTAB :: nat where
  DT_SYMTAB_def [simp]: "DT_SYMTAB = 6"
definition DT_RELA :: nat where
  DT_RELA_def [simp]: "DT_RELA = 7"
definition DT_RELASZ :: nat where
  DT_RELASZ_def [simp]: "DT_RELASZ = 8"
definition DT_JMPREL :: nat where
  DT_JMPREL_def [simp]: "DT_JMPREL = 23"
definition DT_RUNPATH :: nat where
  DT_RUNPATH_def [simp]: "DT_RUNPATH = 29"
definition DT_NUM :: nat where
  DT_NUM_def [simp]: "DT_NUM = 38"
definition DT_RELACOUNT :: u64 where
  DT_RELACOUNT_def [simp]: "DT_RELACOUNT = 0x6ffffff9"
definition DT_GNU_HASH :: u64 where
  DT_GNU_HASH_def [simp]: "DT_GNU_HASH = 0x6ffffef5"
definition R_X86_64_IRELATIVE :: u64 where
  R_X86_64_IRELATIVE_def [simp]: "R_X86_64_IRELATIVE = 37"

text \<open>The two synthetic index slots of \<^verbatim>\<open>library.h\<close>.\<close>

definition OS_SPECIFIC_FLAG :: nat where
  OS_SPECIFIC_FLAG_def [simp]: "OS_SPECIFIC_FLAG = 2"

definition DT_RELACOUNT_NEW :: nat where
  DT_RELACOUNT_NEW_def [simp]: "DT_RELACOUNT_NEW = 0"

definition DT_GNU_HASH_NEW :: nat where
  DT_GNU_HASH_NEW_def [simp]: "DT_GNU_HASH_NEW = 1"

subsection \<open>Record layouts in memory\<close>

text \<open>\<open>Elf64_Dyn\<close> (16 bytes), \<open>Elf64_Sym\<close> (24 bytes), \<open>Elf64_Rela\<close> (24 bytes).\<close>

definition d_tag :: "mem \<Rightarrow> addr \<Rightarrow> u64" where
  "d_tag m p = load_u64 m p"

definition d_un :: "mem \<Rightarrow> addr \<Rightarrow> u64" where
  "d_un m p = load_u64 m (p + 8)"

definition st_name :: "mem \<Rightarrow> addr \<Rightarrow> u32" where
  "st_name m p = load_u32 m p"

definition st_value :: "mem \<Rightarrow> addr \<Rightarrow> u64" where
  "st_value m p = load_u64 m (p + 8)"

definition r_offset :: "mem \<Rightarrow> addr \<Rightarrow> u64" where
  "r_offset m p = load_u64 m p"

definition r_info :: "mem \<Rightarrow> addr \<Rightarrow> u64" where
  "r_info m p = load_u64 m (p + 8)"

definition r_addend :: "mem \<Rightarrow> addr \<Rightarrow> u64" where
  "r_addend m p = load_u64 m (p + 16)"

subsection \<open>Headers in a file buffer\<close>

text \<open>
  \<open>fread\<close> copies bytes of the file into a buffer; the headers are then read
  from the buffer.  \<open>file_le bs off n\<close> is the little-endian integer of the
  \<open>n\<close> bytes at offset \<open>off\<close> of \<open>bs\<close>.
\<close>

definition file_le :: "u8 list \<Rightarrow> nat \<Rightarrow> nat \<Rightarrow> 'a::len word" where
  "file_le bs off n = le_word (take n (drop off bs))"

record phdr =
  p_type :: u32
  p_flags :: u32
  p_offset :: u64
  p_vaddr :: u64
  p_filesz :: u64
  p_memsz :: u64

text \<open>\<open>Elf64_Phdr\<close> (56 bytes) at offset \<open>off\<close> of a buffer.\<close>

definition parse_phdr :: "u8 list \<Rightarrow> nat \<Rightarrow> phdr" where
  "parse_phdr bs off =
     \<lparr>p_type = file_le bs off 4, p_flags = file_le bs (off + 4) 4,
      p_offset = file_le bs (off + 8) 8, p_vaddr = file_le bs (off + 16) 8,
      p_filesz = file_le bs (off + 32) 8, p_memsz = file_le bs (off + 40) 8\<rparr>"

text \<open>\<open>e_phnum\<close> of an \<open>Elf64_Ehdr\<close> (64 bytes): the 16-bit field at offset 56.\<close>

definition e_phnum :: "u8 list \<Rightarrow> u16" where
  "e_phnum ehdr = file_le ehdr 56 2"

subsection \<open>The library record\<close>

text \<open>
  One \<open>Library\<close> of \<^verbatim>\<open>library.h\<close>.  Pointers to other records
  (\<open>search_list\<close>) are indices into the chain, the list of records in
  discovery order; \<open>next\<close> is the successor in that list and is not a field.
  A NULL pointer is \<open>0\<close> (addresses) or \<open>None\<close> (the search list); a slot of
  the \<open>malloc\<close>ed search list that was never written is \<open>None\<close> inside it.
  The \<open>FILE *\<close> is the path it was opened from: each is read once, from
  offset 0.
\<close>

record library =
  addr :: addr
  name :: string
  dyn :: addr
  dyn_info :: "addr list"
  dyn_num :: u32
  search_list :: "nat option list option"
  fs :: string
  relocated :: bool
  fake :: bool
  fake_handle :: addr
  l_nbuckets :: u32
  l_gnu_bitmask_idxbits :: u32
  l_gnu_shift :: u32
  l_gnu_bitmask :: addr
  l_gnu_buckets :: addr
  l_gnu_chain_zero :: addr

text \<open>A record fresh from \<open>calloc\<close>, with its name and file set.\<close>

definition new_library :: "string \<Rightarrow> string \<Rightarrow> library" where
  "new_library nm f =
     \<lparr>addr = 0, name = nm, dyn = 0, dyn_info = replicate (DT_NUM + OS_SPECIFIC_FLAG) 0,
      dyn_num = 0, search_list = None, fs = f, relocated = False, fake = False,
      fake_handle = 0, l_nbuckets = 0, l_gnu_bitmask_idxbits = 0, l_gnu_shift = 0,
      l_gnu_bitmask = 0, l_gnu_buckets = 0, l_gnu_chain_zero = 0\<rparr>"

text \<open>
  \<open>lib->dyn_info[t]->d_un.d_ptr\<close>: the value of the indexed dynamic entry,
  a NULL dereference when the tag was absent.
\<close>

definition dyn_val :: "mem \<Rightarrow> library \<Rightarrow> nat \<Rightarrow> u64 res" where
  "dyn_val m l t = (if dyn_info l ! t = 0 then fail NullDeref else ret (d_un m (dyn_info l ! t)))"

subsection \<open>Collaborators and state\<close>

text \<open>
  The host's dynamic loader and the call of code inside a mapped object are
  outside the program: \<open>dl_open name\<close> is \<open>dlopen(name, RTLD_LAZY)\<close> (0 on
  failure), \<open>dl_sym h s\<close> is \<open>dlsym(h, s)\<close> (0 when absent),
  \<open>call_ifunc a\<close> is the value returned by the resolver function at \<open>a\<close>,
  \<open>page_size\<close> is \<open>getpagesize()\<close>, \<open>mmap_ok a len\<close> says whether the
  kernel grants a fixed mapping of \<open>len\<close> bytes at \<open>a\<close>, and \<open>files\<close> is
  the file system \<open>fopen\<close> opens (the bytes of the file at a path).
\<close>

record host =
  dl_open :: "string \<Rightarrow> addr"
  dl_sym :: "addr \<Rightarrow> string \<Rightarrow> addr"
  call_ifunc :: "addr \<Rightarrow> addr"
  page_size :: u64
  mmap_ok :: "addr \<Rightarrow> u64 \<Rightarrow> bool"
  files :: "string \<Rightarrow> u8 list option"

record ld_state =
  memory :: mem
  chain :: "library list"

lemma dyn_val_ret:
  "dyn_info l ! t \<noteq> 0 \<Longrightarrow> dyn_val m l t = ret (d_un m (dyn_info l ! t))"
  by (simp add: dyn_val_def)

lemma length_new_dyn_info [simp]: "length (dyn_info (new_library nm f)) = DT_NUM + OS_SPECIFIC_FLAG"
  by (simp add: new_library_def)

end
