(* ===== verification/Fixture.thy ===== *)
theory Fixture
  imports Elf
begin

text \<open>
  Concrete inputs shared by the witnesses of every component: the memory
  image of one small mapped library (its dynamic section, symbol and string
  tables, \<open>.gnu.hash\<close> section and relocation tables, and the record that
  describes it once mapped), two small ELF files on a host file system for
  the dependency graph builder, and the facts about the bytes that the
  witnesses read.
\<close>

text \<open>
  A one-symbol library for the concrete instances below: symbol 1 is
  \<open>f\<close> with value \<open>0x400\<close>, the library is based at \<open>0x7000\<close>.  The
  \<open>.gnu.hash\<close> section at \<open>0x4000\<close> has one bucket, symbol bias 1, one
  Bloom word with the two bits of \<open>dl_new_hash ''f'' = 177675\<close> set, and a
  one-entry chain; the names \<open>f\<close> and \<open>g\<close> are stored at \<open>0x3000\<close>
  and \<open>0x3010\<close>; the \<open>DT_SYMTAB\<close> and \<open>DT_STRTAB\<close> entries at
  \<open>0x5000\<close>.  For the relocator: symbols 2 and 3 (named \<open>f\<close> and \<open>g\<close>
  through the string offsets \<open>0x1000\<close> and \<open>0x1010\<close>), the \<open>DT_JMPREL\<close>, \<open>DT_PLTRELSZ\<close>, \<open>DT_RELA\<close>,
  \<open>DT_RELASZ\<close> and \<open>DT_RELACOUNT\<close> entries at \<open>0x5020\<close>, a PLT table at
  \<open>0x6000\<close> with two jump-slot entries (symbols 2 and 3, slots at
  offsets \<open>0x10\<close> and \<open>0x18\<close>) and a \<open>.rela.dyn\<close> table at \<open>0x6100\<close>
  with one relative entry (offset \<open>0x20\<close>, addend \<open>0x30\<close>).  The record's
  search list is itself.
\<close>

definition fx_mem :: mem where
  "fx_mem = mk_mem
     [(0x1018, [1, 0, 0, 0, 0, 0, 0, 0, 0, 4, 0, 0, 0, 0, 0, 0]),
      (0x2000, [0, 102, 0]),
      (0x3000, [102, 0]),
      (0x3010, [103, 0]),
      (0x4000, [1, 0, 0, 0, 1, 0, 0, 0, 1, 0, 0, 0, 6, 0, 0, 0,
                0, 8, 0, 1, 0, 0, 0, 0, 1, 0, 0, 0, 0x0B, 0xB6, 2, 0]),
      (0x5000, [6, 0, 0, 0, 0, 0, 0, 0, 0, 0x10, 0, 0, 0, 0, 0, 0,
                5, 0, 0, 0, 0, 0, 0, 0, 0, 0x20, 0, 0, 0, 0, 0, 0]),
      (0x1030, [0, 0x10, 0, 0, 0, 0, 0, 0, 0, 5, 0, 0, 0, 0, 0, 0]),
      (0x1048, [0x10, 0x10, 0, 0, 0, 0, 0, 0, 0, 6, 0, 0, 0, 0, 0, 0]),
      (0x5020, [23, 0, 0, 0, 0, 0, 0, 0, 0, 0x60, 0, 0, 0, 0, 0, 0,
                2, 0, 0, 0, 0, 0, 0, 0, 48, 0, 0, 0, 0, 0, 0, 0,
                7, 0, 0, 0, 0, 0, 0, 0, 0, 0x61, 0, 0, 0, 0, 0, 0,
                8, 0, 0, 0, 0, 0, 0, 0, 24, 0, 0, 0, 0, 0, 0, 0,
                0xF9, 0xFF, 0xFF, 0x6F, 0, 0, 0, 0, 1, 0, 0, 0, 0, 0, 0, 0]),
      (0x6000, [0x10, 0, 0, 0, 0, 0, 0, 0, 7, 0, 0, 0, 2, 0, 0, 0, 0, 0, 0, 0, 0, 0, 0, 0,
                0x18, 0, 0, 0, 0, 0, 0, 0, 7, 0, 0, 0, 3, 0, 0, 0, 0, 0, 0, 0, 0, 0, 0, 0]),
      (0x6100, [0x20, 0, 0, 0, 0, 0, 0, 0, 8, 0, 0, 0, 0, 0, 0, 0, 0x30, 0, 0, 0, 0, 0, 0, 0])]"

definition fx_lib :: library where
  "fx_lib = (new_library ''libx.so'' ''/lib/libx.so'')
     \<lparr>addr := 0x7000,
      dyn_info := (replicate 40 0)[6 := 0x5000, 5 := 0x5010, 23 := 0x5020, 2 := 0x5030,
                                   7 := 0x5040, 8 := 0x5050, 38 := 0x5060],
      search_list := Some [Some 0],
      l_nbuckets := 1, l_gnu_bitmask_idxbits := 0, l_gnu_shift := 6,
      l_gnu_bitmask := 0x4010, l_gnu_buckets := 0x4018, l_gnu_chain_zero := 0x4018\<rparr>"

definition fx_host :: host where
  "fx_host = \<lparr>dl_open = (\<lambda>_. 0), dl_sym = (\<lambda>_ _. 0), call_ifunc = (\<lambda>a. a),
              page_size = 0x1000, mmap_ok = (\<lambda>_ _. True), files = (\<lambda>_. None)\<rparr>"

text \<open>The image as a one-record loader state.\<close>

definition fx_st :: ld_state where
  "fx_st = \<lparr>memory = fx_mem, chain = [fx_lib]\<rparr>"

text \<open>The same library before \<open>fill_info\<close>: based and with its dynamic section found.\<close>

definition fx_unindexed :: library where
  "fx_unindexed = (new_library ''libx.so'' ''/lib/libx.so'')\<lparr>addr := 0x7000, dyn := 0x5000\<rparr>"

text \<open>
  A program header for the segment mapper: one readable, executable
  \<open>PT_LOAD\<close> at virtual address 0 with \<open>0x100\<close> bytes from the file and a
  \<open>.bss\<close> tail of \<open>0x80\<close> bytes.
\<close>

definition fx_ph :: phdr where
  "fx_ph = \<lparr>p_type = 1, p_flags = 5, p_offset = 0, p_vaddr = 0, p_filesz = 0x100, p_memsz = 0x180\<rparr>"

subsection \<open>Facts about the image\<close>


text \<open>
  Two small shared-object files for the dependency graph builder.  Both
  have the 64-byte ELF header with \<open>e_phnum = 2\<close> at offset 56, a
  \<open>PT_LOAD\<close> program header mapping the whole 256-byte file at virtual
  address 0 and a \<open>PT_DYNAMIC\<close> one for the dynamic section at offset
  \<open>0xB0\<close>.  The header bytes the loader does not read hold the string
  table (at offset 0: \<open>libc.so.6\<close> at 8, \<open>ld-linux.so.2\<close> at 18) and a
  \<open>.gnu.hash\<close> header (at \<open>0x20\<close>).  The dynamic section of
  \<open>fxl_root\<close> is \<open>DT_NEEDED libc.so.6\<close>, \<open>DT_NEEDED ld-linux.so.2\<close>,
  \<open>DT_STRTAB 0\<close>, \<open>DT_GNU_HASH 0x20\<close>, \<open>DT_NULL\<close>; that of \<open>fxl_leaf\<close>
  has no \<open>DT_NEEDED\<close> entry.  The host's file system holds the root at
  \<open>/t/libroot.so\<close> and the leaf under the system directories as both
  dependencies, \<open>ld-linux.so.2\<close> only in the second one.
\<close>

definition fxl_root :: "u8 list" where
  "fxl_root =
     [127, 69, 76, 70, 2, 1, 1, 0, 108, 105, 98, 99, 46, 115, 111, 46,
      54, 0, 108, 100, 45, 108, 105, 110, 117, 120, 46, 115, 111, 46, 50, 0,
      1, 0, 0, 0, 1, 0, 0, 0, 1, 0, 0, 0, 6, 0, 0, 0,
      0, 0, 0, 0, 0, 0, 0, 0, 2, 0, 0, 0, 0, 0, 0, 0,
      1, 0, 0, 0, 6, 0, 0, 0, 0, 0, 0, 0, 0, 0, 0, 0,
      0, 0, 0, 0, 0, 0, 0, 0, 0, 0, 0, 0, 0, 0, 0, 0,
      0, 1, 0, 0, 0, 0, 0, 0, 0, 1, 0, 0, 0, 0, 0, 0,
      0, 16, 0, 0, 0, 0, 0, 0, 2, 0, 0, 0, 6, 0, 0, 0,
      176, 0, 0, 0, 0, 0, 0, 0, 176, 0, 0, 0, 0, 0, 0, 0,
      176, 0, 0, 0, 0, 0, 0, 0, 80, 0, 0, 0, 0, 0, 0, 0,
      80, 0, 0, 0, 0, 0, 0, 0, 8, 0, 0, 0, 0, 0, 0, 0,
      1, 0, 0, 0, 0, 0, 0, 0, 8, 0, 0, 0, 0, 0, 0, 0,
      1, 0, 0, 0, 0, 0, 0, 0, 18, 0, 0, 0, 0, 0, 0, 0,
      5, 0, 0, 0, 0, 0, 0, 0, 0, 0, 0, 0, 0, 0, 0, 0,
      245, 254, 255, 111, 0, 0, 0, 0, 32, 0, 0, 0, 0, 0, 0, 0,
      0, 0, 0, 0, 0, 0, 0, 0, 0, 0, 0, 0, 0, 0, 0, 0]"

definition fxl_leaf :: "u8 list" where
  "fxl_leaf =
     [127, 69, 76, 70, 2, 1, 1, 0, 108, 105, 98, 99, 46, 115, 111, 46,
      54, 0, 108, 100, 45, 108, 105, 110, 117, 120, 46, 115, 111, 46, 50, 0,
      1, 0, 0, 0, 1, 0, 0, 0, 1, 0, 0, 0, 6, 0, 0, 0,
      0, 0, 0, 0, 0, 0, 0, 0, 2, 0, 0, 0, 0, 0, 0, 0,
      1, 0, 0, 0, 6, 0, 0, 0, 0, 0, 0, 0, 0, 0, 0, 0,
      0, 0, 0, 0, 0, 0, 0, 0, 0, 0, 0, 0, 0, 0, 0, 0,
      0, 1, 0, 0, 0, 0, 0, 0, 0, 1, 0, 0, 0, 0, 0, 0,
      0, 16, 0, 0, 0, 0, 0, 0, 2, 0, 0, 0, 6, 0, 0, 0,
      176, 0, 0, 0, 0, 0, 0, 0, 176, 0, 0, 0, 0, 0, 0, 0,
      176, 0, 0, 0, 0, 0, 0, 0, 80, 0, 0, 0, 0, 0, 0, 0,
      80, 0, 0, 0, 0, 0, 0, 0, 8, 0, 0, 0, 0, 0, 0, 0,
      5, 0, 0, 0, 0, 0, 0, 0, 0, 0, 0, 0, 0, 0, 0, 0,
      245, 254, 255, 111, 0, 0, 0, 0, 32, 0, 0, 0, 0, 0, 0, 0,
      0, 0, 0, 0, 0, 0, 0, 0, 0, 0, 0, 0, 0, 0, 0, 0,
      0, 0, 0, 0, 0, 0, 0, 0, 0, 0, 0, 0, 0, 0, 0, 0,
      0, 0, 0, 0, 0, 0, 0, 0, 0, 0, 0, 0, 0, 0, 0, 0]"

text \<open>The program headers both files carry.\<close>

definition fxl_phs :: "phdr list" where
  "fxl_phs = [\<lparr>p_type = 1, p_flags = 6, p_offset = 0, p_vaddr = 0, p_filesz = 0x100, p_memsz = 0x100\<rparr>,
              \<lparr>p_type = 2, p_flags = 6, p_offset = 0xB0, p_vaddr = 0xB0, p_filesz = 0x50, p_memsz = 0x50\<rparr>]"

definition fxl_files :: "string \<Rightarrow> u8 list option" where
  "fxl_files p =
     (if p = ''/t/libroot.so'' then Some fxl_root
      else if p = ''/usr/lib/x86_64-linux-gnu/libc.so.6'' then Some fxl_leaf
      else if p = ''/lib/x86_64-linux-gnu/ld-linux.so.2'' then Some fxl_leaf
      else None)"

definition fxl_host :: host where
  "fxl_host = fx_host\<lparr>files := fxl_files\<rparr>"

lemmas fx_simps = fx_mem_def load_u32_def load_u64_def bytes_at_def store_bytes_def le_word_def upt_rec

lemma fx_loads:
  "load_u64 fx_mem 0x4010 = 16779264" "load_u32 fx_mem 0x4018 = 1"
  "load_u64 fx_mem 0x5008 = 0x1000" "load_u64 fx_mem 0x5018 = 0x2000"
  "load_u32 fx_mem 0x401C = 177675" "load_u32 fx_mem 0x1018 = 1" "load_u64 fx_mem 0x1020 = 0x400"
  "fx_mem 0x2001 = 102" "fx_mem 0x2002 = 0"
  by (simp_all add: fx_simps)

lemma fx_names: "read_cstr fx_mem 0x3000 = Some ''f''" "read_cstr fx_mem 0x3010 = Some ''g''"
  by (simp_all add: fx_mem_def read_cstr.simps store_bytes_def char_of_eq_iff)

lemma fx_lib_fields:
  "dyn_info fx_lib ! 5 = 0x5010" "dyn_info fx_lib ! 6 = 0x5000"
  "dyn_info fx_lib ! 23 = 0x5020" "search_list fx_lib = Some [Some 0]"
  "addr fx_lib = 0x7000" "fake fx_lib = False"
  by (simp_all add: fx_lib_def new_library_def)

lemma fx_reloc_loads:
  "load_u64 fx_mem 0x5028 = 0x6000" "load_u64 fx_mem 0x6008 = 0x200000007"
  "load_u64 fx_mem 0x6020 = 0x300000007" "load_u32 fx_mem 0x1030 = 0x1000"
  "load_u32 fx_mem 0x1048 = 0x1010" "load_u64 fx_mem 0x6000 = 0x10" "load_u64 fx_mem 0x6010 = 0"
  by (simp_all add: fx_simps)

lemma fx_unindexed_fields:
  "dyn fx_unindexed = 0x5000" "addr fx_unindexed = 0x7000"
  "dyn_info fx_unindexed = replicate (DT_NUM + OS_SPECIFIC_FLAG) 0"
  by (simp_all add: fx_unindexed_def new_library_def)

lemma fx_dyn_tag_vals:
  "d_tag fx_mem 0x5000 = 6" "d_tag fx_mem 0x5010 = 5" "d_tag fx_mem 0x5020 = 23"
  "d_tag fx_mem 0x5030 = 2" "d_tag fx_mem 0x5040 = 7" "d_tag fx_mem 0x5050 = 8"
  "d_tag fx_mem 0x5060 = 0x6ffffff9" "d_tag fx_mem 0x5070 = 0"
  by (simp_all add: d_tag_def fx_simps)

lemma fx_dyn_tags: "\<forall>k<7. d_tag fx_mem (0x5000 + word_of_nat (16 * k)) \<noteq> 0"
proof (intro allI impI)
  fix k :: nat assume "k < 7"
  then have "k = 0 \<or> k = 1 \<or> k = 2 \<or> k = 3 \<or> k = 4 \<or> k = 5 \<or> k = 6" by auto
  then show "d_tag fx_mem (0x5000 + word_of_nat (16 * k)) \<noteq> 0"
    by (elim disjE) (simp_all add: fx_dyn_tag_vals)
qed

end
