(* ===== verification/GnuHash.thy ===== *)
theory GnuHash
  imports Fixture
begin

text \<open>
  Hash-table reader and symbol resolver: \<open>dl_new_hash\<close>, \<open>symbolLookup\<close>
  of \<^verbatim>\<open>src/relocLibrary.c\<close> and \<open>setup_hash\<close> of \<^verbatim>\<open>src/mapLibrary.c\<close>.
  \<open>setup_hash\<close> fills the six hash fields of a record from the header of the
  \<open>.gnu.hash\<close> section; \<open>symbolLookup\<close> hashes a name, tests the two bits of
  the Bloom filter, reads the bucket and walks the hash chain
  (\<open>chain_walk\<close>, a loop that stops only at an entry with its low bit set,
  hence \<open>partial_function\<close>), or forwards to the host's \<open>dlsym\<close> for a
  delegated (``fake'') record.
\<close>

subsection \<open>The hash function\<close>

text \<open>
  \<open>uint_fast32_t\<close> is 64 bits wide on x86-64 glibc: the accumulator is a
  64-bit word and only the final result is masked to 32 bits.
\<close>

definition dl_new_hash :: "string \<Rightarrow> u64" where
  "dl_new_hash s = foldl (\<lambda>h c. h * 33 + of_char c) 5381 s AND 0xffffffff"

text \<open>The specification's hash: 32-bit truncation after every step.\<close>

definition gnu_hash_ref :: "string \<Rightarrow> nat" where
  "gnu_hash_ref s = foldl (\<lambda>h c. (h * 33 + of_char c) mod 2 ^ 32) 5381 s"

subsection \<open>Reading the hash section header\<close>

definition setup_hash :: "mem \<Rightarrow> library \<Rightarrow> library res" where
  "setup_hash m l =
     bindR (dyn_val m l (DT_NUM + DT_GNU_HASH_NEW)) (\<lambda>hash32.
       let nbuckets = load_u32 m hash32;
           symbias = load_u32 m (hash32 + 4);
           bitmask_nwords = load_u32 m (hash32 + 8);
           shift = load_u32 m (hash32 + 12);
           bitmask = hash32 + 16;
           buckets = bitmask + 4 * ucast (2 * bitmask_nwords);
           chain_zero = buckets + 4 * ucast nbuckets - 4 * ucast symbias
       in ret (l\<lparr>l_nbuckets := nbuckets, l_gnu_bitmask_idxbits := bitmask_nwords - 1,
                 l_gnu_shift := shift, l_gnu_bitmask := bitmask,
                 l_gnu_buckets := buckets, l_gnu_chain_zero := chain_zero\<rparr>))"

subsection \<open>Lookup\<close>

text \<open>
  One turn of the \<open>do \<dots> while\<close> loop at \<open>hasharr\<close>: compare the stored hash
  ignoring its low bit, and on a match compare the symbol's name; stop at the
  entry whose low bit is set.  The symbol index is the element distance of
  \<open>hasharr\<close> from \<open>l_gnu_chain_zero\<close>, truncated to 32 bits.
\<close>

partial_function (option) chain_walk ::
  "mem \<Rightarrow> library \<Rightarrow> addr \<Rightarrow> addr \<Rightarrow> string \<Rightarrow> u64 \<Rightarrow> addr \<Rightarrow> addr option" where
  "chain_walk m dep symtab strtab s h hasharr =
     (let w = load_u32 m hasharr;
          symidx = (ucast (drop_bit 2 (hasharr - l_gnu_chain_zero dep)) :: u32);
          sym = symtab + 24 * ucast symidx
      in if drop_bit 1 (ucast w XOR h) = 0 \<and> cstr_eq m (strtab + ucast (st_name m sym)) s
         then Some (st_value m sym + addr dep)
         else if w AND 1 = 0 then chain_walk m dep symtab strtab s h (hasharr + 4)
         else Some 0)"

declare chain_walk.simps [code]

text \<open>
  The lookup proper, after the symbol and string tables have been read.  A
  shift count of 64 or more is undefined in C; \<open>new_hash % l_nbuckets\<close>
  traps when the bucket count is 0.
\<close>

definition bloom_word :: "mem \<Rightarrow> library \<Rightarrow> u64 \<Rightarrow> u64" where
  "bloom_word m dep h =
     load_u64 m (l_gnu_bitmask dep + 8 * ((h div 64) AND ucast (l_gnu_bitmask_idxbits dep)))"

definition bloom_pass :: "mem \<Rightarrow> library \<Rightarrow> u64 \<Rightarrow> bool" where
  "bloom_pass m dep h =
     (let w = bloom_word m dep h;
          hashbit1 = h AND 63;
          hashbit2 = drop_bit (unat (l_gnu_shift dep)) h AND 63
      in (drop_bit (unat hashbit1) w AND drop_bit (unat hashbit2) w AND 1) \<noteq> 0)"

definition gnu_lookup :: "mem \<Rightarrow> library \<Rightarrow> addr \<Rightarrow> addr \<Rightarrow> string \<Rightarrow> addr res" where
  "gnu_lookup m dep symtab strtab s =
     (let h = dl_new_hash s
      in if 64 \<le> unat (l_gnu_shift dep) then fail ShiftOverflow
         else if bloom_pass m dep h then
           (if l_nbuckets dep = 0 then fail DivByZero
            else let bucket = load_u32 m (l_gnu_buckets dep + 4 * (h mod ucast (l_nbuckets dep)))
                 in if bucket \<noteq> 0
                    then liftR (chain_walk m dep symtab strtab s h (l_gnu_chain_zero dep + 4 * ucast bucket))
                    else ret 0)
         else ret 0)"

text \<open>
  \<open>symbolLookup(dep, name)\<close>.  For a delegated record the host loader is
  opened again on every call (its handle stored in \<open>fake_handle\<close>) and its
  answer returned as is.  \<open>name\<close> is a pointer into memory, read as a C
  string; the result is the address, 0 for ``not found'', with the record as
  the call leaves it.
\<close>

definition symbolLookup :: "host \<Rightarrow> mem \<Rightarrow> library \<Rightarrow> addr \<Rightarrow> (library \<times> addr) res" where
  "symbolLookup hs m dep nm =
     (if fake dep then
        (let handle = dl_open hs (name dep)
         in if handle = 0 then fail (DlopenFailure (name dep))
            else bindR (cstr_res m nm) (\<lambda>s. ret (dep\<lparr>fake_handle := handle\<rparr>, dl_sym hs handle s)))
      else
        bindR (dyn_val m dep DT_SYMTAB) (\<lambda>symtab.
        bindR (dyn_val m dep DT_STRTAB) (\<lambda>strtab.
        bindR (cstr_res m nm) (\<lambda>s.
        mapR (Pair dep) (gnu_lookup m dep symtab strtab s)))))"

definition found_sym :: "mem \<Rightarrow> library \<Rightarrow> addr \<Rightarrow> addr \<Rightarrow> string \<Rightarrow> addr \<Rightarrow> bool" where
  "found_sym m dep symtab strtab s r \<longleftrightarrow>
     (\<exists>i::u32. cstr_eq m (strtab + ucast (st_name m (symtab + 24 * ucast i))) s
              \<and> r = st_value m (symtab + 24 * ucast i) + addr dep)"

subsection \<open>The hash function: properties\<close>

lemma of_char_word: "(of_char c :: 'a::len word) = word_of_nat (of_char c)"
  by (simp only: of_nat_of_char)

lemma unat_hash_step:
  "unat ((h::'a::len word) * 33 + of_char c) = (unat h * 33 + of_char c) mod 2 ^ LENGTH('a)"
proof -
  have "(h * 33 + of_char c) = word_of_nat (unat h * 33 + of_char c)"
    by (simp add: of_char_word)
  then show ?thesis by (simp only: unat_of_nat)
qed

lemma foldl_hash_unat:
  assumes "32 \<le> LENGTH('a)"
  shows "unat (foldl (\<lambda>h c. h * 33 + of_char c) (h0::'a::len word) s) mod 2 ^ 32
   = foldl (\<lambda>h c. (h * 33 + of_char c) mod 2 ^ 32) (unat h0 mod 2 ^ 32) s"
proof (induction s arbitrary: h0)
  case (Cons c s)
  have d: "(2::nat) ^ 32 dvd 2 ^ LENGTH('a)" by (rule le_imp_power_dvd [OF assms])
  have "unat (h0 * 33 + of_char c) mod 2 ^ 32 = (unat h0 * 33 + of_char c) mod 2 ^ 32"
    by (simp only: unat_hash_step mod_mod_cancel [OF d])
  also have "\<dots> = (unat h0 mod 2 ^ 32 * 33 + of_char c) mod 2 ^ 32"
    by (metis mod_add_left_eq mod_mult_left_eq)
  finally show ?case using Cons [of "h0 * 33 + of_char c"] by simp
qed simp

lemma and_ffffffff: "unat ((w::u64) AND 0xffffffff) = unat w mod 2 ^ 32"
proof -
  have "(0xffffffff::u64) = mask 32" by (simp add: mask_eq_exp_minus_1)
  then have "w AND 0xffffffff = take_bit 32 w" by (simp add: take_bit_eq_mask)
  then show ?thesis by (simp only: unsigned_take_bit_eq) (simp add: take_bit_eq_mod)
qed

text \<open>
  C3: the hash \<open>dl_new_hash\<close> computes, with its 64-bit accumulator masked
  once at the end, exactly the specification's hash: start at 5381, multiply by
  33 and add each byte, truncating to 32 bits after every step.
\<close>

theorem unat_dl_new_hash: "unat (dl_new_hash s) = gnu_hash_ref s"
  using foldl_hash_unat [where 'a = 64, of 5381 s]
  by (simp add: dl_new_hash_def gnu_hash_ref_def and_ffffffff)

subsection \<open>The chain walk\<close>

text \<open>
  One unfolding of the loop at a fixed entry, and the loop's two exits: it
  returns as soon as some entry at or after the start has its low bit set,
  and whatever non-NULL address it returns is the value of a symbol whose
  name in the string table is the requested one.
\<close>

lemma chain_walk_step:
  "chain_walk m dep symtab strtab s h p =
     (let w = load_u32 m p;
          sym = symtab + 24 * ucast (ucast (drop_bit 2 (p - l_gnu_chain_zero dep)) :: u32)
      in if drop_bit 1 (ucast w XOR h) = 0 \<and> cstr_eq m (strtab + ucast (st_name m sym)) s
         then Some (st_value m sym + addr dep)
         else if w AND 1 = 0 then chain_walk m dep symtab strtab s h (p + 4)
         else Some 0)"
  by (subst chain_walk.simps) (simp add: Let_def)

lemma chain_walk_returns:
  "load_u32 m (p + 4 * word_of_nat k) AND 1 \<noteq> 0 \<Longrightarrow> chain_walk m dep symtab strtab s h p \<noteq> None"
proof (induction k arbitrary: p)
  case 0
  then show ?case by (simp add: chain_walk_step [of m dep symtab strtab s h p] Let_def)
next
  case (Suc k)
  have eq: "(p + 4) + 4 * word_of_nat k = p + 4 * word_of_nat (Suc k)"
    by (simp add: algebra_simps)
  have "load_u32 m ((p + 4) + 4 * word_of_nat k) AND 1 \<noteq> 0"
    unfolding eq by (rule Suc.prems)
  then have "chain_walk m dep symtab strtab s h (p + 4) \<noteq> None"
    by (rule Suc.IH)
  then show ?case by (simp add: chain_walk_step [of m dep symtab strtab s h p] Let_def)
qed

lemma chain_walk_sound:
  assumes ret: "chain_walk m dep symtab strtab s h p = Some r"
  shows "r \<noteq> 0 \<longrightarrow> found_sym m dep symtab strtab s r"
proof (rule chain_walk.raw_induct
    [where P = "\<lambda>m dep symtab strtab s h p r. r \<noteq> 0 \<longrightarrow> found_sym m dep symtab strtab s r",
     OF _ ret])
  fix f m dep symtab strtab s h p r
  assume IH: "\<And>m dep symtab strtab s h p r. f m dep symtab strtab s h p = Some r \<Longrightarrow>
                r \<noteq> 0 \<longrightarrow> found_sym m dep symtab strtab s r"
    and eq: "(let w = load_u32 m p;
          symidx = (ucast (drop_bit 2 (p - l_gnu_chain_zero dep)) :: u32);
          sym = symtab + 24 * ucast symidx
      in if drop_bit 1 (ucast w XOR h) = 0 \<and> cstr_eq m (strtab + ucast (st_name m sym)) s
         then Some (st_value m sym + addr dep)
         else if w AND 1 = 0 then f m dep symtab strtab s h (p + 4)
         else Some 0) = Some r"
  show "r \<noteq> 0 \<longrightarrow> found_sym m dep symtab strtab s r"
    using eq IH [of m dep symtab strtab s h "p + 4" r]
    by (auto simp: Let_def found_sym_def split: if_splits)
qed

lemma gnu_lookup_sound:
  assumes "gnu_lookup m dep symtab strtab s = ret r" and "r \<noteq> 0"
  shows "found_sym m dep symtab strtab s r"
proof -
  have "\<exists>b::u32. chain_walk m dep symtab strtab s (dl_new_hash s) (l_gnu_chain_zero dep + 4 * ucast b) = Some r"
    using assms by (auto simp: gnu_lookup_def Let_def liftR_def ret_def fail_def split: if_splits)
  then obtain b :: u32 where
    "chain_walk m dep symtab strtab s (dl_new_hash s) (l_gnu_chain_zero dep + 4 * ucast b) = Some r"
    by blast
  then show ?thesis using chain_walk_sound assms(2) by blast
qed

lemma symbolLookup_nonfake:
  assumes "symbolLookup hs m dep nm = ret (dep', r)" and "\<not> fake dep"
  obtains s where "dyn_info dep ! DT_SYMTAB \<noteq> 0" "dyn_info dep ! DT_STRTAB \<noteq> 0"
    "read_cstr m nm = Some s" "dep' = dep"
    "gnu_lookup m dep (d_un m (dyn_info dep ! DT_SYMTAB)) (d_un m (dyn_info dep ! DT_STRTAB)) s = ret r"
  using assms
  by (auto simp: symbolLookup_def dyn_val_def cstr_res_def liftR_def mapR_def bindR_eq_ret_iff
                 ret_def fail_def split: if_splits)

lemma fx_lookup_f: "symbolLookup fx_host fx_mem fx_lib 0x3000 = ret (fx_lib, 0x7400)"
proof -
  have "symbolLookup fx_host fx_mem fx_lib 0x3000
        = mapR (Pair fx_lib) (gnu_lookup fx_mem fx_lib 0x1000 0x2000 ''f'')"
    by (simp add: symbolLookup_def fx_lib_def new_library_def dyn_val_def cstr_res_def fx_names
                  d_un_def fx_loads)
  also have "gnu_lookup fx_mem fx_lib 0x1000 0x2000 ''f'' = ret 0x7400"
    by (simp add: gnu_lookup_def bloom_pass_def bloom_word_def dl_new_hash_def fx_loads Let_def
                  fx_lib_def new_library_def chain_walk_step st_name_def st_value_def)
  finally show ?thesis by simp
qed

lemma fx_lookup_g: "symbolLookup fx_host fx_mem fx_lib 0x3010 = ret (fx_lib, 0)"
proof -
  have "symbolLookup fx_host fx_mem fx_lib 0x3010
        = mapR (Pair fx_lib) (gnu_lookup fx_mem fx_lib 0x1000 0x2000 ''g'')"
    by (simp add: symbolLookup_def fx_lib_def new_library_def dyn_val_def cstr_res_def fx_names
                  d_un_def fx_loads)
  also have "gnu_lookup fx_mem fx_lib 0x1000 0x2000 ''g'' = ret 0"
    by (simp add: gnu_lookup_def bloom_pass_def bloom_word_def dl_new_hash_def fx_loads Let_def
                  fx_lib_def new_library_def)
  finally show ?thesis by simp
qed

text \<open>
  C1: symbol resolution is sound.  Whenever \<open>symbolLookup\<close> returns a
  non-NULL address for a record it maps itself, the record is unchanged and
  the address is \<open>st_value + base\<close> of a symbol-table entry whose name in
  the string table is, as a C string, exactly the name looked up.
\<close>

theorem symbolLookup_sound:
  assumes "symbolLookup hs m dep nm = ret (dep', r)" and "\<not> fake dep" and "r \<noteq> 0"
  shows "dep' = dep \<and>
    (\<exists>i::u32. read_cstr m (d_un m (dyn_info dep ! DT_STRTAB)
                   + ucast (st_name m (d_un m (dyn_info dep ! DT_SYMTAB) + 24 * ucast i)))
              = read_cstr m nm
            \<and> r = st_value m (d_un m (dyn_info dep ! DT_SYMTAB) + 24 * ucast i) + addr dep)"
proof -
  obtain s where s: "read_cstr m nm = Some s" and d: "dep' = dep"
    and g: "gnu_lookup m dep (d_un m (dyn_info dep ! DT_SYMTAB)) (d_un m (dyn_info dep ! DT_STRTAB)) s = ret r"
    using symbolLookup_nonfake [OF assms(1,2)] by blast
  have nul: "\<forall>c\<in>set s. of_char c \<noteq> (0::u8)" using s by (rule read_cstr_nul_free)
  from gnu_lookup_sound [OF g assms(3)] show ?thesis
    unfolding found_sym_def using s d nul cstr_eq_read_cstr by metis
qed

theorem symbolLookup_sound_witness:
  "symbolLookup fx_host fx_mem fx_lib 0x3000 = ret (fx_lib, 0x7400) \<and> \<not> fake fx_lib \<and> (0x7400::addr) \<noteq> 0 \<and>
   (\<exists>i::u32. read_cstr fx_mem (d_un fx_mem (dyn_info fx_lib ! DT_STRTAB)
                   + ucast (st_name fx_mem (d_un fx_mem (dyn_info fx_lib ! DT_SYMTAB) + 24 * ucast i)))
              = read_cstr fx_mem 0x3000
            \<and> 0x7400 = st_value fx_mem (d_un fx_mem (dyn_info fx_lib ! DT_SYMTAB) + 24 * ucast i) + addr fx_lib)"
proof -
  have nf: "\<not> fake fx_lib" by (simp add: fx_lib_def new_library_def)
  show ?thesis
    using symbolLookup_sound [OF fx_lookup_f nf] fx_lookup_f nf by simp
qed

text \<open>
  C2: the Bloom filter is a sound negative test.  When one of the two
  filter bits of the name's hash is clear, \<open>symbolLookup\<close> answers ``not
  found'' without touching the bucket and chain tables: the result holds with
  no assumption on them, not even a non-zero bucket count.
\<close>

theorem symbolLookup_bloom_negative:
  assumes "\<not> fake dep" and "dyn_info dep ! DT_SYMTAB \<noteq> 0" and "dyn_info dep ! DT_STRTAB \<noteq> 0"
    and "read_cstr m nm = Some s" and "unat (l_gnu_shift dep) < 64"
    and "\<not> bloom_pass m dep (dl_new_hash s)"
  shows "symbolLookup hs m dep nm = ret (dep, 0)"
  using assms
  by (simp add: symbolLookup_def dyn_val_def cstr_res_def gnu_lookup_def Let_def mapR_def)

theorem symbolLookup_bloom_negative_witness:
  "\<not> fake fx_lib \<and> dyn_info fx_lib ! DT_SYMTAB \<noteq> 0 \<and> dyn_info fx_lib ! DT_STRTAB \<noteq> 0 \<and>
   read_cstr fx_mem 0x3010 = Some ''g'' \<and> unat (l_gnu_shift fx_lib) < 64 \<and>
   \<not> bloom_pass fx_mem fx_lib (dl_new_hash ''g'') \<and>
   symbolLookup fx_host fx_mem fx_lib 0x3010 = ret (fx_lib, 0)"
proof -
  have h: "\<not> fake fx_lib" "dyn_info fx_lib ! DT_SYMTAB \<noteq> 0" "dyn_info fx_lib ! DT_STRTAB \<noteq> 0"
    "unat (l_gnu_shift fx_lib) < 64"
    by (simp_all add: fx_lib_def new_library_def)
  have b: "\<not> bloom_pass fx_mem fx_lib (dl_new_hash ''g'')"
    by (simp add: bloom_pass_def bloom_word_def dl_new_hash_def fx_loads fx_lib_def new_library_def)
  show ?thesis
    using symbolLookup_bloom_negative [OF h(1-3) fx_names(2) h(4) b] h b fx_names(2) by simp
qed

text \<open>
  C4: symbol lookup returns.  For a record it maps itself, with both tables
  present, a terminated name, a shift below 64 and a non-zero bucket count,
  \<open>symbolLookup\<close> neither fails nor loops provided the chain its bucket
  selects reaches an entry with the end-of-chain bit; it leaves the record
  unchanged.
\<close>

theorem symbolLookup_returns:
  assumes "\<not> fake dep" and "dyn_info dep ! DT_SYMTAB \<noteq> 0" and "dyn_info dep ! DT_STRTAB \<noteq> 0"
    and "read_cstr m nm = Some s" and "unat (l_gnu_shift dep) < 64" and "l_nbuckets dep \<noteq> 0"
    and "\<exists>k. load_u32 m (l_gnu_chain_zero dep
              + 4 * ucast (load_u32 m (l_gnu_buckets dep + 4 * (dl_new_hash s mod ucast (l_nbuckets dep))))
              + 4 * word_of_nat k) AND 1 \<noteq> 0"
  shows "\<exists>r. symbolLookup hs m dep nm = ret (dep, r)"
proof -
  let ?b = "load_u32 m (l_gnu_buckets dep + 4 * (dl_new_hash s mod ucast (l_nbuckets dep)))"
  let ?cw = "chain_walk m dep (d_un m (dyn_info dep ! DT_SYMTAB)) (d_un m (dyn_info dep ! DT_STRTAB))
               s (dl_new_hash s) (l_gnu_chain_zero dep + 4 * ucast ?b)"
  obtain k where "load_u32 m (l_gnu_chain_zero dep + 4 * ucast ?b + 4 * word_of_nat k) AND 1 \<noteq> 0"
    using assms(7) by blast
  then have "?cw \<noteq> None" by (rule chain_walk_returns)
  then obtain r where cw: "?cw = Some r" by blast
  have "\<exists>r. gnu_lookup m dep (d_un m (dyn_info dep ! DT_SYMTAB)) (d_un m (dyn_info dep ! DT_STRTAB)) s = ret r"
  proof (cases "bloom_pass m dep (dl_new_hash s) \<and> ?b \<noteq> 0")
    case True
    then show ?thesis using assms(5,6) cw by (simp add: gnu_lookup_def Let_def liftR_def ret_def)
  next
    case False
    then show ?thesis using assms(5,6) by (auto simp: gnu_lookup_def Let_def)
  qed
  then obtain r' where
    "gnu_lookup m dep (d_un m (dyn_info dep ! DT_SYMTAB)) (d_un m (dyn_info dep ! DT_STRTAB)) s = ret r'"
    by blast
  then have "symbolLookup hs m dep nm = ret (dep, r')"
    using assms(1-4) by (simp add: symbolLookup_def dyn_val_def cstr_res_def mapR_def)
  then show ?thesis by blast
qed

theorem symbolLookup_returns_witness:
  "\<not> fake fx_lib \<and> dyn_info fx_lib ! DT_SYMTAB \<noteq> 0 \<and> dyn_info fx_lib ! DT_STRTAB \<noteq> 0 \<and>
   read_cstr fx_mem 0x3000 = Some ''f'' \<and> unat (l_gnu_shift fx_lib) < 64 \<and> l_nbuckets fx_lib \<noteq> 0 \<and>
   (\<exists>k. load_u32 fx_mem (l_gnu_chain_zero fx_lib
              + 4 * ucast (load_u32 fx_mem (l_gnu_buckets fx_lib + 4 * (dl_new_hash ''f'' mod ucast (l_nbuckets fx_lib))))
              + 4 * word_of_nat k) AND 1 \<noteq> 0) \<and>
   (\<exists>r. symbolLookup fx_host fx_mem fx_lib 0x3000 = ret (fx_lib, r))"
proof -
  have h: "\<not> fake fx_lib" "dyn_info fx_lib ! DT_SYMTAB \<noteq> 0" "dyn_info fx_lib ! DT_STRTAB \<noteq> 0"
    "unat (l_gnu_shift fx_lib) < 64" "l_nbuckets fx_lib \<noteq> 0"
    by (simp_all add: fx_lib_def new_library_def)
  have k: "\<exists>k. load_u32 fx_mem (l_gnu_chain_zero fx_lib
              + 4 * ucast (load_u32 fx_mem (l_gnu_buckets fx_lib + 4 * (dl_new_hash ''f'' mod ucast (l_nbuckets fx_lib))))
              + 4 * word_of_nat k) AND 1 \<noteq> 0"
    by (rule exI [of _ 0]) (simp add: fx_lib_def new_library_def dl_new_hash_def fx_loads)
  show ?thesis
    using symbolLookup_returns [OF h(1-3) fx_names(1) h(4-5) k] h k fx_names(1) by simp
qed

end
