(* ===== verification/Reloc.thy ===== *)
theory Reloc
  imports GnuHash
begin

text \<open>
  Relocator and lazy-bind handler: \<open>relocRela\<close>, \<open>relocPLT\<close>,
  \<open>relocLibrary\<close> of \<^verbatim>\<open>src/relocLibrary.c\<close> and \<open>runtimeResolve\<close> of
  \<^verbatim>\<open>src/runtimeResolve.c\<close>.  They run on the loader state (memory and chain)
  for the record at chain index \<open>li\<close>.  The scan of the search list
  (\<open>while (*search) \<dots> search++\<close>) is \<open>search_scan\<close>; the per-entry bodies of
  the relocation loops are \<open>rela_relative_step\<close>, \<open>bind_symbol\<close> and
  \<open>plt_step\<close>, run by \<open>ptr_loop\<close> over the \<open>Elf64_Rela\<close> tables.
\<close>

subsection \<open>The search-list scan\<close>

text \<open>
  The search list is a \<open>malloc\<close>ed array that the code never terminates with
  NULL: the scan stops at the first library that resolves the name, and
  otherwise reads a slot that was never written (\<open>UninitRead\<close>) or runs off
  the end of the array (\<open>ArrayOverrun\<close>).  A slot holds a chain index; each
  lookup may update the record it consults (\<open>fake_handle\<close>).
\<close>

fun search_scan ::
  "host \<Rightarrow> mem \<Rightarrow> library list \<Rightarrow> nat option list \<Rightarrow> addr \<Rightarrow> (library list \<times> addr) res" where
  "search_scan hs m ch [] nm = fail ArrayOverrun"
| "search_scan hs m ch (None # sl) nm = fail UninitRead"
| "search_scan hs m ch (Some i # sl) nm =
     (if i < length ch then
        bindR (symbolLookup hs m (ch ! i) nm) (\<lambda>(d', res).
          if res \<noteq> 0 then ret (ch[i := d'], res) else search_scan hs m (ch[i := d']) sl nm)
      else fail ArrayOverrun)"

definition search_list_of :: "library \<Rightarrow> nat option list res" where
  "search_list_of l = (case search_list l of None \<Rightarrow> fail NullDeref | Some sl \<Rightarrow> ret sl)"

text \<open>
  Resolve the symbol named at \<open>real_name\<close> through the search list of the
  record \<open>li\<close> and, on success, write \<open>res + r_addend\<close> to
  \<open>base + r_offset\<close> of the relocation entry at \<open>it\<close>.
\<close>

definition bind_symbol :: "host \<Rightarrow> nat \<Rightarrow> addr \<Rightarrow> addr \<Rightarrow> ld_state \<Rightarrow> ld_state res" where
  "bind_symbol hs li real_name it st =
     (let m = memory st; lib = chain st ! li
      in bindR (search_list_of lib) (\<lambda>sl.
         bindR (search_scan hs m (chain st) sl real_name) (\<lambda>(ch', res).
           if res \<noteq> 0
           then ret (st\<lparr>chain := ch', memory := store_u64 m (addr lib + r_offset m it) (res + r_addend m it)\<rparr>)
           else ret (st\<lparr>chain := ch'\<rparr>))))"

text \<open>The name of the symbol an \<open>Elf64_Rela\<close> entry refers to, as a pointer.\<close>

definition rela_name :: "mem \<Rightarrow> addr \<Rightarrow> addr \<Rightarrow> addr \<Rightarrow> addr" where
  "rela_name m symtab strtab it =
     (let sym = symtab + 24 * drop_bit 32 (r_info m it) in strtab + ucast (st_name m sym))"

subsection \<open>\<open>relocRela\<close>\<close>

definition rela_relative_step :: "nat \<Rightarrow> addr \<Rightarrow> ld_state \<Rightarrow> ld_state res" where
  "rela_relative_step li it st =
     (let m = memory st; base = addr (chain st ! li)
      in ret (st\<lparr>memory := store_u64 m (base + r_offset m it) (base + r_addend m it)\<rparr>))"

definition rela_bind_step :: "host \<Rightarrow> nat \<Rightarrow> addr \<Rightarrow> addr \<Rightarrow> addr \<Rightarrow> ld_state \<Rightarrow> ld_state res" where
  "rela_bind_step hs li symtab strtab it st =
     bind_symbol hs li (rela_name (memory st) symtab strtab it) it st"

definition relocRela :: "host \<Rightarrow> nat \<Rightarrow> ld_state \<Rightarrow> ld_state res" where
  "relocRela hs li st =
     (let m = memory st; lib = chain st ! li
      in bindR (dyn_val m lib DT_RELA) (\<lambda>start.
         bindR (dyn_val m lib DT_RELASZ) (\<lambda>size.
         bindR (dyn_val m lib (DT_NUM + DT_RELACOUNT_NEW)) (\<lambda>nrelative.
         let r_end = start + 24 * nrelative
         in bindR (ptr_loop (rela_relative_step li) 24 start r_end st) (\<lambda>st1.
            bindR (dyn_val (memory st1) lib DT_SYMTAB) (\<lambda>symtab.
            bindR (dyn_val (memory st1) lib DT_STRTAB) (\<lambda>strtab.
            ptr_loop (rela_bind_step hs li symtab strtab) 24 r_end (start + size) st1)))))))"

subsection \<open>\<open>relocPLT\<close>\<close>

text \<open>
  An \<open>R_X86_64_IRELATIVE\<close> entry calls the resolver at \<open>base + r_addend\<close>
  and stores its answer, with no symbol search; any other entry is bound
  through the search list.  The \<open>mode\<close> argument is not used by the code.
\<close>

definition plt_step :: "host \<Rightarrow> nat \<Rightarrow> addr \<Rightarrow> addr \<Rightarrow> addr \<Rightarrow> ld_state \<Rightarrow> ld_state res" where
  "plt_step hs li symtab strtab it st =
     (let m = memory st; lib = chain st ! li;
          real_name = rela_name m symtab strtab it;
          r_type = r_info m it AND 0xffffffff
      in if r_type = R_X86_64_IRELATIVE
         then let value = call_ifunc hs (addr lib + r_addend m it)
              in ret (st\<lparr>memory := store_u64 m (addr lib + r_offset m it) value\<rparr>)
         else bind_symbol hs li real_name it st)"

definition relocPLT :: "host \<Rightarrow> nat \<Rightarrow> nat \<Rightarrow> ld_state \<Rightarrow> ld_state res" where
  "relocPLT hs li mode st =
     (let m = memory st; lib = chain st ! li
      in bindR (dyn_val m lib DT_JMPREL) (\<lambda>start.
         bindR (dyn_val m lib DT_PLTRELSZ) (\<lambda>size.
         bindR (dyn_val m lib DT_SYMTAB) (\<lambda>symtab.
         bindR (dyn_val m lib DT_STRTAB) (\<lambda>strtab.
         ptr_loop (plt_step hs li symtab strtab) 24 start (start + size) st)))))"

definition relocLibrary :: "host \<Rightarrow> nat \<Rightarrow> nat \<Rightarrow> ld_state \<Rightarrow> ld_state res" where
  "relocLibrary hs li mode st =
     (if fake (chain st ! li) then ret st
      else bindR (relocRela hs li st) (\<lambda>st'. relocPLT hs li mode st'))"

subsection \<open>\<open>runtimeResolve\<close>\<close>

text \<open>
  Lazy binding of PLT entry number \<open>reloc_entry\<close> of record \<open>li\<close>: resolve,
  patch the slot with \<open>res + r_addend\<close>, and return \<open>res + r_addend\<close> with
  the addend read again after the write, as the C code does.  A miss is fatal.
\<close>

definition runtimeResolve :: "host \<Rightarrow> nat \<Rightarrow> u32 \<Rightarrow> ld_state \<Rightarrow> (ld_state \<times> addr) res" where
  "runtimeResolve hs li reloc_entry st =
     (let m = memory st; lib = chain st ! li
      in bindR (dyn_val m lib DT_STRTAB) (\<lambda>strtab.
         bindR (dyn_val m lib DT_SYMTAB) (\<lambda>symtab.
         bindR (dyn_val m lib DT_JMPREL) (\<lambda>plt_start.
         let reloc_obj = plt_start + 24 * ucast reloc_entry;
             real_name = rela_name m symtab strtab reloc_obj
         in bindR (search_list_of lib) (\<lambda>sl.
            bindR (search_scan hs m (chain st) sl real_name) (\<lambda>(ch', res).
              if res \<noteq> 0
              then let m' = store_u64 m (addr lib + r_offset m reloc_obj) (res + r_addend m reloc_obj)
                   in ret (st\<lparr>chain := ch', memory := m'\<rparr>, res + r_addend m' reloc_obj)
              else bindR (cstr_res m real_name) (\<lambda>s. fail (PltUnresolved s (name lib)))))))))"

subsection \<open>The search-list scan: properties\<close>

lemma search_scan_all_miss:
  assumes "\<forall>j\<in>set js. j < length ch \<and> symbolLookup hs m (ch ! j) nm = ret (ch ! j, 0)"
  shows "search_scan hs m ch (map Some js) nm = fail ArrayOverrun"
  using assms by (induction js) simp_all

text \<open>
  C5: the first match wins.  Along a prefix of initialised slots whose
  lookups succeed without changing their records, the scan returns the
  answer of the first library that defines the name and consults nothing
  after it; when none of them does, it goes on with the rest of the list.
\<close>

theorem search_scan_first_match:
  assumes "\<forall>j\<in>set js. j < length ch \<and> symbolLookup hs m (ch ! j) nm = ret (ch ! j, look j)"
  shows "search_scan hs m ch (map Some js @ rest) nm =
           (case find (\<lambda>j. look j \<noteq> 0) js of
              Some j \<Rightarrow> ret (ch, look j)
            | None \<Rightarrow> search_scan hs m ch rest nm)"
  using assms by (induction js) simp_all

theorem search_scan_first_match_witness:
  "search_scan fx_host fx_mem [fx_lib] [Some 0] 0x3000 = ret ([fx_lib], 0x7400)"
  using search_scan_first_match [where js = "[0]" and ch = "[fx_lib]" and look = "\<lambda>_. 0x7400" and rest = "[]"]
  by (simp add: fx_lookup_f)

subsection \<open>The relative pass: properties\<close>

lemma rela_fields_store:
  assumes "disjoint t 8 j 8" and "disjoint t 8 (j + 16) 8"
  shows "r_offset (store_u64 m t v) j = r_offset m j" "r_addend (store_u64 m t v) j = r_addend m j"
  using assms by (simp_all add: r_offset_def r_addend_def load_u64_store_u64_other disjoint_sym)

text \<open>
  Run over a list of entries, the relative step writes \<open>base + r_addend\<close>
  at \<open>base + r_offset\<close> for each entry and touches no other 8-byte word, as
  long as no target overlaps the fields of an entry and distinct entries
  have disjoint targets.
\<close>

lemma relative_pass_seqR:
  assumes "addr (chain st ! li) = base"
    and "\<forall>i\<in>set its. \<forall>j\<in>set its. disjoint (base + r_offset (memory st) i) 8 j 8 \<and>
                                    disjoint (base + r_offset (memory st) i) 8 (j + 16) 8"
    and "\<forall>i\<in>set its. \<forall>j\<in>set its. i \<noteq> j \<longrightarrow>
           disjoint (base + r_offset (memory st) i) 8 (base + r_offset (memory st) j) 8"
  shows "\<exists>st'. seqR (rela_relative_step li) its st = ret st' \<and> chain st' = chain st \<and>
           (\<forall>i\<in>set its. load_u64 (memory st') (base + r_offset (memory st) i) = base + r_addend (memory st) i) \<and>
           (\<forall>a. (\<forall>i\<in>set its. disjoint a 8 (base + r_offset (memory st) i) 8) \<longrightarrow>
                load_u64 (memory st') a = load_u64 (memory st) a)"
  using assms
proof (induction its arbitrary: st)
  case Nil
  then show ?case by simp
next
  case (Cons it its)
  let ?m = "memory st"
  let ?t = "base + r_offset ?m it"
  define st1 where "st1 = st\<lparr>memory := store_u64 ?m ?t (base + r_addend ?m it)\<rparr>"
  have step: "rela_relative_step li it st = ret st1"
    using Cons.prems(1) by (simp add: rela_relative_step_def st1_def Let_def)
  have rd: "r_offset (memory st1) j = r_offset ?m j" "r_addend (memory st1) j = r_addend ?m j"
    if "j \<in> set its" for j
    using rela_fields_store Cons.prems(2) that by (simp_all add: st1_def)
  have h1: "addr (chain st1 ! li) = base" using Cons.prems(1) by (simp add: st1_def)
  have h2: "\<forall>i\<in>set its. \<forall>j\<in>set its. disjoint (base + r_offset (memory st1) i) 8 j 8 \<and>
                                    disjoint (base + r_offset (memory st1) i) 8 (j + 16) 8"
    using Cons.prems(2) rd by simp
  have h3: "\<forall>i\<in>set its. \<forall>j\<in>set its. i \<noteq> j \<longrightarrow>
           disjoint (base + r_offset (memory st1) i) 8 (base + r_offset (memory st1) j) 8"
    using Cons.prems(3) rd by simp
  obtain st' where run: "seqR (rela_relative_step li) its st1 = ret st'" and ch: "chain st' = chain st1"
    and val: "\<forall>i\<in>set its. load_u64 (memory st') (base + r_offset (memory st1) i) = base + r_addend (memory st1) i"
    and frame: "\<forall>a. (\<forall>i\<in>set its. disjoint a 8 (base + r_offset (memory st1) i) 8) \<longrightarrow>
                  load_u64 (memory st') a = load_u64 (memory st1) a"
    using Cons.IH [OF h1 h2 h3] by blast
  have head: "load_u64 (memory st') ?t = base + r_addend ?m it"
  proof (cases "it \<in> set its")
    case True
    then show ?thesis using val rd by simp
  next
    case False
    then have "\<forall>i\<in>set its. disjoint ?t 8 (base + r_offset (memory st1) i) 8"
      using Cons.prems(3) rd by auto
    then show ?thesis using frame by (simp add: st1_def)
  qed
  have fr: "load_u64 (memory st') a = load_u64 ?m a"
    if "\<forall>i\<in>set (it # its). disjoint a 8 (base + r_offset ?m i) 8" for a
  proof -
    have "load_u64 (memory st') a = load_u64 (memory st1) a" using frame that rd by simp
    also have "\<dots> = load_u64 ?m a" using that by (simp add: st1_def load_u64_store_u64_other)
    finally show ?thesis .
  qed
  show ?case using step run ch val head fr rd by (auto simp: st1_def)
qed

text \<open>
  C8: the relative prefix of \<open>relocRela\<close>.  The loop over the first
  \<open>DT_RELACOUNT\<close> entries returns, leaves the chain alone, sets the target
  word of every entry to \<open>base + r_addend\<close> and changes no 8-byte word
  disjoint from all targets, provided the end pointer does not wrap, no
  target overlaps the fields of an entry, and distinct entries have
  disjoint targets.
\<close>

theorem relocRela_relative_pass:
  assumes "unat r_end + 24 \<le> 2 ^ 64" and "addr (chain st ! li) = base"
    and "\<forall>i\<in>set (ptr_range 24 start r_end). \<forall>j\<in>set (ptr_range 24 start r_end).
           disjoint (base + r_offset (memory st) i) 8 j 8 \<and> disjoint (base + r_offset (memory st) i) 8 (j + 16) 8"
    and "\<forall>i\<in>set (ptr_range 24 start r_end). \<forall>j\<in>set (ptr_range 24 start r_end). i \<noteq> j \<longrightarrow>
           disjoint (base + r_offset (memory st) i) 8 (base + r_offset (memory st) j) 8"
  shows "\<exists>st'. ptr_loop (rela_relative_step li) 24 start r_end st = ret st' \<and> chain st' = chain st \<and>
           (\<forall>i\<in>set (ptr_range 24 start r_end).
              load_u64 (memory st') (base + r_offset (memory st) i) = base + r_addend (memory st) i) \<and>
           (\<forall>a. (\<forall>i\<in>set (ptr_range 24 start r_end). disjoint a 8 (base + r_offset (memory st) i) 8) \<longrightarrow>
                load_u64 (memory st') a = load_u64 (memory st) a)"
proof -
  have "ptr_loop (rela_relative_step li) 24 start r_end st
        = seqR (rela_relative_step li) (ptr_range 24 start r_end) st"
    using assms(1) by (intro ptr_loop_seqR) simp_all
  then show ?thesis using relative_pass_seqR [OF assms(2-4)] by simp
qed

theorem relocRela_relative_pass_witness:
  "\<exists>st'. ptr_loop (rela_relative_step 0) 24 0x6100 0x6118 fx_st = ret st' \<and>
         load_u64 (memory st') 0x7020 = 0x7030"
proof -
  have r: "ptr_range 24 0x6100 0x6118 = [0x6100]"
    by (simp add: ptr_range_def ptr_count_def)
  have l: "r_offset fx_mem 0x6100 = 0x20" "r_addend fx_mem 0x6100 = 0x30"
    by (simp_all add: r_offset_def r_addend_def fx_simps)
  have b: "addr (chain fx_st ! 0) = 0x7000" by (simp add: fx_st_def fx_lib_fields)
  have d: "\<forall>i\<in>set (ptr_range 24 0x6100 0x6118). \<forall>j\<in>set (ptr_range 24 0x6100 0x6118).
           disjoint (0x7000 + r_offset (memory fx_st) i) 8 j 8 \<and> disjoint (0x7000 + r_offset (memory fx_st) i) 8 (j + 16) 8"
    by (simp add: r l fx_st_def disjoint_def)
  have p: "\<forall>i\<in>set (ptr_range 24 0x6100 0x6118). \<forall>j\<in>set (ptr_range 24 0x6100 0x6118). i \<noteq> j \<longrightarrow>
           disjoint (0x7000 + r_offset (memory fx_st) i) 8 (0x7000 + r_offset (memory fx_st) j) 8"
    by (simp add: r)
  have "unat (0x6118::addr) + 24 \<le> 2 ^ 64" by simp
  from relocRela_relative_pass [OF this b d p] show ?thesis by (simp add: r l fx_st_def) blast
qed

subsection \<open>Symbol-bound entries: properties\<close>

text \<open>
  C9: an unresolved symbol-bound entry is not a silent miss.  When no
  library of the record's fully written search list defines the name, the
  eager binder does not leave the target word alone as the design notes
  describe: the scan reads past the end of the search list.
\<close>

theorem bind_symbol_miss:
  assumes "search_list (chain st ! li) = Some (map Some js)"
    and "\<forall>j\<in>set js. j < length (chain st) \<and> symbolLookup hs (memory st) (chain st ! j) nm = ret (chain st ! j, 0)"
  shows "bind_symbol hs li nm it st = fail ArrayOverrun"
  using assms search_scan_all_miss [OF assms(2)]
  by (simp add: bind_symbol_def search_list_of_def Let_def)

theorem bind_symbol_miss_witness:
  "bind_symbol fx_host 0 0x3010 0x6018 fx_st = fail ArrayOverrun"
proof -
  have "search_list (chain fx_st ! 0) = Some (map Some [0])" by (simp add: fx_st_def fx_lib_fields)
  moreover have "\<forall>j\<in>set [0]. j < length (chain fx_st) \<and>
                   symbolLookup fx_host (memory fx_st) (chain fx_st ! j) 0x3010 = ret (chain fx_st ! j, 0)"
    by (simp add: fx_st_def fx_lookup_g)
  ultimately show ?thesis by (rule bind_symbol_miss)
qed

subsection \<open>Lazy binding: properties\<close>

text \<open>
  C6: a miss is not the fatal error the code prints.  When no library of a
  fully written search list defines the name, the scan reads past the end
  of the \<open>malloc\<close>ed array before the \<open>if (!res)\<close> exit is reached.
\<close>

theorem runtimeResolve_miss:
  assumes "dyn_info (chain st ! li) ! DT_STRTAB \<noteq> 0" and "dyn_info (chain st ! li) ! DT_SYMTAB \<noteq> 0"
    and "dyn_info (chain st ! li) ! DT_JMPREL \<noteq> 0"
    and "search_list (chain st ! li) = Some (map Some js)"
    and "nm = rela_name (memory st) (d_un (memory st) (dyn_info (chain st ! li) ! DT_SYMTAB))
                (d_un (memory st) (dyn_info (chain st ! li) ! DT_STRTAB))
                (d_un (memory st) (dyn_info (chain st ! li) ! DT_JMPREL) + 24 * ucast e)"
    and "\<forall>j\<in>set js. j < length (chain st) \<and> symbolLookup hs (memory st) (chain st ! j) nm = ret (chain st ! j, 0)"
  shows "runtimeResolve hs li e st = fail ArrayOverrun"
  using assms search_scan_all_miss [OF assms(6)]
  by (simp add: runtimeResolve_def dyn_val_def search_list_of_def Let_def)

text \<open>
  C7: lazy binding patches the slot with what it returns.  When
  \<open>runtimeResolve\<close> returns \<open>v\<close>, the scan of the record's search list found
  a non-NULL \<open>res\<close> for the entry's name, the only change to memory is the
  8-byte store of \<open>v = res + r_addend\<close> at \<open>base + r_offset\<close>, and that slot
  then holds \<open>v\<close>, provided the slot is not the entry's own addend field.
\<close>

theorem runtimeResolve_patches:
  assumes "runtimeResolve hs li e st = ret (st', v)"
    and "obj = d_un (memory st) (dyn_info (chain st ! li) ! DT_JMPREL) + 24 * ucast e"
    and "slot = addr (chain st ! li) + r_offset (memory st) obj"
    and "disjoint slot 8 (obj + 16) 8"
  shows "\<exists>res sl. res \<noteq> 0 \<and> v = res + r_addend (memory st) obj \<and>
           memory st' = store_u64 (memory st) slot v \<and> load_u64 (memory st') slot = v \<and>
           search_list (chain st ! li) = Some sl \<and>
           search_scan hs (memory st) (chain st) sl
             (rela_name (memory st) (d_un (memory st) (dyn_info (chain st ! li) ! DT_SYMTAB))
                (d_un (memory st) (dyn_info (chain st ! li) ! DT_STRTAB)) obj) = ret (chain st', res)"
proof -
  let ?m = "memory st"
  let ?nm = "rela_name ?m (d_un ?m (dyn_info (chain st ! li) ! DT_SYMTAB))
                (d_un ?m (dyn_info (chain st ! li) ! DT_STRTAB)) obj"
  obtain sl ch' res where sl: "search_list (chain st ! li) = Some sl"
    and sc: "search_scan hs ?m (chain st) sl ?nm = ret (ch', res)" and r: "res \<noteq> 0"
    and st': "st' = st\<lparr>chain := ch', memory := store_u64 ?m slot (res + r_addend ?m obj)\<rparr>"
    and v: "v = res + r_addend (store_u64 ?m slot (res + r_addend ?m obj)) obj"
    using assms(1-3)
    by (auto simp: runtimeResolve_def bindR_eq_ret Let_def dyn_val_def search_list_of_def
                   split: if_splits option.splits prod.splits)
  have "r_addend (store_u64 ?m slot w) obj = r_addend ?m obj" for w
    using assms(4) by (simp add: r_addend_def load_u64_store_u64_other disjoint_sym)
  then show ?thesis using sl sc r st' v by auto
qed

theorem runtimeResolve_miss_witness:
  "runtimeResolve fx_host 0 1 fx_st = fail ArrayOverrun"
proof -
  have h: "dyn_info (chain fx_st ! 0) ! DT_STRTAB \<noteq> 0" "dyn_info (chain fx_st ! 0) ! DT_SYMTAB \<noteq> 0"
    "dyn_info (chain fx_st ! 0) ! DT_JMPREL \<noteq> 0" "search_list (chain fx_st ! 0) = Some (map Some [0])"
    by (simp_all add: fx_st_def fx_lib_def new_library_def)
  have n: "(0x3010::addr) = rela_name (memory fx_st) (d_un (memory fx_st) (dyn_info (chain fx_st ! 0) ! DT_SYMTAB))
                (d_un (memory fx_st) (dyn_info (chain fx_st ! 0) ! DT_STRTAB))
                (d_un (memory fx_st) (dyn_info (chain fx_st ! 0) ! DT_JMPREL) + 24 * ucast (1::u32))"
    by (simp add: fx_st_def fx_lib_def new_library_def rela_name_def d_un_def r_info_def st_name_def
                  fx_loads fx_reloc_loads)
  have l: "\<forall>j\<in>set [0]. j < length (chain fx_st) \<and>
             symbolLookup fx_host (memory fx_st) (chain fx_st ! j) 0x3010 = ret (chain fx_st ! j, 0)"
    by (simp add: fx_st_def fx_lookup_g)
  show ?thesis using runtimeResolve_miss [OF h n l] .
qed

theorem runtimeResolve_patches_witness:
  "runtimeResolve fx_host 0 0 fx_st = ret (fx_st\<lparr>memory := store_u64 fx_mem 0x7010 0x7400\<rparr>, 0x7400) \<and>
   load_u64 (store_u64 fx_mem 0x7010 0x7400) 0x7010 = 0x7400"
proof -
  have a: "r_addend (store_u64 fx_mem 0x7010 0x7400) 0x6000 = 0"
    by (simp add: r_addend_def load_u64_store_u64_other disjoint_def fx_reloc_loads)
  have rr: "runtimeResolve fx_host 0 0 fx_st = ret (fx_st\<lparr>memory := store_u64 fx_mem 0x7010 0x7400\<rparr>, 0x7400)"
    using a
    by (simp add: runtimeResolve_def fx_st_def fx_lib_fields fx_lookup_f dyn_val_def search_list_of_def
                  rela_name_def d_un_def r_info_def st_name_def r_offset_def r_addend_def
                  fx_loads fx_reloc_loads Let_def)
  have o: "(0x6000::addr) = d_un (memory fx_st) (dyn_info (chain fx_st ! 0) ! DT_JMPREL) + 24 * ucast (0::u32)"
    by (simp add: fx_st_def fx_lib_def new_library_def d_un_def fx_reloc_loads)
  have sl: "(0x7010::addr) = addr (chain fx_st ! 0) + r_offset (memory fx_st) 0x6000"
    by (simp add: fx_st_def fx_lib_def new_library_def r_offset_def fx_reloc_loads)
  have d: "disjoint 0x7010 8 (0x6000 + 16) 8" by (simp add: disjoint_def)
  from runtimeResolve_patches [OF rr o sl d] rr show ?thesis by auto
qed

end
