(* ===== verification/DynIndex.thy ===== *)
theory DynIndex
  imports Fixture
begin

text \<open>
  The dynamic section indexer, \<open>fill_info\<close> of \<^verbatim>\<open>src/mapLibrary.c\<close>.  The
  scan over the \<open>Elf64_Dyn\<close> array up to \<open>DT_NULL\<close> is \<open>dyn_scan\<close>, a
  \<open>partial_function\<close> because the C loop has no other bound; the choice of
  the index slot for a tag is \<open>slot_of\<close>; the rebasing macro is \<open>rebase\<close>,
  applied to the six pointer slots of \<open>rebased_tags\<close> in the code's order.
  The rebase writes into the mapped dynamic section, so \<open>fill_info\<close>
  returns the memory with the record.
\<close>

subsection \<open>Definitions\<close>

definition slot_of :: "u64 \<Rightarrow> nat option" where
  "slot_of tag =
     (if unat tag < DT_NUM then Some (unat tag)
      else if tag = DT_RELACOUNT then Some (DT_NUM + DT_RELACOUNT_NEW)
      else if tag = DT_GNU_HASH then Some (DT_NUM + DT_GNU_HASH_NEW)
      else None)"

partial_function (option) dyn_scan :: "mem \<Rightarrow> addr \<Rightarrow> addr list \<Rightarrow> addr list option" where
  "dyn_scan m p info =
     (if d_tag m p = of_nat DT_NULL then Some info
      else dyn_scan m (p + 16)
             (case slot_of (d_tag m p) of Some t \<Rightarrow> info[t := p] | None \<Rightarrow> info))"

declare dyn_scan.simps [code]

definition rebase :: "library \<Rightarrow> nat \<Rightarrow> mem \<Rightarrow> mem" where
  "rebase l t m =
     (let e = dyn_info l ! t
      in if e \<noteq> 0 then store_u64 m (e + 8) (d_un m e + addr l) else m)"

definition rebased_tags :: "nat list" where
  "rebased_tags = [DT_SYMTAB, DT_STRTAB, DT_RELA, DT_JMPREL, DT_NUM + DT_GNU_HASH_NEW, DT_PLTGOT]"

definition fill_info :: "mem \<Rightarrow> library \<Rightarrow> (mem \<times> library) res" where
  "fill_info m l =
     (if dyn l = 0 then fail NullDeref
      else bindR (liftR (dyn_scan m (dyn l) (dyn_info l))) (\<lambda>info.
           let l' = l\<lparr>dyn_info := info\<rparr> in ret (fold (rebase l') rebased_tags m, l')))"

text \<open>The index the scan builds, as a fold over the first \<open>n\<close> entries.\<close>

definition dyn_upd :: "mem \<Rightarrow> addr \<Rightarrow> addr list \<Rightarrow> nat \<Rightarrow> addr list" where
  "dyn_upd m p info k =
     (let e = p + word_of_nat (16 * k)
      in case slot_of (d_tag m e) of Some t \<Rightarrow> info[t := e] | None \<Rightarrow> info)"

subsection \<open>The scan\<close>

lemma dyn_scan_step:
  "dyn_scan m p info =
     (if d_tag m p = 0 then Some info
      else dyn_scan m (p + 16) (case slot_of (d_tag m p) of Some t \<Rightarrow> info[t := p] | None \<Rightarrow> info))"
  by (subst dyn_scan.simps) simp

lemma dyn_upd_shift: "dyn_upd m p info (Suc k) = dyn_upd m (p + 16) info k"
proof -
  have eq: "p + word_of_nat (16 * Suc k) = p + 16 + word_of_nat (16 * k)" by (simp add: algebra_simps)
  show ?thesis by (simp only: dyn_upd_def eq)
qed

lemma dyn_scan_fold:
  assumes "\<forall>k<n. d_tag m (p + word_of_nat (16 * k)) \<noteq> 0" and "d_tag m (p + word_of_nat (16 * n)) = 0"
  shows "dyn_scan m p info = Some (foldl (dyn_upd m p) info [0..<n])"
  using assms
proof (induction n arbitrary: p info)
  case 0
  then show ?case by (simp add: dyn_scan_step [of m p info])
next
  case (Suc n)
  have "d_tag m (p + word_of_nat (16 * 0)) \<noteq> 0" using Suc.prems(1) by blast
  then have t0: "d_tag m p \<noteq> 0" by simp
  have sh: "p + word_of_nat (16 * Suc k) = (p + 16) + word_of_nat (16 * k)" for k
    by (simp add: algebra_simps)
  have "\<forall>k<n. d_tag m ((p + 16) + word_of_nat (16 * k)) \<noteq> 0"
  proof (intro allI impI)
    fix k assume "k < n"
    then have "d_tag m (p + word_of_nat (16 * Suc k)) \<noteq> 0" using Suc.prems(1) by blast
    then show "d_tag m ((p + 16) + word_of_nat (16 * k)) \<noteq> 0" by (simp only: sh not_False_eq_True)
  qed
  moreover have "d_tag m ((p + 16) + word_of_nat (16 * n)) = 0" using Suc.prems(2) by (simp only: sh [symmetric])
  ultimately have IH: "dyn_scan m (p + 16) (dyn_upd m p info 0)
                       = Some (foldl (dyn_upd m (p + 16)) (dyn_upd m p info 0) [0..<n])"
    by (rule Suc.IH)
  have fl: "foldl (dyn_upd m (p + 16)) (dyn_upd m p info 0) [0..<n] = foldl (dyn_upd m p) info [0..<Suc n]"
    by (simp add: upt_conv_Cons map_Suc_upt [symmetric] foldl_map dyn_upd_shift del: upt_Suc)
  have u0: "dyn_upd m p info 0 = (case slot_of (d_tag m p) of Some t \<Rightarrow> info[t := p] | None \<Rightarrow> info)"
    by (simp add: dyn_upd_def)
  have "dyn_scan m p info = dyn_scan m (p + 16) (dyn_upd m p info 0)"
    using t0 u0 by (simp add: dyn_scan_step [of m p info])
  also have "\<dots> = Some (foldl (dyn_upd m (p + 16)) (dyn_upd m p info 0) [0..<n])" by (rule IH)
  also have "\<dots> = Some (foldl (dyn_upd m p) info [0..<Suc n])" by (simp only: fl)
  finally show ?case .
qed

lemma length_foldl_dyn_upd [simp]: "length (foldl (dyn_upd m p) info ks) = length info"
  by (induction ks arbitrary: info) (simp_all add: dyn_upd_def Let_def split: option.splits)

lemma dyn_upd_nth:
  "slot_of (d_tag m (p + word_of_nat (16 * k))) = Some t \<Longrightarrow> t < length info \<Longrightarrow>
     dyn_upd m p info k ! t = p + word_of_nat (16 * k)"
  "slot_of (d_tag m (p + word_of_nat (16 * k))) \<noteq> Some t \<Longrightarrow> dyn_upd m p info k ! t = info ! t"
  by (auto simp: dyn_upd_def Let_def split: option.splits)

lemma foldl_dyn_upd_last:
  assumes "k < n" and "slot_of (d_tag m (p + word_of_nat (16 * k))) = Some t"
    and "\<forall>k'. k < k' \<and> k' < n \<longrightarrow> slot_of (d_tag m (p + word_of_nat (16 * k'))) \<noteq> Some t"
    and "t < length info"
  shows "foldl (dyn_upd m p) info [0..<n] ! t = p + word_of_nat (16 * k)"
  using assms
proof (induction n)
  case (Suc n)
  show ?case
  proof (cases "k = n")
    case True
    then show ?thesis using Suc.prems(2,4) by (simp add: dyn_upd_nth)
  next
    case False
    then have "k < n" using Suc.prems(1) by simp
    moreover have "slot_of (d_tag m (p + word_of_nat (16 * n))) \<noteq> Some t"
      using Suc.prems(3) \<open>k < n\<close> by blast
    ultimately show ?thesis using Suc.IH Suc.prems(2-4) by (simp add: dyn_upd_nth)
  qed
qed simp

lemma foldl_dyn_upd_origin:
  "foldl (dyn_upd m p) info [0..<n] ! t = info ! t \<or>
   (\<exists>k<n. slot_of (d_tag m (p + word_of_nat (16 * k))) = Some t \<and>
          foldl (dyn_upd m p) info [0..<n] ! t = p + word_of_nat (16 * k))"
proof (induction n)
  case (Suc n)
  let ?e = "p + word_of_nat (16 * n)"
  show ?case
  proof (cases "slot_of (d_tag m ?e) = Some t \<and> t < length info")
    case True
    then show ?thesis by (auto simp: dyn_upd_nth)
  next
    case False
    then have "foldl (dyn_upd m p) info [0..<Suc n] ! t = foldl (dyn_upd m p) info [0..<n] ! t"
    proof (cases "slot_of (d_tag m ?e) = Some t")
      case True
      with False have "\<not> t < length info" by simp
      then show ?thesis using True
        by (simp add: dyn_upd_def Let_def list_update_beyond)
    qed (simp add: dyn_upd_nth)
    then show ?thesis using Suc.IH less_Suc_eq by auto
  qed
qed simp

subsection \<open>Entries of the dynamic array\<close>

lemma dyn_fields_disjoint:
  assumes "j < n" and "k < n" and "j \<noteq> k" and "16 * n \<le> 2 ^ 64"
  shows "disjoint (p + word_of_nat (16 * j) + 8) 8 (p + word_of_nat (16 * k) + 8) 8"
proof -
  have e: "p + word_of_nat (16 * i) + 8 = p + word_of_nat (16 * i + 8)" for i
    by simp
  have "disjoint (p + word_of_nat (16 * j + 8)) 8 (p + word_of_nat (16 * k + 8)) 8"
  proof (cases "k < j")
    case True
    show ?thesis by (rule disjoint_nat_offsets) (use True assms in linarith)+
  next
    case False
    then have "j < k" using assms(3) by simp
    have "disjoint (p + word_of_nat (16 * k + 8)) 8 (p + word_of_nat (16 * j + 8)) 8"
      by (rule disjoint_nat_offsets) (use \<open>j < k\<close> assms in linarith)+
    then show ?thesis by (simp only: disjoint_sym)
  qed
  then show ?thesis by (simp only: e)
qed

lemma dyn_tag_field_disjoint:
  assumes "j < n" and "k < n" and "16 * n \<le> 2 ^ 64"
  shows "disjoint (p + word_of_nat (16 * j)) 8 (p + word_of_nat (16 * k) + 8) 8"
proof -
  have e: "p + word_of_nat (16 * k) + 8 = p + word_of_nat (16 * k + 8)" by simp
  have "disjoint (p + word_of_nat (16 * j)) 8 (p + word_of_nat (16 * k + 8)) 8"
  proof (cases "k < j")
    case True
    show ?thesis by (rule disjoint_nat_offsets) (use True assms in linarith)+
  next
    case False
    have "disjoint (p + word_of_nat (16 * k + 8)) 8 (p + word_of_nat (16 * j)) 8"
      by (rule disjoint_nat_offsets) (use False assms in linarith)+
    then show ?thesis by (simp only: disjoint_sym)
  qed
  then show ?thesis by (simp only: e)
qed

lemma foldl_dyn_upd_indep:
  assumes "\<exists>k<n. slot_of (d_tag m (p + word_of_nat (16 * k))) = Some t"
    and "t < length info" and "length info' = length info"
  shows "foldl (dyn_upd m p) info [0..<n] ! t = foldl (dyn_upd m p) info' [0..<n] ! t"
  using assms
proof (induction n)
  case (Suc n)
  show ?case
  proof (cases "slot_of (d_tag m (p + word_of_nat (16 * n))) = Some t")
    case True
    then show ?thesis using Suc.prems(2,3) by (simp add: dyn_upd_nth)
  next
    case False
    then have "\<exists>k<n. slot_of (d_tag m (p + word_of_nat (16 * k))) = Some t"
      using Suc.prems(1) less_Suc_eq by auto
    then show ?thesis using Suc.IH Suc.prems(2,3) False by (simp add: dyn_upd_nth)
  qed
qed simp

lemma foldl_dyn_upd_absent:
  "\<forall>k<n. slot_of (d_tag m (p + word_of_nat (16 * k))) \<noteq> Some t \<Longrightarrow>
     foldl (dyn_upd m p) info [0..<n] ! t = info ! t"
  by (induction n) (simp_all add: dyn_upd_nth)

lemma foldl_dyn_upd_idem:
  "foldl (dyn_upd m p) (foldl (dyn_upd m p) info [0..<n]) [0..<n] = foldl (dyn_upd m p) info [0..<n]"
proof (rule nth_equalityI)
  fix t assume "t < length (foldl (dyn_upd m p) (foldl (dyn_upd m p) info [0..<n]) [0..<n])"
  then have t: "t < length (foldl (dyn_upd m p) info [0..<n])" by simp
  show "foldl (dyn_upd m p) (foldl (dyn_upd m p) info [0..<n]) [0..<n] ! t = foldl (dyn_upd m p) info [0..<n] ! t"
  proof (cases "\<exists>k<n. slot_of (d_tag m (p + word_of_nat (16 * k))) = Some t")
    case True
    then show ?thesis using t by (intro foldl_dyn_upd_indep) simp_all
  next
    case False
    then show ?thesis by (simp add: foldl_dyn_upd_absent)
  qed
qed simp

lemma foldl_dyn_upd_cong:
  "\<forall>k<n. d_tag m' (p + word_of_nat (16 * k)) = d_tag m (p + word_of_nat (16 * k)) \<Longrightarrow>
     foldl (dyn_upd m' p) info [0..<n] = foldl (dyn_upd m p) info [0..<n]"
  by (induction n) (simp_all add: dyn_upd_def)

subsection \<open>Rebasing\<close>

lemma rebase_frame:
  "\<forall>t\<in>set ts. dyn_info l ! t \<noteq> 0 \<longrightarrow> disjoint a 8 (dyn_info l ! t + 8) 8 \<Longrightarrow>
     load_u64 (fold (rebase l) ts m) a = load_u64 m a"
proof (induction ts arbitrary: m)
  case (Cons t ts)
  have "load_u64 (rebase l t m) a = load_u64 m a"
    using Cons.prems by (simp add: rebase_def Let_def load_u64_store_u64_other)
  then show ?case using Cons by simp
qed simp

lemma rebase_once:
  assumes "distinct ts"
    and "\<forall>t\<in>set ts. \<forall>t'\<in>set ts. t \<noteq> t' \<longrightarrow> dyn_info l ! t \<noteq> 0 \<longrightarrow> dyn_info l ! t' \<noteq> 0 \<longrightarrow>
           disjoint (dyn_info l ! t + 8) 8 (dyn_info l ! t' + 8) 8"
    and "t \<in> set ts" and "dyn_info l ! t \<noteq> 0"
  shows "d_un (fold (rebase l) ts m) (dyn_info l ! t) = d_un m (dyn_info l ! t) + addr l"
  using assms
proof (induction ts arbitrary: m)
  case (Cons t0 ts)
  show ?case
  proof (cases "t = t0")
    case True
    have "\<forall>t'\<in>set ts. dyn_info l ! t' \<noteq> 0 \<longrightarrow> disjoint (dyn_info l ! t + 8) 8 (dyn_info l ! t' + 8) 8"
      using Cons.prems True by auto
    then have fr: "load_u64 (fold (rebase l) ts (rebase l t m)) (dyn_info l ! t + 8)
               = load_u64 (rebase l t m) (dyn_info l ! t + 8)"
      by (rule rebase_frame)
    have "d_un (fold (rebase l) (t0 # ts) m) (dyn_info l ! t)
          = load_u64 (fold (rebase l) ts (rebase l t m)) (dyn_info l ! t + 8)"
      using True by (simp add: d_un_def)
    also have "\<dots> = load_u64 (rebase l t m) (dyn_info l ! t + 8)" by (rule fr)
    also have "\<dots> = d_un m (dyn_info l ! t) + addr l"
      using Cons.prems(4) by (simp add: rebase_def d_un_def Let_def)
    finally show ?thesis .
  next
    case False
    then have "t \<in> set ts" using Cons.prems(3) by simp
    then have IH: "d_un (fold (rebase l) ts (rebase l t0 m)) (dyn_info l ! t)
                   = d_un (rebase l t0 m) (dyn_info l ! t) + addr l"
      using Cons.IH Cons.prems(1,2,4) by simp
    have "d_un (rebase l t0 m) (dyn_info l ! t) = d_un m (dyn_info l ! t)"
      using Cons.prems False
      by (auto simp: d_un_def rebase_def Let_def load_u64_store_u64_other)
    then show ?thesis using IH by simp
  qed
qed simp

subsection \<open>\<open>fill_info\<close>: properties\<close>

lemma fill_info_scan:
  assumes "dyn l \<noteq> 0" and "\<forall>k<n. d_tag m (dyn l + word_of_nat (16 * k)) \<noteq> 0"
    and "d_tag m (dyn l + word_of_nat (16 * n)) = 0"
  shows "fill_info m l =
           ret (fold (rebase (l\<lparr>dyn_info := foldl (dyn_upd m (dyn l)) (dyn_info l) [0..<n]\<rparr>)) rebased_tags m,
                l\<lparr>dyn_info := foldl (dyn_upd m (dyn l)) (dyn_info l) [0..<n]\<rparr>)"
  using assms dyn_scan_fold [OF assms(2,3)] by (simp add: fill_info_def Let_def)

lemma scan_slot_entry:
  assumes "foldl (dyn_upd m p) (replicate N 0) [0..<n] ! t \<noteq> 0" and "t < N"
  obtains k where "k < n" and "slot_of (d_tag m (p + word_of_nat (16 * k))) = Some t"
    and "foldl (dyn_upd m p) (replicate N 0) [0..<n] ! t = p + word_of_nat (16 * k)"
  using foldl_dyn_upd_origin [of m p "replicate N 0" n t] assms by auto

lemma scan_slots_disjoint:
  assumes "16 * n \<le> 2 ^ 64" and "t < N" and "t' < N" and "t \<noteq> t'"
    and "foldl (dyn_upd m p) (replicate N 0) [0..<n] ! t \<noteq> 0"
    and "foldl (dyn_upd m p) (replicate N 0) [0..<n] ! t' \<noteq> 0"
  shows "disjoint (foldl (dyn_upd m p) (replicate N 0) [0..<n] ! t + 8) 8
                  (foldl (dyn_upd m p) (replicate N 0) [0..<n] ! t' + 8) 8"
proof -
  obtain k where k: "k < n" "slot_of (d_tag m (p + word_of_nat (16 * k))) = Some t"
    "foldl (dyn_upd m p) (replicate N 0) [0..<n] ! t = p + word_of_nat (16 * k)"
    using scan_slot_entry [OF assms(5,2)] by blast
  obtain k' where k': "k' < n" "slot_of (d_tag m (p + word_of_nat (16 * k'))) = Some t'"
    "foldl (dyn_upd m p) (replicate N 0) [0..<n] ! t' = p + word_of_nat (16 * k')"
    using scan_slot_entry [OF assms(6,3)] by blast
  have "k \<noteq> k'" using k(2) k'(2) assms(4) by auto
  then show ?thesis using dyn_fields_disjoint [OF k(1) k'(1) _ assms(1)] k(3) k'(3) by simp
qed

lemma rebased_tags_bound: "t \<in> set rebased_tags \<Longrightarrow> t < DT_NUM + OS_SPECIFIC_FLAG"
  by (auto simp: rebased_tags_def)

lemma distinct_rebased_tags: "distinct rebased_tags"
  by (simp add: rebased_tags_def)

lemma rebase_keeps_tags:
  assumes "16 * Suc n \<le> 2 ^ 64" and "dyn_info l = foldl (dyn_upd m p) (replicate N 0) [0..<n]"
    and "set ts \<subseteq> {..<N}" and "k \<le> n"
  shows "d_tag (fold (rebase l) ts m) (p + word_of_nat (16 * k)) = d_tag m (p + word_of_nat (16 * k))"
proof -
  have "\<forall>t\<in>set ts. dyn_info l ! t \<noteq> 0 \<longrightarrow> disjoint (p + word_of_nat (16 * k)) 8 (dyn_info l ! t + 8) 8"
  proof (intro ballI impI)
    fix t assume t: "t \<in> set ts" and nz: "dyn_info l ! t \<noteq> 0"
    have "t < N" using t assms(3) by auto
    then obtain j where "j < n" and e: "dyn_info l ! t = p + word_of_nat (16 * j)"
      using scan_slot_entry [of m p N n t] nz assms(2) by metis
    then show "disjoint (p + word_of_nat (16 * k)) 8 (dyn_info l ! t + 8) 8"
      using dyn_tag_field_disjoint [of k "Suc n" j p] assms(1,4) by simp
  qed
  then show ?thesis by (simp add: d_tag_def rebase_frame)
qed

lemma fresh_rebase_once:
  assumes "16 * n \<le> 2 ^ 64"
    and "dyn_info l = foldl (dyn_upd m p) (replicate (DT_NUM + OS_SPECIFIC_FLAG) 0) [0..<n]"
    and "t \<in> set rebased_tags" and "dyn_info l ! t \<noteq> 0"
  shows "d_un (fold (rebase l) rebased_tags m0) (dyn_info l ! t) = d_un m0 (dyn_info l ! t) + addr l"
proof (rule rebase_once [OF distinct_rebased_tags _ assms(3,4)])
  show "\<forall>t\<in>set rebased_tags. \<forall>t'\<in>set rebased_tags. t \<noteq> t' \<longrightarrow> dyn_info l ! t \<noteq> 0 \<longrightarrow>
          dyn_info l ! t' \<noteq> 0 \<longrightarrow> disjoint (dyn_info l ! t + 8) 8 (dyn_info l ! t' + 8) 8"
    using scan_slots_disjoint [OF assms(1)] rebased_tags_bound assms(2) by simp
qed

lemma fx_scan:
  "dyn fx_unindexed \<noteq> 0" "\<forall>k<7. d_tag fx_mem (dyn fx_unindexed + word_of_nat (16 * k)) \<noteq> 0"
  "d_tag fx_mem (dyn fx_unindexed + word_of_nat (16 * 7)) = 0"
  using fx_dyn_tags fx_dyn_tag_vals by (simp_all add: fx_unindexed_fields)

text \<open>
  C10: the last entry of a tag wins.  On a dynamic array terminated by
  \<open>DT_NULL\<close> after \<open>n\<close> entries, \<open>fill_info\<close> returns, and the index slot of
  a tag holds the address of the last entry whose tag selects that slot;
  a slot that no entry selects keeps its value.
\<close>

theorem fill_info_last_wins:
  assumes "dyn l \<noteq> 0" and "\<forall>k<n. d_tag m (dyn l + word_of_nat (16 * k)) \<noteq> 0"
    and "d_tag m (dyn l + word_of_nat (16 * n)) = 0"
    and "k < n" and "slot_of (d_tag m (dyn l + word_of_nat (16 * k))) = Some t"
    and "\<forall>k'. k < k' \<and> k' < n \<longrightarrow> slot_of (d_tag m (dyn l + word_of_nat (16 * k'))) \<noteq> Some t"
    and "t < length (dyn_info l)"
  shows "\<exists>m' l'. fill_info m l = ret (m', l') \<and> dyn_info l' ! t = dyn l + word_of_nat (16 * k) \<and>
           (\<forall>t'. (\<forall>k<n. slot_of (d_tag m (dyn l + word_of_nat (16 * k))) \<noteq> Some t') \<longrightarrow>
                 dyn_info l' ! t' = dyn_info l ! t')"
  using fill_info_scan [OF assms(1-3)] foldl_dyn_upd_last [OF assms(4-7)] foldl_dyn_upd_absent
  by simp

theorem fill_info_last_wins_witness:
  "\<exists>m' l'. fill_info fx_mem fx_unindexed = ret (m', l') \<and> dyn_info l' ! DT_STRTAB = 0x5010"
proof -
  have s: "slot_of (d_tag fx_mem (dyn fx_unindexed + word_of_nat (16 * 1))) = Some 5"
    by (simp add: fx_unindexed_fields fx_dyn_tag_vals slot_of_def)
  have l: "\<forall>k'. 1 < k' \<and> k' < 7 \<longrightarrow> slot_of (d_tag fx_mem (dyn fx_unindexed + word_of_nat (16 * k'))) \<noteq> Some 5"
  proof (intro allI impI)
    fix k' :: nat assume "1 < k' \<and> k' < 7"
    then have "k' = 2 \<or> k' = 3 \<or> k' = 4 \<or> k' = 5 \<or> k' = 6" by auto
    then show "slot_of (d_tag fx_mem (dyn fx_unindexed + word_of_nat (16 * k'))) \<noteq> Some 5"
      by (elim disjE) (simp_all add: fx_unindexed_fields fx_dyn_tag_vals slot_of_def)
  qed
  have t: "5 < length (dyn_info fx_unindexed)" by (simp add: fx_unindexed_fields)
  from fill_info_last_wins [OF fx_scan _ s l t] show ?thesis by (simp add: fx_unindexed_fields) blast
qed

text \<open>
  C11: each pointer entry is rebased exactly once.  For a record fresh from
  \<open>calloc\<close> whose dynamic array is terminated by \<open>DT_NULL\<close>, \<open>fill_info\<close>
  returns, adds the base address once to the value of every present entry
  among \<open>DT_SYMTAB\<close>, \<open>DT_STRTAB\<close>, \<open>DT_RELA\<close>, \<open>DT_JMPREL\<close>, \<open>DT_GNU_HASH\<close>
  and \<open>DT_PLTGOT\<close>, and changes no 8-byte word disjoint from their values.
\<close>

theorem fill_info_rebases:
  assumes "dyn l \<noteq> 0" and "dyn_info l = replicate (DT_NUM + OS_SPECIFIC_FLAG) 0"
    and "\<forall>k<n. d_tag m (dyn l + word_of_nat (16 * k)) \<noteq> 0"
    and "d_tag m (dyn l + word_of_nat (16 * n)) = 0" and "16 * n \<le> 2 ^ 64"
  shows "\<exists>m' l'. fill_info m l = ret (m', l') \<and> addr l' = addr l \<and>
     (\<forall>t\<in>set rebased_tags. dyn_info l' ! t \<noteq> 0 \<longrightarrow>
        d_un m' (dyn_info l' ! t) = d_un m (dyn_info l' ! t) + addr l) \<and>
     (\<forall>a. (\<forall>t\<in>set rebased_tags. dyn_info l' ! t \<noteq> 0 \<longrightarrow> disjoint a 8 (dyn_info l' ! t + 8) 8) \<longrightarrow>
        load_u64 m' a = load_u64 m a)"
proof -
  let ?l' = "l\<lparr>dyn_info := foldl (dyn_upd m (dyn l)) (dyn_info l) [0..<n]\<rparr>"
  have fi: "fill_info m l = ret (fold (rebase ?l') rebased_tags m, ?l')"
    by (rule fill_info_scan [OF assms(1,3,4)])
  have "dyn_info ?l' = foldl (dyn_upd m (dyn l)) (replicate (DT_NUM + OS_SPECIFIC_FLAG) 0) [0..<n]"
    using assms(2) by simp
  then have "\<forall>t\<in>set rebased_tags. dyn_info ?l' ! t \<noteq> 0 \<longrightarrow>
               d_un (fold (rebase ?l') rebased_tags m) (dyn_info ?l' ! t) = d_un m (dyn_info ?l' ! t) + addr l"
    using fresh_rebase_once [OF assms(5)] by simp
  then show ?thesis using fi rebase_frame by fastforce
qed

theorem fill_info_rebases_witness:
  "\<exists>m' l'. fill_info fx_mem fx_unindexed = ret (m', l') \<and>
     (\<forall>t\<in>set rebased_tags. dyn_info l' ! t \<noteq> 0 \<longrightarrow>
        d_un m' (dyn_info l' ! t) = d_un fx_mem (dyn_info l' ! t) + 0x7000)"
proof -
  have "16 * 7 \<le> (2::nat) ^ 64" by simp
  from fill_info_rebases [OF fx_scan(1) fx_unindexed_fields(3) fx_scan(2,3) this]
  show ?thesis by (simp add: fx_unindexed_fields) blast
qed

text \<open>
  C12: the rebase is not idempotent.  The design asks that dynamic-section
  pointers equal their link-time value plus the base exactly once however
  often the indexer runs; a second \<open>fill_info\<close> on the record and memory the
  first one returned rebuilds the same index and adds the base a second
  time.
\<close>

theorem fill_info_twice:
  assumes "dyn l \<noteq> 0" and "dyn_info l = replicate (DT_NUM + OS_SPECIFIC_FLAG) 0"
    and "\<forall>k<n. d_tag m (dyn l + word_of_nat (16 * k)) \<noteq> 0"
    and "d_tag m (dyn l + word_of_nat (16 * n)) = 0" and "16 * Suc n \<le> 2 ^ 64"
  shows "\<exists>m1 l1 m2. fill_info m l = ret (m1, l1) \<and> fill_info m1 l1 = ret (m2, l1) \<and>
     (\<forall>t\<in>set rebased_tags. dyn_info l1 ! t \<noteq> 0 \<longrightarrow>
        d_un m2 (dyn_info l1 ! t) = d_un m (dyn_info l1 ! t) + 2 * addr l)"
proof -
  let ?p = "dyn l"
  let ?info = "foldl (dyn_upd m ?p) (dyn_info l) [0..<n]"
  let ?l1 = "l\<lparr>dyn_info := ?info\<rparr>"
  let ?m1 = "fold (rebase ?l1) rebased_tags m"
  have n: "16 * n \<le> 2 ^ 64" using assms(5) by simp
  have fi1: "fill_info m l = ret (?m1, ?l1)" by (rule fill_info_scan [OF assms(1,3,4)])
  have i0: "dyn_info ?l1 = foldl (dyn_upd m ?p) (replicate (DT_NUM + OS_SPECIFIC_FLAG) 0) [0..<n]"
    using assms(2) by simp
  have tags: "d_tag ?m1 (?p + word_of_nat (16 * k)) = d_tag m (?p + word_of_nat (16 * k))" if "k \<le> n" for k
    using rebase_keeps_tags [OF assms(5) i0 _ that] rebased_tags_bound by auto
  have h3: "\<forall>k<n. d_tag ?m1 (dyn ?l1 + word_of_nat (16 * k)) \<noteq> 0" using assms(3) tags by simp
  have h4: "d_tag ?m1 (dyn ?l1 + word_of_nat (16 * n)) = 0" using assms(4) tags by simp
  have "foldl (dyn_upd ?m1 ?p) ?info [0..<n] = foldl (dyn_upd m ?p) ?info [0..<n]"
    using tags by (intro foldl_dyn_upd_cong) simp
  also have "\<dots> = ?info" by (rule foldl_dyn_upd_idem)
  finally have same: "?l1\<lparr>dyn_info := foldl (dyn_upd ?m1 (dyn ?l1)) (dyn_info ?l1) [0..<n]\<rparr> = ?l1"
    by simp
  have fi2: "fill_info ?m1 ?l1 = ret (fold (rebase ?l1) rebased_tags ?m1, ?l1)"
    using fill_info_scan [OF _ h3 h4] assms(1) by (simp only: same) simp
  have "d_un (fold (rebase ?l1) rebased_tags ?m1) (dyn_info ?l1 ! t) = d_un m (dyn_info ?l1 ! t) + 2 * addr l"
    if "t \<in> set rebased_tags" and "dyn_info ?l1 ! t \<noteq> 0" for t
    using fresh_rebase_once [OF n i0 that, of ?m1] fresh_rebase_once [OF n i0 that, of m] by simp
  then show ?thesis using fi1 fi2 by blast
qed

theorem fill_info_twice_witness:
  "\<exists>m1 l1 m2. fill_info fx_mem fx_unindexed = ret (m1, l1) \<and> fill_info m1 l1 = ret (m2, l1) \<and>
     (\<forall>t\<in>set rebased_tags. dyn_info l1 ! t \<noteq> 0 \<longrightarrow>
        d_un m2 (dyn_info l1 ! t) = d_un fx_mem (dyn_info l1 ! t) + 0xE000)"
proof -
  have "16 * Suc 7 \<le> (2::nat) ^ 64" by simp
  from fill_info_twice [OF fx_scan(1) fx_unindexed_fields(3) fx_scan(2,3) this]
  show ?thesis by (simp add: fx_unindexed_fields)
qed

end
