(* ===== verification/FindSymbol.thy ===== *)
theory FindSymbol
  imports Fixture
begin

text \<open>
  \<open>findSymbol\<close> of \<^verbatim>\<open>src/findSymbol.c\<close>: the public lookup, a linear scan of
  the root record's symbol table from \<open>DT_SYMTAB\<close> up to the start of the
  string table, comparing names with \<open>strcmp\<close>.  The scan is
  \<open>find_scan\<close>, a \<open>partial_function\<close> like the C loop; it is proved equal to
  a search with \<open>find\<close> over the entries of the table.
\<close>

subsection \<open>Definitions\<close>

partial_function (option) find_scan :: "mem \<Rightarrow> addr \<Rightarrow> addr \<Rightarrow> addr \<Rightarrow> addr \<Rightarrow> addr option" where
  "find_scan m base strtab symname cur =
     (if cur < strtab then
        Option.bind (strcmp_eq m symname (strtab + ucast (st_name m cur))) (\<lambda>eq.
          if eq then Some (st_value m cur + base)
          else find_scan m base strtab symname (cur + 24))
      else Some 0)"

declare find_scan.simps [code]

definition findSymbol :: "mem \<Rightarrow> library \<Rightarrow> addr \<Rightarrow> addr res" where
  "findSymbol m lib symname =
     bindR (dyn_val m lib DT_SYMTAB) (\<lambda>symtab.
     bindR (dyn_val m lib DT_STRTAB) (\<lambda>strtab.
     liftR (find_scan m (addr lib) strtab symname symtab)))"

text \<open>The reference: the first entry of the table whose name is \<open>s\<close>.\<close>

definition find_ref :: "mem \<Rightarrow> addr \<Rightarrow> addr \<Rightarrow> string \<Rightarrow> addr list \<Rightarrow> addr" where
  "find_ref m base strtab s ps =
     (case find (\<lambda>p. cstr_eq m (strtab + ucast (st_name m p)) s) ps of
        Some p \<Rightarrow> st_value m p + base
      | None \<Rightarrow> 0)"

subsection \<open>Properties\<close>

lemma find_scan_ref:
  assumes s: "read_cstr m symname = Some s" and nw: "unat strtab + unat (24::u64) \<le> 2 ^ 64"
  shows "find_scan m base strtab symname cur = Some (find_ref m base strtab s (ptr_range 24 cur strtab))"
proof (induction "ptr_count 24 cur strtab" arbitrary: cur)
  case 0
  have st: "0 < unat (24::u64)" by simp
  have "\<not> cur < strtab"
  proof
    assume "cur < strtab"
    then have "ptr_count 24 cur strtab \<noteq> 0" using ptr_count_step [OF _ st nw] by simp
    with "0" show False by simp
  qed
  then show ?case by (simp add: find_scan.simps [of m base strtab symname cur] ptr_range_stop find_ref_def)
next
  case (Suc n)
  have st: "0 < unat (24::u64)" by simp
  show ?case
  proof (cases "cur < strtab")
    case True
    have "n = ptr_count 24 (cur + 24) strtab" using ptr_count_step [OF True st nw] Suc.hyps(2) by simp
    then have IH: "find_scan m base strtab symname (cur + 24)
                   = Some (find_ref m base strtab s (ptr_range 24 (cur + 24) strtab))"
      using Suc.hyps(1) by blast
    show ?thesis
      using True IH strcmp_eq_read_cstr [OF s]
      by (simp add: find_scan.simps [of m base strtab symname cur] ptr_range_step [OF True st nw]
                    find_ref_def)
  next
    case False
    then show ?thesis by (simp add: find_scan.simps [of m base strtab symname cur] ptr_range_stop find_ref_def)
  qed
qed

text \<open>
  C13: \<open>findSymbol\<close> is a linear search.  With both tables present, a
  terminated name and a string table that does not end within the last
  24 bytes of the address space, \<open>findSymbol\<close> returns, and its result is
  \<open>st_value + base\<close> of the first entry between \<open>DT_SYMTAB\<close> and
  \<open>DT_STRTAB\<close> whose name equals the one asked for, NULL when there is none.
\<close>

theorem findSymbol_linear:
  assumes "dyn_info lib ! DT_SYMTAB \<noteq> 0" and "dyn_info lib ! DT_STRTAB \<noteq> 0"
    and "read_cstr m nm = Some s" and "unat (d_un m (dyn_info lib ! DT_STRTAB)) + 24 \<le> 2 ^ 64"
  shows "findSymbol m lib nm =
           ret (find_ref m (addr lib) (d_un m (dyn_info lib ! DT_STRTAB)) s
                  (ptr_range 24 (d_un m (dyn_info lib ! DT_SYMTAB)) (d_un m (dyn_info lib ! DT_STRTAB))))"
proof -
  have "unat (d_un m (dyn_info lib ! DT_STRTAB)) + unat (24::u64) \<le> 2 ^ 64" using assms(4) by simp
  then show ?thesis using assms find_scan_ref [OF assms(3)] by (simp add: findSymbol_def dyn_val_def)
qed

theorem findSymbol_linear_witness:
  "findSymbol fx_mem fx_lib 0x3000 = ret 0x7400"
proof -
  have h: "dyn_info fx_lib ! DT_SYMTAB \<noteq> 0" "dyn_info fx_lib ! DT_STRTAB \<noteq> 0"
    "unat (d_un fx_mem (dyn_info fx_lib ! DT_STRTAB)) + 24 \<le> 2 ^ 64"
    by (simp_all add: fx_lib_fields d_un_def fx_loads)
  have st: "0 < unat (24::u64)" and nw: "unat (0x2000::addr) + unat (24::u64) \<le> 2 ^ 64" by simp_all
  have r: "ptr_range 24 0x1000 0x2000 = 0x1000 # 0x1018 # ptr_range 24 0x1030 0x2000"
    using ptr_range_step [where it = "0x1000", OF _ st nw] ptr_range_step [where it = "0x1018", OF _ st nw] by simp
  have z: "fx_mem 0x2000 = 0" "load_u32 fx_mem 0x1000 = 0" "load_u64 fx_mem 0x1020 = 0x400"
    by (simp_all add: fx_simps)
  have "find_ref fx_mem 0x7000 0x2000 ''f'' (ptr_range 24 0x1000 0x2000) = 0x7400"
    by (simp add: r find_ref_def st_name_def st_value_def fx_loads z)
  then show ?thesis
    using findSymbol_linear [OF h(1,2) fx_names(1) h(3)]
    by (simp add: fx_lib_fields d_un_def fx_loads)
qed

end
