(* ===== verification/Segments.thy ===== *)
theory Segments
  imports Fixture
begin

text \<open>
  The segment mapper, \<open>mapSegment\<close> of \<^verbatim>\<open>src/mapLibrary.c\<close>.  The scan of
  the program headers builds the \<open>struct loadcmd\<close> array
  (\<open>mk_loadcmd\<close>, one per \<open>PT_LOAD\<close>) and records the dynamic section
  (\<open>ph_step\<close>); the mapping pass is one \<open>mmap\<close> of the whole span and one
  per segment (\<open>seg_map\<close>), with the \<open>.bss\<close> tail zeroed in place and the
  rest mapped anonymously (\<open>bss_fill\<close>).  A file mapping is modelled by its
  effect on the bytes of memory (\<open>map_file\<close>: the file's bytes from the
  offset, zeros past its end), an anonymous mapping and \<open>memset\<close> by zeros
  (\<open>zero_fill\<close>); protections are not modelled.  Whether the kernel grants
  a mapping is the host's \<open>mmap_ok\<close>; a refused mapping leaves memory as
  it was and returns \<open>MAP_FAILED\<close>.
\<close>

subsection \<open>Definitions\<close>

record loadcmd =
  mapstart :: u64
  mapend :: u64
  dataend :: u64
  allocend :: u64
  mapoff :: u64
  prot :: u32

definition prot_of :: "u32 \<Rightarrow> u32" where
  "prot_of f = drop_bit 2 (f AND PF_R) OR (f AND PF_W) OR push_bit 2 (f AND PF_X)"

definition mk_loadcmd :: "u64 \<Rightarrow> phdr \<Rightarrow> loadcmd" where
  "mk_loadcmd ps ph =
     \<lparr>mapstart = ALIGN_DOWN (p_vaddr ph) ps, mapend = ALIGN_UP (p_vaddr ph + p_filesz ph) ps,
      dataend = p_vaddr ph + p_filesz ph, allocend = p_vaddr ph + p_memsz ph,
      mapoff = ALIGN_DOWN (p_offset ph) ps, prot = prot_of (p_flags ph)\<rparr>"

definition ph_step :: "u64 \<Rightarrow> addr \<Rightarrow> library \<times> loadcmd list \<Rightarrow> phdr \<Rightarrow> library \<times> loadcmd list" where
  "ph_step ps a lc ph =
     (let (lib, cmds) = lc
      in if p_type ph = PT_LOAD then (lib, cmds @ [mk_loadcmd ps ph])
         else if p_type ph = PT_DYNAMIC
         then (lib\<lparr>dyn := p_vaddr ph + a, dyn_num := ucast (p_memsz ph div 16)\<rparr>, cmds)
         else (lib, cmds))"

definition file_byte :: "u8 list \<Rightarrow> nat \<Rightarrow> u8" where
  "file_byte bs i = (if i < length bs then bs ! i else 0)"

definition map_file :: "mem \<Rightarrow> addr \<Rightarrow> u64 \<Rightarrow> u8 list \<Rightarrow> u64 \<Rightarrow> mem" where
  "map_file m a len bs off = (\<lambda>x. if unat (x - a) < unat len then file_byte bs (unat off + unat (x - a)) else m x)"

definition zero_fill :: "mem \<Rightarrow> addr \<Rightarrow> u64 \<Rightarrow> mem" where
  "zero_fill m a len = (\<lambda>x. if unat (x - a) < unat len then 0 else m x)"

definition mmap_file :: "host \<Rightarrow> mem \<Rightarrow> addr \<Rightarrow> u64 \<Rightarrow> u8 list \<Rightarrow> u64 \<Rightarrow> mem \<times> addr" where
  "mmap_file hs m a len bs off = (if mmap_ok hs a len then (map_file m a len bs off, a) else (m, - 1))"

definition mmap_anon :: "host \<Rightarrow> mem \<Rightarrow> addr \<Rightarrow> u64 \<Rightarrow> mem \<times> addr" where
  "mmap_anon hs m a len = (if mmap_ok hs a len then (zero_fill m a len, a) else (m, - 1))"

text \<open>The \<open>.bss\<close> part of the loop body, for a segment with \<open>allocend > dataend\<close>.\<close>

definition bss_fill :: "host \<Rightarrow> addr \<Rightarrow> loadcmd \<Rightarrow> mem \<Rightarrow> mem" where
  "bss_fill hs a c m =
     (let ps = page_size hs;
          bss_start = a + dataend c;
          bss_end = a + allocend c;
          bss_page0 = ALIGN_UP bss_start ps;
          bss_page = (if bss_end < bss_page0 then bss_end else bss_page0);
          m1 = (if bss_start < bss_page then zero_fill m bss_start (bss_page - bss_start) else m)
      in if bss_page < bss_end then fst (mmap_anon hs m1 bss_page (ALIGN_UP bss_end ps - bss_page))
         else m1)"

definition seg_map :: "host \<Rightarrow> addr \<Rightarrow> u8 list \<Rightarrow> mem \<Rightarrow> loadcmd \<Rightarrow> mem" where
  "seg_map hs a bs m c =
     (let m' = fst (mmap_file hs m (mapstart c + a) (mapend c - mapstart c) bs (mapoff c))
      in if dataend c < allocend c then bss_fill hs a c m' else m')"

text \<open>
  \<open>mapSegment(lib, phdr, addr, phnum)\<close> on the file bytes \<open>bs\<close>: the
  memory, the record with its dynamic section set, and the length returned.
  With no \<open>PT_LOAD\<close> entry, \<open>loadcmds[nloadcmd - 1]\<close> reads before the
  array.  The C test \<open>mmap(\<dots>) < 0\<close> compares a pointer, which is never
  below zero.
\<close>

definition mapSegment :: "host \<Rightarrow> mem \<Rightarrow> library \<Rightarrow> phdr list \<Rightarrow> addr \<Rightarrow> u8 list \<Rightarrow>
                           (mem \<times> library \<times> u64) res" where
  "mapSegment hs m lib phs a bs =
     (let ps = page_size hs;
          (lib1, cmds) = foldl (ph_step ps a) (lib, []) phs
      in if cmds = [] then fail NoLoadSegment
         else let maplength = allocend (last cmds) - mapstart (hd cmds);
                  (m1, r) = mmap_file hs m a maplength bs (mapoff (hd cmds))
              in if r < 0 then fail (MmapFailure (name lib))
                 else ret (foldl (seg_map hs a bs) m1 cmds, lib1, ALIGN_UP maplength ps))"

text \<open>The \<open>PT_LOAD\<close> entries, and the span the first \<open>mmap\<close> reserves.\<close>

definition load_phdrs :: "phdr list \<Rightarrow> phdr list" where
  "load_phdrs phs = filter (\<lambda>ph. p_type ph = PT_LOAD) phs"

definition map_span :: "u64 \<Rightarrow> phdr list \<Rightarrow> u64" where
  "map_span ps phs =
     allocend (mk_loadcmd ps (last (load_phdrs phs))) - mapstart (mk_loadcmd ps (hd (load_phdrs phs)))"

subsection \<open>Properties\<close>

lemma snd_ph_step:
  "snd (ph_step ps a lc ph) = snd lc @ (if p_type ph = PT_LOAD then [mk_loadcmd ps ph] else [])"
  by (cases lc) (simp add: ph_step_def)

lemma foldl_ph_step:
  "snd (foldl (ph_step ps a) lc phs) = snd lc @ map (mk_loadcmd ps) (filter (\<lambda>ph. p_type ph = PT_LOAD) phs)"
  by (induction phs arbitrary: lc) (simp_all add: snd_ph_step del: PT_LOAD_def)

lemma addr_not_less_zero: "\<not> (r::addr) < 0"
  by (simp add: word_less_nat_alt)

lemma mapSegment_eq:
  assumes "load_phdrs phs \<noteq> []"
  shows "mapSegment hs m lib phs a bs =
           ret (foldl (seg_map hs a bs)
                  (fst (mmap_file hs m a (map_span (page_size hs) phs) bs
                          (mapoff (mk_loadcmd (page_size hs) (hd (load_phdrs phs))))))
                  (map (mk_loadcmd (page_size hs)) (load_phdrs phs)),
                fst (foldl (ph_step (page_size hs) a) (lib, []) phs),
                ALIGN_UP (map_span (page_size hs) phs) (page_size hs))"
proof -
  obtain lib1 cmds where f: "foldl (ph_step (page_size hs) a) (lib, []) phs = (lib1, cmds)"
    by (cases "foldl (ph_step (page_size hs) a) (lib, []) phs")
  have c: "cmds = map (mk_loadcmd (page_size hs)) (load_phdrs phs)"
    using foldl_ph_step [of "page_size hs" a "(lib, [])" phs] f by (simp add: load_phdrs_def)
  have "hd cmds = mk_loadcmd (page_size hs) (hd (load_phdrs phs))"
    "last cmds = mk_loadcmd (page_size hs) (last (load_phdrs phs))" "cmds \<noteq> []"
    using c assms by (simp_all add: hd_map last_map)
  then show ?thesis
    using f c addr_not_less_zero
    by (simp add: mapSegment_def map_span_def Let_def split: prod.splits)
qed

lemma mapSegment_no_load:
  assumes "load_phdrs phs = []"
  shows "mapSegment hs m lib phs a bs = fail NoLoadSegment"
proof -
  obtain lib1 cmds where f: "foldl (ph_step (page_size hs) a) (lib, []) phs = (lib1, cmds)"
    by (cases "foldl (ph_step (page_size hs) a) (lib, []) phs")
  have "cmds = []"
    using foldl_ph_step [of "page_size hs" a "(lib, [])" phs] f assms by (simp add: load_phdrs_def)
  then show ?thesis using f by (simp add: mapSegment_def)
qed

lemma zero_fill_in: "unat (x - a) < unat len \<Longrightarrow> zero_fill m a len x = 0"
  by (simp add: zero_fill_def)

lemma zero_fill_zero: "m x = 0 \<Longrightarrow> zero_fill m a len x = 0"
  by (simp add: zero_fill_def)

lemma unat_sub_le: "(b::'a::len word) \<le> a \<Longrightarrow> unat (a - b) = unat a - unat b"
  by (simp add: unat_sub)

text \<open>
  C14: the protection bits are built bit-exactly.  Bit 0 (read) of the
  protection is the \<open>PF_R\<close> bit 2 of the segment flags, bit 1 (write) is
  the \<open>PF_W\<close> bit 1, bit 2 (exec) is the \<open>PF_X\<close> bit 0, and no other bit
  is set.
\<close>

theorem prot_of_bits:
  "bit (prot_of f) n \<longleftrightarrow> (n = 0 \<and> bit f 2) \<or> (n = 1 \<and> bit f 1) \<or> (n = 2 \<and> bit f 0)"
proof -
  have b4: "bit (4::u32) k \<longleftrightarrow> k = 2" for k by (simp add: bit_numeral_Bit0_iff bit_1_iff) arith
  have b2: "bit (2::u32) k \<longleftrightarrow> k = 1" for k by (simp add: bit_numeral_Bit0_iff bit_1_iff) arith
  have b1: "bit (1::u32) k \<longleftrightarrow> k = 0" for k by (simp add: bit_1_iff)
  show ?thesis
    unfolding prot_of_def PF_R_def PF_W_def PF_X_def
    by (simp only: bit_or_iff bit_and_iff bit_drop_bit_eq comp_def bit_push_bit_iff b4 b2 b1)
       (auto simp: possible_bit_def numeral_2_eq_2)
qed

text \<open>
  C15: the returned length is the reserved span rounded up to a page.  For
  a power-of-two page size and a span that does not wrap when rounded,
  the length \<open>mapSegment\<close> returns is a multiple of the page size, at least
  the span from the first segment's page start to the last segment's end,
  and less than a page more.
\<close>

theorem mapSegment_length:
  assumes "mapSegment hs m lib phs a bs = ret (m', lib', len)" and "page_size hs = 2 ^ k" and "k < 64"
    and "unat (map_span (2 ^ k) phs) + 2 ^ k \<le> 2 ^ 64"
  shows "unat len mod 2 ^ k = 0 \<and> unat (map_span (2 ^ k) phs) \<le> unat len \<and>
         unat len < unat (map_span (2 ^ k) phs) + 2 ^ k"
proof -
  have "load_phdrs phs \<noteq> []"
    using assms(1) mapSegment_no_load by force
  then have "len = ALIGN_UP (map_span (2 ^ k) phs) (2 ^ k)"
    using assms(1,2) mapSegment_eq by simp
  then show ?thesis using unat_ALIGN_UP_bounds [OF assms(3,4)] by simp
qed

lemma fx_ph_span: "load_phdrs [fx_ph] \<noteq> []" "map_span 0x1000 [fx_ph] = 0x180"
  by (simp_all add: load_phdrs_def map_span_def mk_loadcmd_def fx_ph_def ALIGN_DOWN_def)

lemma fx_host_page: "page_size fx_host = 2 ^ 12"
  by (simp add: fx_host_def)

theorem mapSegment_length_witness:
  "\<exists>m' lib' len. mapSegment fx_host fx_mem fx_lib [fx_ph] 0x10000 [] = ret (m', lib', len) \<and>
     unat len mod 2 ^ 12 = 0 \<and> 0x180 \<le> unat len"
proof -
  obtain m' lib' len where r: "mapSegment fx_host fx_mem fx_lib [fx_ph] 0x10000 [] = ret (m', lib', len)"
    using mapSegment_eq [OF fx_ph_span(1)] by blast
  have n: "unat (map_span (2 ^ 12) [fx_ph]) + 2 ^ 12 \<le> 2 ^ 64" using fx_ph_span(2) by simp
  from mapSegment_length [OF r fx_host_page _ n] r fx_ph_span(2) show ?thesis by auto
qed

text \<open>
  C16: a refused mapping is not detected.  Even when the kernel refuses
  every mapping, \<open>mapSegment\<close> returns normally as soon as there is one
  \<open>PT_LOAD\<close> entry: the check \<open>mmap(\<dots>) < 0\<close> compares a pointer with 0 and
  never holds, and the per-segment and anonymous mappings are not checked.
\<close>

theorem mapSegment_ignores_mmap_failure:
  assumes "\<forall>x l. \<not> mmap_ok hs x l" and "load_phdrs phs \<noteq> []"
  shows "\<exists>m' lib' len. mapSegment hs m lib phs a bs = ret (m', lib', len)"
  using mapSegment_eq [OF assms(2)] by blast

theorem mapSegment_ignores_mmap_failure_witness:
  "\<exists>m' lib' len. mapSegment (fx_host\<lparr>mmap_ok := \<lambda>_ _. False\<rparr>) fx_mem fx_lib [fx_ph] 0x10000 [] = ret (m', lib', len)"
proof -
  have "\<forall>x l. \<not> mmap_ok (fx_host\<lparr>mmap_ok := \<lambda>_ _. False\<rparr>) x l" by simp
  from mapSegment_ignores_mmap_failure [OF this fx_ph_span(1)] show ?thesis .
qed

text \<open>
  C17: the \<open>.bss\<close> tail reads as zero.  When the kernel grants the
  mappings and the segment ends a page before the top of the address
  space, every byte from \<open>base + dataend\<close> to \<open>base + allocend\<close> is zero after
  the loop body of \<open>mapSegment\<close> for that segment: the part up to the next
  page boundary is cleared by \<open>memset\<close>, the rest is mapped anonymously.
\<close>

theorem seg_map_bss_zero:
  assumes ps: "page_size hs = 2 ^ k" and k: "k < 64" and ok: "\<forall>p l. mmap_ok hs p l"
    and lt: "dataend c < allocend c" and nw: "unat a + unat (allocend c) + 2 ^ k \<le> 2 ^ 64"
    and i: "i < unat (allocend c) - unat (dataend c)"
  shows "seg_map hs a bs m c (a + dataend c + word_of_nat i) = 0"
proof -
  let ?s = "a + dataend c" and ?e = "a + allocend c"
  let ?x = "?s + word_of_nat i"
  let ?pg = "ALIGN_UP ?s (2 ^ k)"
  let ?p = "if ?e < ?pg then ?e else ?pg"
  let ?AE = "ALIGN_UP ?e (2 ^ k)"
  have ld: "unat (dataend c) < unat (allocend c)" using lt by (simp add: word_less_nat_alt)
  have us: "unat ?s = unat a + unat (dataend c)"
    using nw ld unat_add_lem [of a "dataend c"] by simp
  have "(0::nat) < 2 ^ k" by simp
  then have lt64: "unat a + unat (allocend c) < 2 ^ 64" using nw by linarith
  have ue: "unat ?e = unat a + unat (allocend c)"
    using lt64 unat_add_lem [of a "allocend c"] by simp
  have ui: "unat (word_of_nat i :: addr) = i" using i nw by (intro unat_word_of_nat_small) linarith
  have "unat ?s + unat (word_of_nat i :: addr) < 2 ^ 64" using ui us i lt64 by linarith
  then have ux: "unat ?x = unat ?s + i" using ui unat_add_lem [of ?s "word_of_nat i"] by simp
  have xe: "unat ?x < unat ?e" using ux us ue i by linarith
  have spg: "unat ?s \<le> unat ?pg" using unat_ALIGN_UP_bounds(1) [OF k, of ?s] us nw ld by simp
  have eAE: "unat ?e \<le> unat ?AE" using unat_ALIGN_UP_bounds(1) [OF k, of ?e] ue nw by simp
  have sp: "unat ?s \<le> unat ?p"
  proof (cases "?e < ?pg")
    case True
    then have "?p = ?e" by simp
    have "unat ?s \<le> unat ?e" using us ue ld by linarith
    then show ?thesis by (simp only: \<open>?p = ?e\<close>)
  next
    case False
    then show ?thesis using spg by simp
  qed
  have pe: "unat ?p \<le> unat ?e" by (simp add: word_less_nat_alt)
  define m' where "m' = fst (mmap_file hs m (mapstart c + a) (mapend c - mapstart c) bs (mapoff c))"
  define m1 where "m1 = (if ?s < ?p then zero_fill m' ?s (?p - ?s) else m')"
  have sm: "seg_map hs a bs m c = (if ?p < ?e then zero_fill m1 ?p (?AE - ?p) else m1)"
    using lt ok ps by (simp add: seg_map_def bss_fill_def mmap_anon_def Let_def m'_def m1_def)
  show ?thesis
  proof (cases "unat ?x < unat ?p")
    case True
    have "?s < ?p" using True ux by (simp add: word_less_nat_alt)
    moreover have "unat (?x - ?s) < unat (?p - ?s)"
      using True ux ui sp unat_sub_le [of ?s ?p] by (simp add: word_le_nat_alt)
    ultimately have "m1 ?x = 0" by (simp add: m1_def zero_fill_in)
    then show ?thesis by (simp add: sm zero_fill_zero)
  next
    case False
    have pe': "?p < ?e" using False xe by (simp add: word_less_nat_alt)
    have "unat (?x - ?p) = unat ?x - unat ?p" using False by (simp add: unat_sub_le word_le_nat_alt)
    moreover have "unat (?AE - ?p) = unat ?AE - unat ?p"
      using pe eAE by (simp add: unat_sub_le word_le_nat_alt)
    ultimately have "unat (?x - ?p) < unat (?AE - ?p)" using False xe eAE by linarith
    then show ?thesis using pe' by (simp add: sm zero_fill_in)
  qed
qed

theorem seg_map_bss_zero_witness:
  "seg_map fx_host 0x10000 [] fx_mem (mk_loadcmd 0x1000 fx_ph) 0x1017F = 0"
proof -
  have c: "dataend (mk_loadcmd 0x1000 fx_ph) = 0x100" "allocend (mk_loadcmd 0x1000 fx_ph) = 0x180"
    by (simp_all add: mk_loadcmd_def fx_ph_def)
  have ok: "\<forall>p l. mmap_ok fx_host p l" by (simp add: fx_host_def)
  have lt: "dataend (mk_loadcmd 0x1000 fx_ph) < allocend (mk_loadcmd 0x1000 fx_ph)" by (simp add: c)
  have nw: "unat (0x10000::addr) + unat (allocend (mk_loadcmd 0x1000 fx_ph)) + 2 ^ 12 \<le> 2 ^ 64"
    by (simp add: c)
  have i: "0x7F < unat (allocend (mk_loadcmd 0x1000 fx_ph)) - unat (dataend (mk_loadcmd 0x1000 fx_ph))"
    by (simp add: c)
  from seg_map_bss_zero [OF fx_host_page _ ok lt nw i] show ?thesis by (simp add: c fx_host_page)
qed

subsection \<open>Reading a mapped file\<close>

lemma unat_add_small: "unat (c::addr) + i < 2 ^ 64 \<Longrightarrow> unat (c + word_of_nat i) = unat c + i"
proof -
  assume a: "unat c + i < 2 ^ 64"
  then have "unat (word_of_nat i :: addr) = i" by (intro unat_word_of_nat_small) linarith
  then show ?thesis using a unat_add_lem [of c "word_of_nat i"] by simp
qed

lemma bytes_at_map_file:
  assumes "unat c + n \<le> unat len" and "unat c + n \<le> length bs"
  shows "bytes_at (map_file m a len bs 0) (a + c) n = take n (drop (unat c) bs)"
proof (rule nth_equalityI)
  fix i assume "i < length (bytes_at (map_file m a len bs 0) (a + c) n)"
  then have i: "i < n" by simp
  have "unat len < 2 ^ 64" using unsigned_less [of len] by simp
  then have u: "unat (c + word_of_nat i) = unat c + i" using assms(1) i by (intro unat_add_small) linarith
  have "a + c + word_of_nat i - a = c + word_of_nat i" by simp
  then show "bytes_at (map_file m a len bs 0) (a + c) n ! i = take n (drop (unat c) bs) ! i"
    using assms i u by (simp add: bytes_at_def map_file_def file_byte_def)
qed (use assms in simp)

lemma map_file_shadow:
  "unat l1 \<le> unat l2 \<Longrightarrow> map_file (map_file m a l1 bs off) a l2 bs off = map_file m a l2 bs off"
  by (auto simp: map_file_def fun_eq_iff)


lemma load_u64_map_file:
  assumes "unat (x - a) + 8 \<le> unat len" and "unat (x - a) + 8 \<le> length bs"
  shows "load_u64 (map_file m a len bs 0) x = file_le bs (unat (x - a)) 8"
  using bytes_at_map_file [OF assms, of m a] by (simp add: load_u64_def file_le_def)

lemma map_file_byte:
  "unat (x - a) < unat len \<Longrightarrow> map_file m a len bs 0 x = file_byte bs (unat (x - a))"
  by (simp add: map_file_def)

end
