(* ===== verification/Paths.thy ===== *)
theory Paths
  imports Fixture
begin

text \<open>
  The path resolver and the two name tables of \<^verbatim>\<open>src/mapLibrary.c\<close>:
  \<open>isLibraryOpen\<close> (the chain registry, by name), \<open>doFakeLoad\<close> (the
  allow-list \<open>fake_so\<close>), \<open>openFile\<close> (an absolute path, or the directories
  of \<open>sys_path\<close>) and \<open>openDep\<close> (the \<open>DT_RUNPATH\<close> directories split by
  \<open>strtok_r\<close>, then \<open>openFile\<close>).  \<open>fopen\<close> succeeds on a path the host's
  file system holds; an opened file is represented by its path.  Both
  tables end with an empty string, which is a non-NULL pointer: a loop
  that tests \<open>*s\<close> goes on past it and reads beyond the array.  The path
  buffers are 128 bytes; a longer \<open>strcat\<close> result overflows them.
\<close>

subsection \<open>Definitions\<close>

fun lib_index :: "string \<Rightarrow> library list \<Rightarrow> nat \<Rightarrow> nat option" where
  "lib_index nm [] i = None"
| "lib_index nm (l # ls) i = (if nm = name l then Some i else lib_index nm ls (Suc i))"

definition isLibraryOpen :: "string \<Rightarrow> library list \<Rightarrow> nat option" where
  "isLibraryOpen nm ch = lib_index nm ch 0"

definition fake_so :: "string list" where
  "fake_so = [''libc.so.6'', ''ld-linux.so.2'', '''']"

fun fake_scan :: "string list \<Rightarrow> string \<Rightarrow> bool res" where
  "fake_scan [] nm = fail ArrayOverrun"
| "fake_scan (s # ss) nm = (if s = nm then ret True else fake_scan ss nm)"

definition doFakeLoad :: "string \<Rightarrow> bool res" where
  "doFakeLoad nm = fake_scan fake_so nm"

definition sys_path :: "string list" where
  "sys_path = [''/usr/lib/x86_64-linux-gnu/'', ''/lib/x86_64-linux-gnu/'', '''']"

text \<open>\<open>fopen(p, "rb")\<close>: the file, as its path, when the file system has it.\<close>

definition fopen :: "host \<Rightarrow> string \<Rightarrow> string option" where
  "fopen hs p = (case files hs p of Some _ \<Rightarrow> Some p | None \<Rightarrow> None)"

fun sys_scan :: "host \<Rightarrow> string list \<Rightarrow> string \<Rightarrow> string option res" where
  "sys_scan hs [] nm = fail ArrayOverrun"
| "sys_scan hs (d # ds) nm =
     (let p = d @ nm
      in if 128 \<le> length p then fail BufferOverflow
         else case fopen hs p of Some f \<Rightarrow> ret (Some f) | None \<Rightarrow> sys_scan hs ds nm)"

definition openFile :: "host \<Rightarrow> string \<Rightarrow> string option res" where
  "openFile hs nm = (if CHR ''/'' \<in> set nm then ret (fopen hs nm) else sys_scan hs sys_path nm)"

text \<open>The tokens \<open>strtok_r(s, ":", \<dots>)\<close> returns: the maximal non-empty runs without \<open>:\<close>.\<close>

function strtok_split :: "string \<Rightarrow> string list" where
  "strtok_split s =
     (let s' = dropWhile (\<lambda>c. c = CHR '':'') s
      in if s' = [] then []
         else takeWhile (\<lambda>c. c \<noteq> CHR '':'') s' # strtok_split (dropWhile (\<lambda>c. c \<noteq> CHR '':'') s'))"
  by pat_completeness auto
termination
proof (relation "measure length")
  fix s s' :: string
  assume s': "s' = dropWhile (\<lambda>c. c = CHR '':'') s" and ne: "s' \<noteq> []"
  then obtain c cs where "s' = c # cs" and "c \<noteq> CHR '':''"
    by (metis (mono_tags, lifting) dropWhile_eq_Cons_conv list.exhaust)
  then have "length (dropWhile (\<lambda>c. c \<noteq> CHR '':'') s') \<le> length cs" by (simp add: length_dropWhile_le)
  also have "\<dots> < length s'" using \<open>s' = c # cs\<close> by simp
  also have "\<dots> \<le> length s" using s' by (simp add: length_dropWhile_le)
  finally show "(dropWhile (\<lambda>c. c \<noteq> CHR '':'') s', s) \<in> measure length" by simp
qed simp

fun dep_scan :: "host \<Rightarrow> string list \<Rightarrow> string \<Rightarrow> string option res" where
  "dep_scan hs [] nm = ret None"
| "dep_scan hs (p # ps) nm =
     (let t = p @ ''/'' @ nm
      in if 128 \<le> length t then fail BufferOverflow
         else case fopen hs t of Some f \<Rightarrow> ret (Some f) | None \<Rightarrow> dep_scan hs ps nm)"

definition openDep :: "host \<Rightarrow> string \<Rightarrow> string option \<Rightarrow> string option res" where
  "openDep hs nm runpath =
     (case runpath of
        None \<Rightarrow> openFile hs nm
      | Some rp \<Rightarrow> bindR (dep_scan hs (strtok_split rp) nm) (\<lambda>r.
                     case r of Some f \<Rightarrow> ret (Some f) | None \<Rightarrow> openFile hs nm))"

declare strtok_split.simps [simp del]

subsection \<open>The registry\<close>

lemma lib_index_Some:
  "lib_index nm ch i = Some j \<Longrightarrow>
     i \<le> j \<and> j - i < length ch \<and> name (ch ! (j - i)) = nm \<and> (\<forall>k < j - i. name (ch ! k) \<noteq> nm)"
proof (induction nm ch i rule: lib_index.induct)
  case (2 nm l ls i)
  show ?case
  proof (cases "nm = name l")
    case True
    then show ?thesis using "2.prems" by simp
  next
    case False
    then have "lib_index nm ls (Suc i) = Some j" using "2.prems" by simp
    then have IH: "Suc i \<le> j \<and> j - Suc i < length ls \<and> name (ls ! (j - Suc i)) = nm \<and>
                   (\<forall>k < j - Suc i. name (ls ! k) \<noteq> nm)" by (rule "2.IH" [OF False])
    have "\<forall>k < j - i. name ((l # ls) ! k) \<noteq> nm"
    proof (intro allI impI)
      fix k assume "k < j - i"
      then show "name ((l # ls) ! k) \<noteq> nm" using IH False by (cases k) auto
    qed
    moreover have "j - i = Suc (j - Suc i)" using IH by arith
    ultimately show ?thesis using IH by simp
  qed
qed simp

lemma lib_index_None: "lib_index nm ch i = None \<longleftrightarrow> nm \<notin> name ` set ch"
  by (induction nm ch i rule: lib_index.induct) auto

subsection \<open>Scans of the tables\<close>

lemma fake_scan_eq: "fake_scan ss nm = (if nm \<in> set ss then ret True else fail ArrayOverrun)"
  by (induction ss) auto

lemma sys_scan_find:
  "\<forall>d\<in>set ds. length (d @ nm) < 128 \<Longrightarrow>
     sys_scan hs ds nm = (case find (\<lambda>d. files hs (d @ nm) \<noteq> None) ds of
                            Some d \<Rightarrow> ret (Some (d @ nm)) | None \<Rightarrow> fail ArrayOverrun)"
  by (induction ds) (auto simp: fopen_def split: option.splits)

lemma dep_scan_find:
  "\<forall>t\<in>set ts. length (t @ ''/'' @ nm) < 128 \<Longrightarrow>
     dep_scan hs ts nm = ret (map_option (\<lambda>t. t @ ''/'' @ nm) (find (\<lambda>t. files hs (t @ ''/'' @ nm) \<noteq> None) ts))"
  by (induction ts) (auto simp: fopen_def split: option.splits)

subsection \<open>\<open>strtok_r\<close>\<close>

lemma strtok_split_colon: "strtok_split (CHR '':'' # s) = strtok_split s"
  by (subst (1 2) strtok_split.simps) simp

lemma strtok_split_Nil: "strtok_split [] = []"
  by (subst strtok_split.simps) simp

lemma strtok_split_token:
  assumes "t \<noteq> []" and "CHR '':'' \<notin> set t" and "r = [] \<or> hd r = CHR '':''"
  shows "strtok_split (t @ r) = t # strtok_split r"
proof -
  have nc: "\<And>x. x \<in> set t \<Longrightarrow> x \<noteq> CHR '':''" using assms(2) by auto
  have "hd t \<noteq> CHR '':''" using assms(1) nc by simp
  then have "dropWhile (\<lambda>c. c = CHR '':'') t = t" by (simp add: dropWhile_eq_self_iff)
  moreover have "\<not> (\<forall>x\<in>set t. x = CHR '':'')" using assms(1) nc by (cases t) auto
  ultimately have d1: "dropWhile (\<lambda>c. c = CHR '':'') (t @ r) = t @ r"
    by (simp only: dropWhile_append if_False)
  have r1: "takeWhile (\<lambda>c. c \<noteq> CHR '':'') r = []" and r2: "dropWhile (\<lambda>c. c \<noteq> CHR '':'') r = r"
    using assms(3) by (cases r; simp)+
  have t1: "takeWhile (\<lambda>c. c \<noteq> CHR '':'') (t @ r) = t" using nc r1 by (simp add: takeWhile_append2)
  have d2: "dropWhile (\<lambda>c. c \<noteq> CHR '':'') (t @ r) = r" using nc r2 by (simp add: dropWhile_append2)
  have "strtok_split (t @ r) =
          (let s' = dropWhile (\<lambda>c. c = CHR '':'') (t @ r)
           in if s' = [] then []
              else takeWhile (\<lambda>c. c \<noteq> CHR '':'') s' # strtok_split (dropWhile (\<lambda>c. c \<noteq> CHR '':'') s'))"
    by (rule strtok_split.simps)
  also have "\<dots> = t # strtok_split r" unfolding Let_def d1 t1 d2 using assms(1) by simp
  finally show ?thesis .
qed

text \<open>
  C19: the allow-list check reads past \<open>fake_so\<close> for every ordinary name.
  \<open>doFakeLoad\<close> answers 1 for the names of the list, including the empty
  name; for any other name the loop passes the empty-string entry, which
  is not NULL, and reads beyond the array: it never answers 0.
\<close>

theorem doFakeLoad_overrun:
  "doFakeLoad nm = (if nm \<in> set fake_so then ret True else fail ArrayOverrun)"
  by (simp add: doFakeLoad_def fake_scan_eq)

text \<open>
  C20: the system search of \<open>openFile\<close>.  A name without \<open>/\<close> short enough
  for the 128-byte buffer is looked up in \<open>/usr/lib/x86_64-linux-gnu/\<close>,
  \<open>/lib/x86_64-linux-gnu/\<close> and the current directory, in that order, and
  the first existing file is opened; when none exists the loop reads past
  \<open>sys_path\<close> instead of returning NULL.
\<close>

theorem openFile_search:
  assumes "CHR ''/'' \<notin> set nm" and "length nm < 102"
  shows "openFile hs nm = (case find (\<lambda>d. files hs (d @ nm) \<noteq> None) sys_path of
                              Some d \<Rightarrow> ret (Some (d @ nm)) | None \<Rightarrow> fail ArrayOverrun)"
proof -
  have "\<forall>d\<in>set sys_path. length (d @ nm) < 128" using assms(2) by (simp add: sys_path_def)
  then show ?thesis using assms(1) sys_scan_find by (simp add: openFile_def)
qed

theorem openFile_search_witness:
  "openFile fx_host ''libb.so'' = fail ArrayOverrun"
proof -
  have "CHR ''/'' \<notin> set ''libb.so''" and "length ''libb.so'' < 102" by simp_all
  from openFile_search [OF this, of fx_host] show ?thesis by (simp add: fx_host_def sys_path_def)
qed

text \<open>
  C21: the \<open>DT_RUNPATH\<close> search of \<open>openDep\<close>.  When every candidate fits
  the buffer, \<open>openDep\<close> opens \<open>dir/name\<close> for the first directory of the
  run path, in order, where that file exists, and otherwise falls back to
  \<open>openFile\<close>.
\<close>

theorem openDep_runpath:
  assumes "\<forall>t\<in>set (strtok_split rp). length (t @ ''/'' @ nm) < 128"
  shows "openDep hs nm (Some rp) =
           (case find (\<lambda>t. files hs (t @ ''/'' @ nm) \<noteq> None) (strtok_split rp) of
              Some t \<Rightarrow> ret (Some (t @ ''/'' @ nm)) | None \<Rightarrow> openFile hs nm)"
  using dep_scan_find [OF assms] by (simp add: openDep_def split: option.splits)

lemma fx_runpath_split: "strtok_split ''/a:/b'' = [''/a'', ''/b'']"
proof -
  have "strtok_split (''/a'' @ CHR '':'' # ''/b'') = ''/a'' # strtok_split (CHR '':'' # ''/b'')"
    by (rule strtok_split_token) simp_all
  also have "\<dots> = ''/a'' # strtok_split (''/b'' @ [])" by (simp add: strtok_split_colon)
  also have "strtok_split (''/b'' @ []) = ''/b'' # strtok_split []"
    by (rule strtok_split_token) simp_all
  finally show ?thesis by (simp add: strtok_split_Nil)
qed

theorem openDep_runpath_witness:
  "openDep (fx_host\<lparr>files := \<lambda>p. if p = ''/b/libb.so'' then Some [] else None\<rparr>) ''libb.so'' (Some ''/a:/b'')
     = ret (Some ''/b/libb.so'')"
proof -
  have "\<forall>t\<in>set (strtok_split ''/a:/b''). length (t @ ''/'' @ ''libb.so'') < 128"
    by (simp add: fx_runpath_split)
  from openDep_runpath [OF this] show ?thesis by (simp add: fx_runpath_split)
qed

end
