(* ===== verification/Loader.thy ===== *)
theory Loader
  imports Reloc DynIndex Segments Paths
begin

text \<open>
  The dependency graph builder and the public \<open>openLibrary\<close>:
  \<open>mapWorker\<close>, \<open>mapLibrary\<close> of \<^verbatim>\<open>src/mapLibrary.c\<close> and \<open>openLibrary\<close> of
  \<^verbatim>\<open>src/openLibrary.c\<close>.  \<open>mapWorker\<close> reads the headers of the record's
  file (\<open>read_headers\<close>), maps it (\<open>mapSegment\<close>), indexes it
  (\<open>fill_info\<close>), reads its hash table (\<open>setup_hash\<close>), counts its
  \<open>DT_NEEDED\<close> entries (\<open>count_needed\<close>) and walks them again
  (\<open>need_loop\<close>, one \<open>need_step\<close> per entry), appending a record for every
  dependency the registry does not hold yet.  The globals \<open>openedHead\<close>
  and \<open>openedTail\<close> are the chain of the loader state, reset by each
  \<open>mapLibrary\<close>; \<open>map_loop\<close> is its \<open>while (curr != NULL)\<close> loop, which
  places each record at the previous base plus the previous length.
\<close>

subsection \<open>Definitions\<close>

text \<open>
  \<open>fread\<close> of the 64-byte \<open>Elf64_Ehdr\<close> and then of \<open>e_phnum\<close> program
  headers from the current position (64): \<open>e_phoff\<close> is not used.  A read
  of 0 bytes returns 0 and fails like a short read.
\<close>

definition read_headers :: "u8 list option \<Rightarrow> string \<Rightarrow> (u8 list \<times> phdr list) res" where
  "read_headers fb nm =
     (case fb of
        None \<Rightarrow> fail (EhdrReadFailure nm)
      | Some bs \<Rightarrow>
          if length bs < 64 then fail (EhdrReadFailure nm)
          else let phnum = unat (e_phnum (take 64 bs)); phlen = 56 * phnum
               in if phlen = 0 \<or> length bs < 64 + phlen then fail (PhdrReadFailure nm)
                  else ret (bs, map (\<lambda>i. parse_phdr (drop 64 bs) (56 * i)) [0..<phnum]))"

text \<open>\<open>strdup\<close> of the \<open>DT_RUNPATH\<close> string, NULL when the entry is absent.\<close>

definition runpath_of :: "mem \<Rightarrow> library \<Rightarrow> addr \<Rightarrow> string option res" where
  "runpath_of m l strtab =
     (if dyn_info l ! DT_RUNPATH \<noteq> 0 then mapR Some (cstr_res m (d_un m (dyn_info l ! DT_RUNPATH) + strtab))
      else ret None)"

partial_function (option) count_needed :: "mem \<Rightarrow> addr \<Rightarrow> nat \<Rightarrow> nat option" where
  "count_needed m p n =
     (if d_tag m p = of_nat DT_NULL then Some n
      else count_needed m (p + 16) (if d_tag m p = of_nat DT_NEEDED then Suc n else n))"

declare count_needed.simps [code]

text \<open>
  One entry of the second loop.  \<open>need_processed\<close> is declared inside the
  loop body, so it is 0 at every entry and each dependency is stored at
  \<open>search_list[1]\<close>.
\<close>

definition need_step :: "host \<Rightarrow> mem \<Rightarrow> addr \<Rightarrow> string option \<Rightarrow> string \<Rightarrow> addr \<Rightarrow>
                          library list \<times> nat option list \<Rightarrow> (library list \<times> nat option list) res" where
  "need_step hs m strtab runpath libname p cs =
     (let (ch, sl) = cs
      in if d_tag m p = of_nat DT_NEEDED then
           bindR (cstr_res m (d_un m p + strtab)) (\<lambda>depname.
             case isLibraryOpen depname ch of
               None \<Rightarrow>
                 bindR (openDep hs depname runpath) (\<lambda>f.
                   case f of
                     None \<Rightarrow> fail (DepOpenFailure depname libname)
                   | Some fp \<Rightarrow>
                       bindR (doFakeLoad depname) (\<lambda>fk.
                         ret (ch @ [(new_library depname fp)\<lparr>fake := fk\<rparr>], sl[1 := Some (length ch)])))
             | Some j \<Rightarrow> ret (ch, sl[1 := Some j]))
         else ret (ch, sl))"

partial_function (option) need_loop ::
  "host \<Rightarrow> mem \<Rightarrow> addr \<Rightarrow> string option \<Rightarrow> string \<Rightarrow> nat \<Rightarrow> addr \<Rightarrow>
   library list \<times> nat option list \<Rightarrow> (library list \<times> nat option list) res" where
  "need_loop hs m strtab runpath libname nneeded p cs =
     (if d_tag m p = of_nat DT_NULL then ret cs
      else if 0 = nneeded then ret cs
      else bindR (need_step hs m strtab runpath libname p cs) (\<lambda>cs'.
             need_loop hs m strtab runpath libname nneeded (p + 16) cs'))"

declare need_loop.simps [code]

text \<open>
  \<open>mapWorker(lib, addr)\<close> for the record at chain index \<open>li\<close>: the new
  state and the length to advance the next base by.  The search list is
  the \<open>malloc\<close>ed array of \<open>nneeded + 1\<close> slots with slot 0 set last.
\<close>

definition mapWorker :: "host \<Rightarrow> nat \<Rightarrow> addr \<Rightarrow> ld_state \<Rightarrow> (ld_state \<times> u64) res" where
  "mapWorker hs li a st =
     (let lib0 = (chain st ! li)\<lparr>addr := a\<rparr>
      in bindR (read_headers (files hs (fs lib0)) (name lib0)) (\<lambda>(bs, phs).
         bindR (mapSegment hs (memory st) lib0 phs a bs) (\<lambda>(m1, lib1, maplength).
         bindR (fill_info m1 lib1) (\<lambda>(m2, lib2).
         bindR (setup_hash m2 lib2) (\<lambda>lib3.
         bindR (dyn_val m2 lib3 DT_STRTAB) (\<lambda>strtab.
         bindR (runpath_of m2 lib3 strtab) (\<lambda>runpath.
         bindR (liftR (count_needed m2 (dyn lib3) 0)) (\<lambda>nneeded.
         bindR (need_loop hs m2 strtab runpath (name lib3) nneeded (dyn lib3)
                  ((chain st)[li := lib3], replicate (Suc nneeded) None)) (\<lambda>(ch1, sl).
         ret (\<lparr>memory = m2, chain = ch1[li := (ch1 ! li)\<lparr>search_list := Some (sl[0 := Some li])\<rparr>]\<rparr>,
              maplength))))))))))"

partial_function (option) map_loop :: "host \<Rightarrow> nat \<Rightarrow> addr \<Rightarrow> ld_state \<Rightarrow> ld_state res" where
  "map_loop hs i cur st =
     (if i < length (chain st)
      then bindR (mapWorker hs i cur st) (\<lambda>(st', len). map_loop hs (Suc i) (cur + len) st')
      else ret st)"

declare map_loop.simps [code]

definition mapLibrary :: "host \<Rightarrow> mem \<Rightarrow> string \<Rightarrow> addr \<Rightarrow> ld_state res" where
  "mapLibrary hs m nm a =
     bindR (openFile hs nm) (\<lambda>f.
       case f of
         None \<Rightarrow> fail (FileNotFound nm)
       | Some fp \<Rightarrow> map_loop hs 0 a \<lparr>memory = m, chain = [new_library nm fp]\<rparr>)"

text \<open>\<open>openLibrary(name, mode, addr)\<close>: the handle is record 0 of the chain.\<close>

definition openLibrary :: "host \<Rightarrow> mem \<Rightarrow> string \<Rightarrow> nat \<Rightarrow> addr \<Rightarrow> ld_state res" where
  "openLibrary hs m nm mode a = bindR (mapLibrary hs m nm a) (relocLibrary hs 0 mode)"

subsection \<open>The registry invariant\<close>

text \<open>
  The chain registry never holds two records with the same name: a record
  is appended only when \<open>isLibraryOpen\<close> did not find its name, and the
  records already in the chain keep their names.
\<close>

definition grows :: "library list \<Rightarrow> library list \<Rightarrow> bool" where
  "grows ch ch' \<longleftrightarrow> (\<exists>ys. map name ch' = map name ch @ ys)"

text \<open>A record as \<open>need_step\<close> appends it: a fresh index and no search list yet.\<close>

definition unmapped :: "library \<Rightarrow> bool" where
  "unmapped l \<longleftrightarrow> dyn_info l = replicate (DT_NUM + OS_SPECIFIC_FLAG) 0 \<and> search_list l = None"

text \<open>
  The search list of record \<open>j\<close> as \<open>mapWorker\<close> leaves it: the record
  itself in slot 0, nothing from slot 2 on.
\<close>

definition self_slot1 :: "library \<Rightarrow> nat \<Rightarrow> bool" where
  "self_slot1 l j \<longleftrightarrow> (\<exists>sl. search_list l = Some sl \<and> sl ! 0 = Some j \<and>
                               (\<forall>k. 2 \<le> k \<longrightarrow> k < length sl \<longrightarrow> sl ! k = None))"

lemma grows_refl [simp]: "grows ch ch"
  by (simp add: grows_def)

lemma grows_trans: "grows ch1 ch2 \<Longrightarrow> grows ch2 ch3 \<Longrightarrow> grows ch1 ch3"
  by (auto simp: grows_def)

lemma need_step_chain:
  assumes "need_step hs m strtab rp ln p (ch, sl) = ret (ch', sl')" and "distinct (map name ch)"
  shows "distinct (map name ch') \<and> grows ch ch'"
proof (cases "d_tag m p = of_nat DT_NEEDED")
  case True
  then obtain depname where dn: "cstr_res m (d_un m p + strtab) = ret depname"
    and st: "(case isLibraryOpen depname ch of
               None \<Rightarrow> bindR (openDep hs depname rp) (\<lambda>f. case f of
                         None \<Rightarrow> fail (DepOpenFailure depname ln)
                       | Some fp \<Rightarrow> bindR (doFakeLoad depname) (\<lambda>fk.
                           ret (ch @ [(new_library depname fp)\<lparr>fake := fk\<rparr>], sl[1 := Some (length ch)])))
             | Some j \<Rightarrow> ret (ch, sl[1 := Some j])) = ret (ch', sl')"
    using assms(1) by (auto simp: need_step_def bindR_eq_ret)
  show ?thesis
  proof (cases "isLibraryOpen depname ch")
    case None
    then have "depname \<notin> set (map name ch)" by (simp add: isLibraryOpen_def lib_index_None)
    moreover obtain fp fk where "ch' = ch @ [(new_library depname fp)\<lparr>fake := fk\<rparr>]"
      using st None by (auto simp: bindR_eq_ret split: option.splits)
    ultimately show ?thesis using assms(2) by (simp add: grows_def new_library_def)
  next
    case (Some j)
    then show ?thesis using st assms(2) by simp
  qed
next
  case False
  then show ?thesis using assms by (simp add: need_step_def)
qed

text \<open>
  A relation between loop states that every \<open>need_step\<close> establishes and
  that is reflexive and transitive holds between the first and the last
  state of \<open>need_loop\<close>.
\<close>

lemma need_loop_rel:
  assumes step: "\<And>hs m strtab rp ln p cs cs'. need_step hs m strtab rp ln p cs = ret cs' \<Longrightarrow> R cs cs'"
    and refl: "\<And>cs. R cs cs" and trans: "\<And>x y z. R x y \<Longrightarrow> R y z \<Longrightarrow> R x z"
    and ret: "need_loop hs m strtab rp ln nn p cs = ret cs'"
  shows "R cs cs'"
proof -
  have "\<forall>cs'. r = Inr cs' \<longrightarrow> R cs cs'" if "need_loop hs m strtab rp ln nn p cs = Some r" for r
  proof (rule need_loop.raw_induct [where P = "\<lambda>_ _ _ _ _ _ _ cs r. \<forall>cs'. r = Inr cs' \<longrightarrow> R cs cs'",
                                      OF _ that])
    fix f hs m strtab rp ln nn p cs r
    assume IH: "\<And>hs m strtab rp ln nn p cs r. f hs m strtab rp ln nn p cs = Some r \<Longrightarrow>
                  \<forall>cs'. r = Inr cs' \<longrightarrow> R cs cs'"
      and eq: "(if d_tag m p = of_nat DT_NULL then ret cs
                else if 0 = nn then ret cs
                else bindR (need_step hs m strtab rp ln p cs) (\<lambda>cs'. f hs m strtab rp ln nn (p + 16) cs')) = Some r"
    show "\<forall>cs'. r = Inr cs' \<longrightarrow> R cs cs'"
    proof (intro allI impI)
      fix cs' assume r: "r = Inr cs'"
      show "R cs cs'"
      proof (cases "d_tag m p = of_nat DT_NULL \<or> 0 = nn")
        case True
        then show ?thesis using eq r refl by (auto simp: ret_def split: if_splits)
      next
        case False
        then obtain cs1 where s1: "need_step hs m strtab rp ln p cs = ret cs1"
          and s2: "f hs m strtab rp ln nn (p + 16) cs1 = ret cs'"
          using eq r by (auto simp: bindR_eq_ret ret_def [symmetric])
        show ?thesis using IH [OF s2 [unfolded ret_def]] step [OF s1] trans by blast
      qed
    qed
  qed
  then show ?thesis using ret unfolding ret_def by blast
qed

lemma need_loop_chain:
  assumes "need_loop hs m strtab rp ln nn p cs = ret (ch', sl')" and "distinct (map name (fst cs))"
  shows "distinct (map name ch') \<and> grows (fst cs) ch'"
proof -
  have "distinct (map name (fst cs)) \<longrightarrow> distinct (map name (fst (ch', sl'))) \<and> grows (fst cs) (fst (ch', sl'))"
  proof (rule need_loop_rel [OF _ _ _ assms(1)])
    fix hs m strtab rp ln p cs cs'
    assume "need_step hs m strtab rp ln p cs = ret cs'"
    then show "distinct (map name (fst cs)) \<longrightarrow> distinct (map name (fst cs')) \<and> grows (fst cs) (fst cs')"
      using need_step_chain [of hs m strtab rp ln p "fst cs" "snd cs" "fst cs'" "snd cs'"] by simp
  qed (auto intro: grows_trans)
  then show ?thesis using assms(2) by simp
qed

lemma need_step_slots:
  "need_step hs m strtab rp ln p cs = ret cs' \<Longrightarrow>
     length (snd cs') = length (snd cs) \<and> (\<forall>k. k \<noteq> 1 \<longrightarrow> snd cs' ! k = snd cs ! k)"
  by (cases cs) (auto simp: need_step_def bindR_eq_ret split: if_splits option.splits)

text \<open>
  Only slot 1 of the search list is ever written while the dependencies are
  walked: \<open>need_processed\<close> is 0 at every entry.
\<close>

lemma need_loop_slots:
  "need_loop hs m strtab rp ln nn p cs = ret cs' \<Longrightarrow>
     length (snd cs') = length (snd cs) \<and> (\<forall>k. k \<noteq> 1 \<longrightarrow> snd cs' ! k = snd cs ! k)"
  by (erule need_loop_rel [rotated 3]) (auto dest: need_step_slots)

lemma foldl_ph_step_keeps:
  "name (fst (foldl (ph_step ps a) lc phs)) = name (fst lc) \<and> addr (fst (foldl (ph_step ps a) lc phs)) = addr (fst lc) \<and>
   dyn_info (fst (foldl (ph_step ps a) lc phs)) = dyn_info (fst lc) \<and> fake (fst (foldl (ph_step ps a) lc phs)) = fake (fst lc)"
  by (induction phs arbitrary: lc) (auto simp: ph_step_def split: prod.splits)

lemma mapSegment_keeps:
  "mapSegment hs m lib phs a bs = ret (m1, lib1, len) \<Longrightarrow>
     name lib1 = name lib \<and> addr lib1 = addr lib \<and> dyn_info lib1 = dyn_info lib \<and> fake lib1 = fake lib \<and>
     (\<exists>s. len = ALIGN_UP s (page_size hs))"
  by (cases "load_phdrs phs = []")
     (auto simp: mapSegment_no_load mapSegment_eq foldl_ph_step_keeps)

lemma dyn_scan_length:
  assumes "dyn_scan m p info = Some info'"
  shows "length info' = length info"
proof (rule dyn_scan.raw_induct [where P = "\<lambda>m p info info'. length info' = length info", OF _ assms])
  fix f m p and info info' :: "addr list"
  assume IH: "\<And>m p info info'. f m p info = Some info' \<Longrightarrow> length info' = length info"
    and eq: "(if d_tag m p = of_nat DT_NULL then Some info
              else f m (p + 16) (case slot_of (d_tag m p) of Some t \<Rightarrow> info[t := p] | None \<Rightarrow> info)) = Some info'"
  show "length info' = length info"
    using eq IH [of m "p + 16"] by (auto split: if_splits option.splits)
qed

lemma liftR_eq_ret: "liftR x = ret a \<longleftrightarrow> x = Some a"
  by (cases x) (simp_all add: liftR_def ret_def)

lemma fill_info_keeps:
  "fill_info m l = ret (m', l') \<Longrightarrow>
     name l' = name l \<and> addr l' = addr l \<and> length (dyn_info l') = length (dyn_info l) \<and> fake l' = fake l"
  by (auto simp: fill_info_def Let_def bindR_eq_ret liftR_eq_ret dyn_scan_length split: if_splits)

lemma setup_hash_keeps:
  "setup_hash m l = ret l' \<Longrightarrow> name l' = name l \<and> addr l' = addr l \<and> dyn_info l' = dyn_info l \<and> fake l' = fake l"
  by (auto simp: setup_hash_def Let_def bindR_eq_ret)

lemma map_name_update:
  "name x = name (ch ! i) \<Longrightarrow> map name (ch[i := x]) = map name ch"
  by (metis list_update_id map_update)

lemma grows_length: "grows ch ch' \<Longrightarrow> length ch \<le> length ch'"
  by (auto simp: grows_def dest: arg_cong [where f = length])

text \<open>The stages of \<open>mapWorker\<close> that a successful run went through.\<close>

lemma mapWorker_ret:
  assumes "mapWorker hs li a st = ret (st', len)"
  obtains bs phs m1 lib1 m2 lib2 lib3 strtab rp nn ch1 sl where
    "mapSegment hs (memory st) ((chain st ! li)\<lparr>addr := a\<rparr>) phs a bs = ret (m1, lib1, len)"
    "fill_info m1 lib1 = ret (m2, lib2)" "setup_hash m2 lib2 = ret lib3"
    "need_loop hs m2 strtab rp (name lib3) nn (dyn lib3)
       ((chain st)[li := lib3], replicate (Suc nn) None) = ret (ch1, sl)"
    "st' = \<lparr>memory = m2, chain = ch1[li := (ch1 ! li)\<lparr>search_list := Some (sl[0 := Some li])\<rparr>]\<rparr>"
  using assms by (auto simp: mapWorker_def Let_def bindR_eq_ret split: prod.splits)

lemma need_step_appends:
  "need_step hs m strtab rp ln p cs = ret cs' \<Longrightarrow> \<exists>ys. fst cs' = fst cs @ ys \<and> (\<forall>l\<in>set ys. unmapped l)"
  by (cases cs) (auto simp: need_step_def bindR_eq_ret unmapped_def new_library_def split: if_splits option.splits)

lemma need_loop_appends:
  "need_loop hs m strtab rp ln nn p cs = ret cs' \<Longrightarrow> \<exists>ys. fst cs' = fst cs @ ys \<and> (\<forall>l\<in>set ys. unmapped l)"
  by (erule need_loop_rel [rotated 3]) (fastforce dest: need_step_appends)+

lemma mapWorker_chain:
  assumes mw: "mapWorker hs li a st = ret (st', len)" and li: "li < length (chain st)"
    and d: "distinct (map name (chain st))"
  shows "distinct (map name (chain st')) \<and> grows (chain st) (chain st')"
proof -
  obtain bs phs m1 lib1 m2 lib2 lib3 strtab rp nn ch1 sl where
    s1: "mapSegment hs (memory st) ((chain st ! li)\<lparr>addr := a\<rparr>) phs a bs = ret (m1, lib1, len)"
    and s2: "fill_info m1 lib1 = ret (m2, lib2)" and s3: "setup_hash m2 lib2 = ret lib3"
    and nl: "need_loop hs m2 strtab rp (name lib3) nn (dyn lib3)
               ((chain st)[li := lib3], replicate (Suc nn) None) = ret (ch1, sl)"
    and st': "st' = \<lparr>memory = m2, chain = ch1[li := (ch1 ! li)\<lparr>search_list := Some (sl[0 := Some li])\<rparr>]\<rparr>"
    by (rule mapWorker_ret [OF mw])
  have "name lib3 = name (chain st ! li)"
    using mapSegment_keeps [OF s1] fill_info_keeps [OF s2] setup_hash_keeps [OF s3] by simp
  then have n: "map name ((chain st)[li := lib3]) = map name (chain st)"
    by (rule map_name_update)
  then have dd: "distinct (map name ch1)" and g: "grows ((chain st)[li := lib3]) ch1"
    using need_loop_chain [OF nl] d by simp_all
  have "grows (chain st) ch1"
    using g n unfolding grows_def by simp
  moreover have "map name (chain st') = map name ch1"
    using map_name_update [of "(ch1 ! li)\<lparr>search_list := Some (sl[0 := Some li])\<rparr>" ch1 li] st'
    by simp
  ultimately show ?thesis using dd unfolding grows_def by simp
qed

lemma map_loop_rel:
  assumes step: "\<And>hs i cur st st' len. i < length (chain st) \<Longrightarrow> mapWorker hs i cur st = ret (st', len) \<Longrightarrow> R st st'"
    and refl: "\<And>st. R st st" and trans: "\<And>x y z. R x y \<Longrightarrow> R y z \<Longrightarrow> R x z"
    and ret: "map_loop hs i cur st = ret st'"
  shows "R st st'"
proof -
  have "\<forall>st'. r = Inr st' \<longrightarrow> R st st'" if "map_loop hs i cur st = Some r" for r
  proof (rule map_loop.raw_induct [where P = "\<lambda>_ _ _ st r. \<forall>st'. r = Inr st' \<longrightarrow> R st st'", OF _ that])
    fix f hs i cur st r
    assume IH: "\<And>hs i cur st r. f hs i cur st = Some r \<Longrightarrow> \<forall>st'. r = Inr st' \<longrightarrow> R st st'"
      and eq: "(if i < length (chain st)
                then bindR (mapWorker hs i cur st) (\<lambda>(st', len). f hs (Suc i) (cur + len) st')
                else ret st) = Some r"
    show "\<forall>st'. r = Inr st' \<longrightarrow> R st st'"
    proof (intro allI impI)
      fix st' assume r: "r = Inr st'"
      show "R st st'"
      proof (cases "i < length (chain st)")
        case False
        then have "ret st = (ret st' :: ld_state res)" using eq r by (simp add: ret_def)
        then show ?thesis using refl by (simp add: ret_def)
      next
        case True
        then have "bindR (mapWorker hs i cur st) (\<lambda>(st', len). f hs (Suc i) (cur + len) st') = ret st'"
          using eq r by (simp add: ret_def)
        then obtain p1 where p1: "mapWorker hs i cur st = ret p1"
          and "(case p1 of (st', len) \<Rightarrow> f hs (Suc i) (cur + len) st') = ret st'"
          unfolding bindR_eq_ret by blast
        then obtain st1 len where s1: "mapWorker hs i cur st = ret (st1, len)"
          and s2: "f hs (Suc i) (cur + len) st1 = ret st'"
          by (cases p1) simp
        have "R st1 st'" using IH [OF s2 [unfolded ret_def]] by simp
        then show ?thesis by (rule trans [OF step [OF True s1]])
      qed
    qed
  qed
  then show ?thesis using ret unfolding ret_def by blast
qed

lemma map_loop_chain:
  assumes "map_loop hs i cur st = ret st'" and "distinct (map name (chain st))"
  shows "distinct (map name (chain st')) \<and> grows (chain st) (chain st')"
proof -
  have "distinct (map name (chain st)) \<longrightarrow> distinct (map name (chain st')) \<and> grows (chain st) (chain st')"
  proof (rule map_loop_rel [OF _ _ _ assms(1)])
    fix hs i cur st st' len
    assume li: "i < length (chain st)" and mw: "mapWorker hs i cur st = ret (st', len)"
    show "distinct (map name (chain st)) \<longrightarrow> distinct (map name (chain st')) \<and> grows (chain st) (chain st')"
      using mapWorker_chain [OF mw li] by simp
  qed (simp, blast intro: grows_trans)
  then show ?thesis using assms(2) by simp
qed

text \<open>
  The chain a successful \<open>mapWorker\<close> returns: record \<open>li\<close> replaced by
  its mapped, indexed record with the new search list, and fresh records
  appended; slot 0 of the search list is set, slots 2 and above are not.
\<close>

lemma mapWorker_shape:
  assumes mw: "mapWorker hs li a st = ret (st', len)" and li: "li < length (chain st)"
  obtains lib3 ys sl where
    "chain st' = ((chain st)[li := lib3] @ ys)[li := lib3\<lparr>search_list := Some (sl[0 := Some li])\<rparr>]"
    "name lib3 = name (chain st ! li)" "addr lib3 = a"
    "length (dyn_info lib3) = length (dyn_info (chain st ! li))" "\<forall>l\<in>set ys. unmapped l"
    "0 < length sl" "\<forall>k. 2 \<le> k \<longrightarrow> k < length sl \<longrightarrow> sl ! k = None"
    "fake lib3 = fake (chain st ! li)" "\<exists>s. len = ALIGN_UP s (page_size hs)"
proof -
  obtain bs phs m1 lib1 m2 lib2 lib3 strtab rp nn ch1 sl where
    s1: "mapSegment hs (memory st) ((chain st ! li)\<lparr>addr := a\<rparr>) phs a bs = ret (m1, lib1, len)"
    and s2: "fill_info m1 lib1 = ret (m2, lib2)" and s3: "setup_hash m2 lib2 = ret lib3"
    and nl: "need_loop hs m2 strtab rp (name lib3) nn (dyn lib3)
               ((chain st)[li := lib3], replicate (Suc nn) None) = ret (ch1, sl)"
    and st': "st' = \<lparr>memory = m2, chain = ch1[li := (ch1 ! li)\<lparr>search_list := Some (sl[0 := Some li])\<rparr>]\<rparr>"
    by (rule mapWorker_ret [OF mw])
  obtain ys where ch1: "ch1 = (chain st)[li := lib3] @ ys" and ys: "\<forall>l\<in>set ys. unmapped l"
    using need_loop_appends [OF nl] by auto
  have "ch1 ! li = lib3" using ch1 li by (simp add: nth_append)
  moreover have "length sl = Suc nn" "\<forall>k. k \<noteq> 1 \<longrightarrow> sl ! k = replicate (Suc nn) None ! k"
    using need_loop_slots [OF nl] by simp_all
  moreover have "name lib3 = name (chain st ! li)" "addr lib3 = a"
    "length (dyn_info lib3) = length (dyn_info (chain st ! li))" "fake lib3 = fake (chain st ! li)"
    "\<exists>s. len = ALIGN_UP s (page_size hs)"
    using mapSegment_keeps [OF s1] fill_info_keeps [OF s2] setup_hash_keeps [OF s3] by simp_all
  ultimately show ?thesis using that [of lib3 ys sl] st' ch1 ys by auto
qed

lemma need_loop_none: "need_loop hs m strtab rp ln 0 p cs = ret cs"
  by (subst need_loop.simps) simp

lemma map_loop_step:
  "i < length (chain st) \<Longrightarrow> mapWorker hs i cur st = ret (st', len) \<Longrightarrow>
     map_loop hs (Suc i) (cur + len) st' = r \<Longrightarrow> map_loop hs i cur st = r"
  by (subst map_loop.simps) simp

text \<open>
  An invariant \<open>I i cur st\<close> of the mapping loop, indexed by the next
  record to map and the next base, that every \<open>mapWorker\<close> step carries
  to \<open>I (i + 1) (cur + len)\<close>, holds at an index past the end of the final
  chain.
\<close>

lemma map_loop_inv:
  assumes step: "\<And>i cur st st' len. i < length (chain st) \<Longrightarrow> I i cur st \<Longrightarrow>
                   mapWorker hs i cur st = ret (st', len) \<Longrightarrow> I (Suc i) (cur + len) st'"
    and ret: "map_loop hs i cur st = ret st'" and I: "I i cur st"
  shows "\<exists>k c. length (chain st') \<le> k \<and> I k c st'"
proof -
  have "hs = hs \<longrightarrow> (\<forall>st'. r = Inr st' \<longrightarrow> I i cur st \<longrightarrow> (\<exists>k c. length (chain st') \<le> k \<and> I k c st'))"
    if "map_loop hs i cur st = Some r" for r
  proof (rule map_loop.raw_induct [where P = "\<lambda>hs' i cur st r. hs' = hs \<longrightarrow> (\<forall>st'. r = Inr st' \<longrightarrow> I i cur st \<longrightarrow>
                                                 (\<exists>k c. length (chain st') \<le> k \<and> I k c st'))", OF _ that])
    fix f hs' i cur st r
    assume IH: "\<And>hs' i cur st r. f hs' i cur st = Some r \<Longrightarrow> hs' = hs \<longrightarrow>
                  (\<forall>st'. r = Inr st' \<longrightarrow> I i cur st \<longrightarrow> (\<exists>k c. length (chain st') \<le> k \<and> I k c st'))"
      and eq: "(if i < length (chain st)
                then bindR (mapWorker hs' i cur st) (\<lambda>(st', len). f hs' (Suc i) (cur + len) st')
                else ret st) = Some r"
    show "hs' = hs \<longrightarrow> (\<forall>st'. r = Inr st' \<longrightarrow> I i cur st \<longrightarrow> (\<exists>k c. length (chain st') \<le> k \<and> I k c st'))"
    proof (intro allI impI)
      fix st' assume h: "hs' = hs" and r: "r = Inr st'" and Ii: "I i cur st"
      show "\<exists>k c. length (chain st') \<le> k \<and> I k c st'"
      proof (cases "i < length (chain st)")
        case False
        then have "ret st = (ret st' :: ld_state res)" using eq r by (simp add: ret_def)
        then show ?thesis using False Ii by (intro exI [of _ i] exI [of _ cur]) simp
      next
        case True
        then have "bindR (mapWorker hs i cur st) (\<lambda>(st', len). f hs (Suc i) (cur + len) st') = ret st'"
          using eq r h by (simp add: ret_def)
        then obtain p1 where p1: "mapWorker hs i cur st = ret p1"
          and "(case p1 of (st', len) \<Rightarrow> f hs (Suc i) (cur + len) st') = ret st'"
          unfolding bindR_eq_ret by blast
        then obtain st1 len where s1: "mapWorker hs i cur st = ret (st1, len)"
          and s2: "f hs (Suc i) (cur + len) st1 = ret st'"
          by (cases p1) simp
        show ?thesis using IH [OF s2 [unfolded ret_def]] step [OF True Ii s1] by simp
      qed
    qed
  qed
  then show ?thesis using ret I unfolding ret_def by blast
qed

text \<open>The loop of a successful \<open>mapLibrary\<close>, from its one-record chain.\<close>

lemma mapLibrary_loop:
  assumes "mapLibrary hs m nm a = ret st"
  obtains fp where "map_loop hs 0 a \<lparr>memory = m, chain = [new_library nm fp]\<rparr> = ret st"
  using assms by (auto simp: mapLibrary_def bindR_eq_ret split: option.splits)

text \<open>Records below \<open>k\<close> have been mapped; every record has a full index.\<close>

lemma mapWorker_records:
  assumes mw: "mapWorker hs i cur st = ret (st', len)" and i: "i < length (chain st)"
    and inv: "\<forall>j < length (chain st). (j < i \<longrightarrow> search_list (chain st ! j) \<noteq> None) \<and>
                                     length (dyn_info (chain st ! j)) = DT_NUM + OS_SPECIFIC_FLAG"
  shows "\<forall>j < length (chain st'). (j < Suc i \<longrightarrow> search_list (chain st' ! j) \<noteq> None) \<and>
                                 length (dyn_info (chain st' ! j)) = DT_NUM + OS_SPECIFIC_FLAG"
proof -
  obtain lib3 ys sl where
    c: "chain st' = ((chain st)[i := lib3] @ ys)[i := lib3\<lparr>search_list := Some (sl[0 := Some i])\<rparr>]"
    and d: "length (dyn_info lib3) = length (dyn_info (chain st ! i))" and ys: "\<forall>l\<in>set ys. unmapped l"
    by (rule mapWorker_shape [OF mw i])
  show ?thesis
  proof (intro allI impI)
    fix j assume j: "j < length (chain st')"
    show "(j < Suc i \<longrightarrow> search_list (chain st' ! j) \<noteq> None) \<and>
          length (dyn_info (chain st' ! j)) = DT_NUM + OS_SPECIFIC_FLAG"
    proof (cases "j < length (chain st)")
      case True
      then show ?thesis using inv i d c by (auto simp: nth_append nth_list_update)
    next
      case False
      then have "chain st' ! j \<in> set ys" using j i c by (auto simp: nth_append)
      then show ?thesis using False i ys by (auto simp: unmapped_def)
    qed
  qed
qed

text \<open>
  C22: after \<open>mapLibrary\<close> succeeds, the chain names every library at most
  once, and its first record is the library that was asked for.
\<close>

theorem mapLibrary_registry:
  assumes "mapLibrary hs m nm a = ret st"
  shows "distinct (map name (chain st)) \<and> (\<exists>ys. map name (chain st) = nm # ys)"
proof -
  obtain fp where "map_loop hs 0 a \<lparr>memory = m, chain = [new_library nm fp]\<rparr> = ret st"
    using assms by (auto simp: mapLibrary_def bindR_eq_ret split: option.splits)
  from map_loop_chain [OF this]
  have "distinct (map name (chain st)) \<and> grows [new_library nm fp] (chain st)"
    by simp
  then show ?thesis by (simp add: grows_def new_library_def)
qed

text \<open>
  C23: the search list \<open>mapWorker\<close> leaves on the record it mapped has the
  record itself in slot 0 and nothing in slots 2 and above: every
  dependency is written to slot 1, so only the last \<open>DT_NEEDED\<close> entry
  is searched.
\<close>

theorem mapWorker_search_list:
  assumes mw: "mapWorker hs li a st = ret (st', len)" and li: "li < length (chain st)"
  shows "\<exists>sl. search_list (chain st' ! li) = Some sl \<and> sl ! 0 = Some li \<and>
               (\<forall>k. 2 \<le> k \<longrightarrow> k < length sl \<longrightarrow> sl ! k = None)"
proof -
  obtain lib3 ys sl where
    c: "chain st' = ((chain st)[li := lib3] @ ys)[li := lib3\<lparr>search_list := Some (sl[0 := Some li])\<rparr>]"
    and "0 < length sl" and "\<forall>k. 2 \<le> k \<longrightarrow> k < length sl \<longrightarrow> sl ! k = None"
    by (rule mapWorker_shape [OF mw li])
  then show ?thesis using li by (intro exI [of _ "sl[0 := Some li]"]) (simp add: c nth_append)
qed

text \<open>
  C24: \<open>mapWorker\<close> places the record it maps at the base it was given
  and leaves every other record of the chain as it was; the records of new
  dependencies are appended after them.
\<close>

theorem mapWorker_frame:
  assumes mw: "mapWorker hs li a st = ret (st', len)" and li: "li < length (chain st)"
  shows "addr (chain st' ! li) = a \<and> length (chain st) \<le> length (chain st') \<and>
         (\<forall>j < length (chain st). j \<noteq> li \<longrightarrow> chain st' ! j = chain st ! j)"
proof -
  obtain lib3 ys sl where
    c: "chain st' = ((chain st)[li := lib3] @ ys)[li := lib3\<lparr>search_list := Some (sl[0 := Some li])\<rparr>]"
    and "addr lib3 = a"
    by (rule mapWorker_shape [OF mw li])
  then show ?thesis using li by (auto simp: c nth_append)
qed

text \<open>
  C27: every record of the chain \<open>mapLibrary\<close> returns has been through
  \<open>mapWorker\<close> (its search list is set, delegated records included) and
  has an index of the \<open>DT_NUM + OS_SPECIFIC_FLAG\<close> slots of
  \<^verbatim>\<open>library.h\<close>, so every slot \<open>fill_info\<close> selects is inside it.
\<close>

theorem mapLibrary_records:
  assumes "mapLibrary hs m nm a = ret st"
  shows "\<forall>l\<in>set (chain st). search_list l \<noteq> None \<and> length (dyn_info l) = DT_NUM + OS_SPECIFIC_FLAG"
proof -
  obtain fp where ml: "map_loop hs 0 a \<lparr>memory = m, chain = [new_library nm fp]\<rparr> = ret st"
    by (rule mapLibrary_loop [OF assms])
  have "\<exists>k (c :: addr). length (chain st) \<le> k \<and>
          (\<forall>j < length (chain st). (j < k \<longrightarrow> search_list (chain st ! j) \<noteq> None) \<and>
                                 length (dyn_info (chain st ! j)) = DT_NUM + OS_SPECIFIC_FLAG)"
  proof (rule map_loop_inv [where I = "\<lambda>k c st. \<forall>j < length (chain st). (j < k \<longrightarrow> search_list (chain st ! j) \<noteq> None) \<and>
                                 length (dyn_info (chain st ! j)) = DT_NUM + OS_SPECIFIC_FLAG", OF _ ml])
    fix i cur st st' len
    assume "i < length (chain st)"
      and "\<forall>j < length (chain st). (j < i \<longrightarrow> search_list (chain st ! j) \<noteq> None) \<and>
                                   length (dyn_info (chain st ! j)) = DT_NUM + OS_SPECIFIC_FLAG"
      and "mapWorker hs i cur st = ret (st', len)"
    then show "\<forall>j < length (chain st'). (j < Suc i \<longrightarrow> search_list (chain st' ! j) \<noteq> None) \<and>
                                       length (dyn_info (chain st' ! j)) = DT_NUM + OS_SPECIFIC_FLAG"
      by (intro mapWorker_records)
  qed simp
  then obtain k where "length (chain st) \<le> k"
    and "\<forall>j < length (chain st). (j < k \<longrightarrow> search_list (chain st ! j) \<noteq> None) \<and>
                                length (dyn_info (chain st ! j)) = DT_NUM + OS_SPECIFIC_FLAG"
    by blast
  then show ?thesis by (auto simp: in_set_conv_nth)
qed

lemma mapWorker_root:
  assumes mw: "mapWorker hs li a st = ret (st', len)" and li: "li < length (chain st)"
  shows "chain st' \<noteq> [] \<and> fake (chain st' ! 0) = fake (chain st ! 0)"
proof -
  obtain lib3 ys sl where
    c: "chain st' = ((chain st)[li := lib3] @ ys)[li := lib3\<lparr>search_list := Some (sl[0 := Some li])\<rparr>]"
    and f: "fake lib3 = fake (chain st ! li)"
    by (rule mapWorker_shape [OF mw li])
  show ?thesis using li f by (cases li) (auto simp: c nth_append)
qed

lemma mapLibrary_root:
  assumes "mapLibrary hs m nm a = ret st"
  shows "chain st \<noteq> [] \<and> \<not> fake (chain st ! 0)"
proof -
  obtain fp where ml: "map_loop hs 0 a \<lparr>memory = m, chain = [new_library nm fp]\<rparr> = ret st"
    by (rule mapLibrary_loop [OF assms])
  have "chain \<lparr>memory = m, chain = [new_library nm fp]\<rparr> \<noteq> [] \<and>
          \<not> fake (chain \<lparr>memory = m, chain = [new_library nm fp]\<rparr> ! 0) \<longrightarrow>
        chain st \<noteq> [] \<and> \<not> fake (chain st ! 0)"
    by (rule map_loop_rel [OF _ _ _ ml]) (auto dest: mapWorker_root)
  then show ?thesis by (simp add: new_library_def)
qed



lemma mapWorker_self_slot1:
  assumes mw: "mapWorker hs i cur st = ret (st', len)" and i: "i < length (chain st)"
    and inv: "\<forall>j < length (chain st). j < i \<longrightarrow> self_slot1 (chain st ! j) j"
  shows "\<forall>j < length (chain st'). j < Suc i \<longrightarrow> self_slot1 (chain st' ! j) j"
proof -
  obtain lib3 ys sl where
    c: "chain st' = ((chain st)[i := lib3] @ ys)[i := lib3\<lparr>search_list := Some (sl[0 := Some i])\<rparr>]"
    and "0 < length sl" and "\<forall>k. 2 \<le> k \<longrightarrow> k < length sl \<longrightarrow> sl ! k = None"
    by (rule mapWorker_shape [OF mw i])
  then have "self_slot1 (lib3\<lparr>search_list := Some (sl[0 := Some i])\<rparr>) i"
    by (simp add: self_slot1_def)
  then show ?thesis using inv i by (auto simp: c nth_append nth_list_update less_Suc_eq)
qed


text \<open>
  C18: no record the loader maps can search more than one of its
  dependencies.  After \<open>mapLibrary\<close> succeeds, record \<open>j\<close> of the chain
  (root, dependency or delegated record alike) has itself in slot 0 of its
  search list and no entry from slot 2 on: however many \<open>DT_NEEDED\<close>
  entries a library has, at most one of them is in its search list.
\<close>

theorem mapLibrary_search_lists:
  assumes "mapLibrary hs m nm a = ret st"
  shows "\<forall>j < length (chain st). \<exists>sl. search_list (chain st ! j) = Some sl \<and> sl ! 0 = Some j \<and>
                                       (\<forall>k. 2 \<le> k \<longrightarrow> k < length sl \<longrightarrow> sl ! k = None)"
proof -
  obtain fp where ml: "map_loop hs 0 a \<lparr>memory = m, chain = [new_library nm fp]\<rparr> = ret st"
    by (rule mapLibrary_loop [OF assms])
  have "\<exists>k (c :: addr). length (chain st) \<le> k \<and> (\<forall>j < length (chain st). j < k \<longrightarrow> self_slot1 (chain st ! j) j)"
    by (rule map_loop_inv [where I = "\<lambda>k c st. \<forall>j < length (chain st). j < k \<longrightarrow> self_slot1 (chain st ! j) j",
                           OF _ ml]) (auto intro: mapWorker_self_slot1 [rule_format])
  then show ?thesis by (auto simp: self_slot1_def)
qed

text \<open>
  C25: \<open>openLibrary\<close> relocates the root record it mapped, which is never
  delegated, and \<open>relocRela\<close> reads its \<open>DT_RELA\<close> index slot without a
  check.  When that slot is empty (by C10, when the root's dynamic array
  has no \<open>DT_RELA\<close> entry), the whole call is a NULL dereference.
\<close>

theorem openLibrary_no_rela:
  assumes "mapLibrary hs m nm a = ret st" and "dyn_info (chain st ! 0) ! DT_RELA = 0"
  shows "openLibrary hs m nm mode a = fail NullDeref"
  using assms mapLibrary_root [OF assms(1)]
  by (simp add: openLibrary_def relocLibrary_def relocRela_def dyn_val_def Let_def)


end
