(* ===== verification/LoaderRun.thy ===== *)
theory LoaderRun
  imports Loader
begin

text \<open>
  The loader run end to end on the two-file fixture of \<open>Fixture\<close>:
  \<open>mapLibrary\<close> of \<^verbatim>\<open>/t/libroot.so\<close> at \<open>0x100000\<close> on an all-zero
  memory.  The run is computed by rewriting, one \<open>mapWorker\<close> at a time:
  the headers, the mapped image (\<open>fxl_mapSegment\<close>), the indexed and
  rebased dynamic section (\<open>fxl_root_fill\<close>, \<open>fxl_leaf_fill\<close>), the
  hash-table fields, the \<open>DT_NEEDED\<close> walk (\<open>fxl_root_deps\<close>), and the
  \<open>map_loop\<close> that places the three records one page apart.  The named
  intermediate states are the memories and records after each stage.  The
  witnesses of the loader's claims (C18, C22 to C27) are at the end: each
  applies the general theorem of \<open>Loader\<close> to this run.
\<close>


definition fxl_root_info :: "addr list" where
  "fxl_root_info = (replicate 40 0)[1 := 0x1000C0, 5 := 0x1000D0, 39 := 0x1000E0]"

definition fxl_lib_root :: library where
  "fxl_lib_root = (new_library ''/t/libroot.so'' ''/t/libroot.so'')
     \<lparr>addr := 0x100000, dyn := 0x1000B0, dyn_num := 5,
      dyn_info := fxl_root_info,
      l_nbuckets := 1, l_gnu_bitmask_idxbits := 0, l_gnu_shift := 6,
      l_gnu_bitmask := 0x100030, l_gnu_buckets := 0x100038, l_gnu_chain_zero := 0x100038\<rparr>"

definition fxl_dep1 :: library where
  "fxl_dep1 = (new_library ''libc.so.6'' ''/usr/lib/x86_64-linux-gnu/libc.so.6'')\<lparr>fake := True\<rparr>"

definition fxl_dep2 :: library where
  "fxl_dep2 = (new_library ''ld-linux.so.2'' ''/lib/x86_64-linux-gnu/ld-linux.so.2'')\<lparr>fake := True\<rparr>"

definition fxl_st0 :: ld_state where
  "fxl_st0 = \<lparr>memory = (\<lambda>_. 0), chain = [new_library ''/t/libroot.so'' ''/t/libroot.so'']\<rparr>"

definition fxl_leaf_info :: "addr \<Rightarrow> addr list" where
  "fxl_leaf_info a = (replicate 40 0)[5 := 0xB0 + a, 39 := 0xC0 + a]"

definition fxl_leaf_mem :: "mem \<Rightarrow> addr \<Rightarrow> mem" where
  "fxl_leaf_mem m a = store_u64 (store_u64 (map_file m a 0x1000 fxl_leaf 0) (0xB8 + a) a) (0xC8 + a) (0x20 + a)"

definition fxl_leaf_lib :: "library \<Rightarrow> addr \<Rightarrow> library" where
  "fxl_leaf_lib l a = l\<lparr>addr := a, dyn := 0xB0 + a, dyn_num := 5, dyn_info := fxl_leaf_info a,
     l_nbuckets := 1, l_gnu_bitmask_idxbits := 0, l_gnu_shift := 6,
     l_gnu_bitmask := 0x30 + a, l_gnu_buckets := 0x38 + a, l_gnu_chain_zero := 0x38 + a\<rparr>"

definition fxl_m2 :: mem where
  "fxl_m2 = store_u64 (store_u64 (map_file (\<lambda>_. 0) 0x100000 0x1000 fxl_root 0) 0x1000D8 0x100000) 0x1000E8 0x100020"

definition fxl_st1 :: ld_state where
  "fxl_st1 = \<lparr>memory = fxl_m2, chain = [fxl_lib_root\<lparr>search_list := Some [Some 0, Some 2, None]\<rparr>, fxl_dep1, fxl_dep2]\<rparr>"

definition fxl_st2 :: ld_state where
  "fxl_st2 = \<lparr>memory = fxl_leaf_mem fxl_m2 0x101000,
              chain = [fxl_lib_root\<lparr>search_list := Some [Some 0, Some 2, None]\<rparr>,
                       (fxl_leaf_lib fxl_dep1 0x101000)\<lparr>search_list := Some [Some 1]\<rparr>, fxl_dep2]\<rparr>"

definition fxl_final :: ld_state where
  "fxl_final = \<lparr>memory = fxl_leaf_mem (fxl_leaf_mem fxl_m2 0x101000) 0x102000,
                chain = [fxl_lib_root\<lparr>search_list := Some [Some 0, Some 2, None]\<rparr>,
                         (fxl_leaf_lib fxl_dep1 0x101000)\<lparr>search_list := Some [Some 1]\<rparr>,
                         (fxl_leaf_lib fxl_dep2 0x102000)\<lparr>search_list := Some [Some 2]\<rparr>]\<rparr>"


lemma fxl_headers:
  "read_headers (Some fxl_root) nm = ret (fxl_root, fxl_phs)"
  "read_headers (Some fxl_leaf) nm = ret (fxl_leaf, fxl_phs)"
  by (simp_all add: read_headers_def e_phnum_def file_le_def le_word_def parse_phdr_def
                    fxl_root_def fxl_leaf_def fxl_phs_def upt_rec)

lemma fxl_host_simps [simp]: "page_size fxl_host = 0x1000" "mmap_ok fxl_host b n"
  by (simp_all add: fxl_host_def fx_host_def)

lemma fxl_mapSegment:
  "mapSegment fxl_host m l fxl_phs a bs =
     ret (map_file m a 0x1000 bs 0, l\<lparr>dyn := 0xB0 + a, dyn_num := 5\<rparr>, 0x1000)"
proof -
  have lp: "load_phdrs fxl_phs \<noteq> []" "map_span 0x1000 fxl_phs = 0x100"
    "map (mk_loadcmd 0x1000) (load_phdrs fxl_phs) =
       [\<lparr>mapstart = 0, mapend = 0x1000, dataend = 0x100, allocend = 0x100, mapoff = 0, prot = prot_of 6\<rparr>]"
    "ALIGN_UP 0x100 0x1000 = 0x1000"
    by (simp_all add: load_phdrs_def fxl_phs_def map_span_def mk_loadcmd_def ALIGN_DOWN_def ALIGN_UP_def)
  have "fst (foldl (ph_step 0x1000 a) (l, []) fxl_phs) = l\<lparr>dyn := 0xB0 + a, dyn_num := 5\<rparr>"
    by (simp add: fxl_phs_def ph_step_def)
  then show ?thesis
    using mapSegment_eq [OF lp(1), of fxl_host m l a bs] lp
    by (simp add: seg_map_def mmap_file_def map_file_shadow mk_loadcmd_def fxl_phs_def load_phdrs_def
                  ALIGN_DOWN_def)
qed


lemmas fxl_read = load_u64_map_file [where len = "0x1000"] map_file_byte [where len = "0x1000"]
  file_le_def le_word_def fxl_root_def fxl_leaf_def

lemma unat_minus_one_u64: "unat (- 1 :: u64) = 18446744073709551615"
  by (simp add: unsigned_minus_1_eq_mask mask_eq_exp_minus_1)

lemmas fxl_m2_simps = unat_minus_one_u64 fxl_m2_def store_u64_def store_bytes_def map_file_def file_byte_def fxl_root_def
  load_u64_def load_u32_def bytes_at_def le_word_def upt_rec

lemma fxl_m2_tags:
  "d_tag fxl_m2 0x1000B0 = 1" "d_tag fxl_m2 0x1000C0 = 1" "d_tag fxl_m2 0x1000D0 = 5"
  "d_tag fxl_m2 0x1000E0 = 0x6ffffef5" "d_tag fxl_m2 0x1000F0 = 0"
  "d_un fxl_m2 0x1000B0 = 8" "d_un fxl_m2 0x1000C0 = 18"
  by (simp_all add: d_tag_def d_un_def fxl_m2_simps)

lemma fxl_m2_rebased: "d_un fxl_m2 0x1000D0 = 0x100000" "d_un fxl_m2 0x1000E0 = 0x100020"
  by (simp_all add: d_un_def fxl_m2_def load_u64_store_u64_other disjoint_def)

lemma fxl_m2_hash:
  "load_u32 fxl_m2 0x100020 = 1" "load_u32 fxl_m2 0x100024 = 1" "load_u32 fxl_m2 0x100028 = 1" "load_u32 fxl_m2 0x10002C = 6"
  by (simp_all add: fxl_m2_simps)

lemma fxl_m2_names:
  "read_cstr fxl_m2 0x100008 = Some ''libc.so.6''" "read_cstr fxl_m2 0x100012 = Some ''ld-linux.so.2''"
  by (rule cstr_eq_read_cstr; simp add: fxl_m2_simps)+


lemma fxl_root_fill:
  "fill_info (map_file (\<lambda>_. 0) 0x100000 0x1000 fxl_root 0)
     ((new_library nm f)\<lparr>addr := 0x100000, dyn := 0x1000B0, dyn_num := 5\<rparr>) =
   ret (fxl_m2, (new_library nm f)\<lparr>addr := 0x100000, dyn := 0x1000B0, dyn_num := 5,
                  dyn_info := fxl_root_info\<rparr>)"
proof -
  let ?m = "map_file (\<lambda>_. 0) 0x100000 0x1000 fxl_root 0"
  have t: "\<forall>k<4. d_tag ?m (0x1000B0 + word_of_nat (16 * k)) \<noteq> 0"
  proof (intro allI impI)
    fix k :: nat assume "k < 4"
    then have "k = 0 \<or> k = 1 \<or> k = 2 \<or> k = 3" by arith
    then show "d_tag ?m (0x1000B0 + word_of_nat (16 * k)) \<noteq> 0"
      by (elim disjE) (simp_all add: d_tag_def fxl_read)
  qed
  have z: "d_tag ?m (0x1000B0 + word_of_nat (16 * 4)) = 0"
    by (simp add: d_tag_def fxl_read)
  have d: "d_un ?m 0x1000D0 = 0" "d_un (store_u64 ?m 0x1000D8 0x100000) 0x1000E0 = 0x20"
    by (simp_all add: d_un_def fxl_read load_u64_store_u64_other disjoint_def)
  have u: "foldl (dyn_upd ?m 0x1000B0) (replicate 40 0) [0..<4] =
             fxl_root_info"
    by (simp add: fxl_root_info_def dyn_upd_def upt_rec d_tag_def fxl_read slot_of_def)
  show ?thesis
    using fill_info_scan [of "(new_library nm f)\<lparr>addr := 0x100000, dyn := 0x1000B0, dyn_num := 5\<rparr>" 4 ?m] t z
    by (simp add: new_library_def u rebased_tags_def rebase_def d fxl_m2_def fxl_root_info_def)
qed

lemma fxl_root_hash:
  "setup_hash fxl_m2 ((new_library ''/t/libroot.so'' ''/t/libroot.so'')\<lparr>addr := 0x100000, dyn := 0x1000B0, dyn_num := 5,
                  dyn_info := fxl_root_info\<rparr>) = ret fxl_lib_root"
  by (simp add: fxl_root_info_def setup_hash_def dyn_val_def fxl_m2_rebased fxl_m2_hash fxl_lib_root_def)

lemma fxl_root_count: "count_needed fxl_m2 0x1000B0 0 = Some 2"
  by (subst count_needed.simps, simp add: fxl_m2_tags)+

lemma replicate_2: "replicate 2 x = [x, x]"
  by (simp add: numeral_2_eq_2)

lemma fxl_root_deps:
  "need_loop fxl_host fxl_m2 0x100000 None ''/t/libroot.so'' 2 0x1000B0 ([fxl_lib_root], None # replicate 2 None) =
     ret ([fxl_lib_root, fxl_dep1, fxl_dep2], [None, Some 2, None])"
  by (subst need_loop.simps,
      simp add: fxl_m2_tags need_step_def cstr_res_def fxl_m2_names isLibraryOpen_def fxl_lib_root_def
                new_library_def fxl_dep1_def fxl_dep2_def openDep_def openFile_def sys_path_def fopen_def
                fxl_host_def fxl_files_def doFakeLoad_def fake_so_def replicate_2)+


lemma fxl_lib_root_fields:
  "dyn fxl_lib_root = 0x1000B0" "dyn_info fxl_lib_root ! 5 = 0x1000D0" "dyn_info fxl_lib_root ! 29 = 0"
  "name fxl_lib_root = ''/t/libroot.so''"
  by (simp_all add: fxl_lib_root_def new_library_def fxl_root_info_def)

lemma fxl_files_simps:
  "files fxl_host ''/t/libroot.so'' = Some fxl_root"
  "files fxl_host ''/usr/lib/x86_64-linux-gnu/libc.so.6'' = Some fxl_leaf"
  "files fxl_host ''/lib/x86_64-linux-gnu/ld-linux.so.2'' = Some fxl_leaf"
  by (simp_all add: fxl_host_def fx_host_def fxl_files_def)

lemma new_library_sel: "name (new_library n f) = n" "fs (new_library n f) = f"
  by (simp_all add: new_library_def)

lemma fxl_mw0:
  "mapWorker fxl_host 0 0x100000 fxl_st0 =
     ret (fxl_st1, 0x1000)"
  by (simp add: mapWorker_def fxl_st0_def fxl_st1_def new_library_sel fxl_files_simps fxl_headers fxl_mapSegment fxl_root_fill
                fxl_root_hash dyn_val_def runpath_of_def fxl_lib_root_fields fxl_m2_rebased fxl_root_count
                fxl_root_deps)


lemmas fxl_leaf_simps = unat_minus_one_u64 fxl_leaf_mem_def store_u64_def store_bytes_def map_file_def
  file_byte_def fxl_leaf_def load_u64_def load_u32_def bytes_at_def le_word_def upt_rec

lemma fxl_leaf_fill:
  assumes a: "a = 0x101000 \<or> a = 0x102000" and di: "dyn_info l = replicate 40 0"
  shows "fill_info (map_file m a 0x1000 fxl_leaf 0) (l\<lparr>addr := a, dyn := 0xB0 + a, dyn_num := 5\<rparr>) =
           ret (fxl_leaf_mem m a, l\<lparr>addr := a, dyn := 0xB0 + a, dyn_num := 5, dyn_info := fxl_leaf_info a\<rparr>)"
proof -
  let ?m = "map_file m a 0x1000 fxl_leaf 0"
  have t: "\<forall>k<2. d_tag ?m (0xB0 + a + word_of_nat (16 * k)) \<noteq> 0"
  proof (intro allI impI)
    fix k :: nat assume "k < 2"
    then have "k = 0 \<or> k = 1" by arith
    then show "d_tag ?m (0xB0 + a + word_of_nat (16 * k)) \<noteq> 0"
      using a by (elim disjE) (simp_all add: d_tag_def fxl_read)
  qed
  have z: "d_tag ?m (0xB0 + a + word_of_nat (16 * 2)) = 0"
    using a by (elim disjE) (simp_all add: d_tag_def fxl_read)
  have u: "foldl (dyn_upd ?m (0xB0 + a)) (replicate 40 0) [0..<2] = fxl_leaf_info a"
    using a by (elim disjE) (simp_all add: fxl_leaf_info_def dyn_upd_def upt_rec d_tag_def fxl_read slot_of_def)
  have e: "fold (rebase (l\<lparr>addr := a, dyn := 0xB0 + a, dyn_num := 5, dyn_info := fxl_leaf_info a\<rparr>)) rebased_tags ?m =
             fxl_leaf_mem m a"
    using a by (elim disjE) (simp_all add: fxl_leaf_info_def rebased_tags_def rebase_def fxl_leaf_mem_def
                                          d_un_def fxl_read load_u64_store_u64_other disjoint_def)
  show ?thesis
    using fill_info_scan [of "l\<lparr>addr := a, dyn := 0xB0 + a, dyn_num := 5\<rparr>" 2 ?m] t z a u e di
    by auto
qed


lemma fxl_leaf_hash_reads:
  assumes a: "a = 0x101000 \<or> a = 0x102000"
  shows "load_u32 (fxl_leaf_mem m a) (0x20 + a) = 1" "load_u32 (fxl_leaf_mem m a) (0x24 + a) = 1"
    "load_u32 (fxl_leaf_mem m a) (0x28 + a) = 1" "load_u32 (fxl_leaf_mem m a) (0x2C + a) = 6"
  using a by (elim disjE) (simp_all add: fxl_leaf_simps)

lemma fxl_leaf_rebased:
  assumes a: "a = 0x101000 \<or> a = 0x102000"
  shows "d_un (fxl_leaf_mem m a) (0xB0 + a) = a" "d_un (fxl_leaf_mem m a) (0xC0 + a) = 0x20 + a"
  using a by (elim disjE) (simp_all add: d_un_def fxl_leaf_mem_def load_u64_store_u64_other disjoint_def)

lemma fxl_leaf_hash:
  assumes a: "a = 0x101000 \<or> a = 0x102000"
  shows "setup_hash (fxl_leaf_mem m a) (l\<lparr>addr := a, dyn := 0xB0 + a, dyn_num := 5, dyn_info := fxl_leaf_info a\<rparr>) =
           ret (fxl_leaf_lib l a)"
proof -
  have i: "fxl_leaf_info a ! 39 = 0xC0 + a" "0xC0 + a \<noteq> 0"
    using a by (auto simp: fxl_leaf_info_def)
  show ?thesis
    by (simp add: setup_hash_def dyn_val_def i fxl_leaf_hash_reads [OF a] fxl_leaf_rebased [OF a] fxl_leaf_lib_def)
qed

lemma fxl_leaf_tags:
  assumes a: "a = 0x101000 \<or> a = 0x102000"
  shows "d_tag (fxl_leaf_mem m a) (0xB0 + a) = 5" "d_tag (fxl_leaf_mem m a) (0xC0 + a) = 0x6ffffef5"
    "d_tag (fxl_leaf_mem m a) (0xD0 + a) = 0"
  using a by (elim disjE) (simp_all add: d_tag_def fxl_leaf_simps)

lemma fxl_leaf_count:
  assumes a: "a = 0x101000 \<or> a = 0x102000"
  shows "count_needed (fxl_leaf_mem m a) (0xB0 + a) 0 = Some 0"
  by (subst count_needed.simps, simp add: fxl_leaf_tags [OF a])+

lemma fxl_leaf_mw:
  assumes a: "a = 0x101000 \<or> a = 0x102000" and li: "li < length (chain st)"
    and f: "files fxl_host (fs (chain st ! li)) = Some fxl_leaf" and di: "dyn_info (chain st ! li) = replicate 40 0"
  shows "mapWorker fxl_host li a st =
           ret (\<lparr>memory = fxl_leaf_mem (memory st) a,
                 chain = (chain st)[li := (fxl_leaf_lib (chain st ! li) a)\<lparr>search_list := Some [Some li]\<rparr>]\<rparr>, 0x1000)"
proof -
  have r: "read_headers (files fxl_host (fs (chain st ! li))) n = ret (fxl_leaf, fxl_phs)" for n
    using f fxl_headers by simp
  have l: "dyn (fxl_leaf_lib l a) = 0xB0 + a" "dyn_info (fxl_leaf_lib l a) ! 5 = 0xB0 + a"
    "0xB0 + a \<noteq> 0" "dyn_info (fxl_leaf_lib l a) ! 29 = 0" for l
    using a by (auto simp: fxl_leaf_lib_def fxl_leaf_info_def)
  show ?thesis
    using li di
    by (simp add: mapWorker_def Let_def r fxl_mapSegment fxl_leaf_fill [OF a] fxl_leaf_hash [OF a] l
                  dyn_val_def runpath_of_def fxl_leaf_rebased [OF a] fxl_leaf_count [OF a] need_loop_none)
qed

lemma fxl_dep_fields:
  "fs fxl_dep1 = ''/usr/lib/x86_64-linux-gnu/libc.so.6''" "fs fxl_dep2 = ''/lib/x86_64-linux-gnu/ld-linux.so.2''"
  "dyn_info fxl_dep1 = replicate 40 0" "dyn_info fxl_dep2 = replicate 40 0"
  by (simp_all add: fxl_dep1_def fxl_dep2_def new_library_def)

lemma fxl_mw1: "mapWorker fxl_host 1 0x101000 fxl_st1 = ret (fxl_st2, 0x1000)"
  using fxl_leaf_mw [of "0x101000" 1 fxl_st1] by (simp add: fxl_st1_def fxl_st2_def fxl_dep_fields fxl_files_simps)

lemma fxl_mw2: "mapWorker fxl_host 2 0x102000 fxl_st2 = ret (fxl_final, 0x1000)"
  using fxl_leaf_mw [of "0x102000" 2 fxl_st2] by (simp add: fxl_st2_def fxl_final_def fxl_dep_fields fxl_files_simps)

lemma fxl_lengths: "length (chain fxl_st1) = 3" "length (chain fxl_st2) = 3" "length (chain fxl_final) = 3"
  "length (chain fxl_st0) = 1"
  by (simp_all add: fxl_st0_def fxl_st1_def fxl_st2_def fxl_final_def)

lemma fxl_mapLibrary: "mapLibrary fxl_host (\<lambda>_. 0) ''/t/libroot.so'' 0x100000 = ret fxl_final"
proof -
  have o: "openFile fxl_host ''/t/libroot.so'' = ret (Some ''/t/libroot.so'')"
    by (simp add: openFile_def fopen_def fxl_files_simps)
  have "map_loop fxl_host 3 0x103000 fxl_final = ret fxl_final"
    by (subst map_loop.simps) (simp add: fxl_lengths)
  then have "map_loop fxl_host 2 0x102000 fxl_st2 = ret fxl_final"
    by (intro map_loop_step [OF _ fxl_mw2]) (simp_all add: fxl_lengths numeral_3_eq_3)
  then have "map_loop fxl_host 1 0x101000 fxl_st1 = ret fxl_final"
    by (intro map_loop_step [OF _ fxl_mw1]) (simp_all add: fxl_lengths numeral_2_eq_2)
  then have "map_loop fxl_host 0 0x100000 fxl_st0 = ret fxl_final"
    by (intro map_loop_step [OF _ fxl_mw0]) (simp_all add: fxl_lengths)
  then show ?thesis by (simp add: mapLibrary_def o fxl_st0_def)
qed

text \<open>
  The result of the fixture's run: the root and both of its dependencies,
  one page each from the requested base (the two delegated records
  included: their files are mapped and indexed), and the root's search list
  is \<open>[0, 2, NULL]\<close>: the first dependency, \<open>libc.so.6\<close> (record 1), is not
  in it, and the slot that should hold the second dependency is left unset.
\<close>

lemma fxl_final_fields:
  "map name (chain fxl_final) = [''/t/libroot.so'', ''libc.so.6'', ''ld-linux.so.2''] \<and>
   map addr (chain fxl_final) = [0x100000, 0x101000, 0x102000] \<and>
   map dyn (chain fxl_final) = [0x1000B0, 0x1010B0, 0x1020B0] \<and>
   search_list (chain fxl_final ! 0) = Some [Some 0, Some 2, None] \<and>
   map fake (chain fxl_final) = [False, True, True]"
  by (simp add: fxl_final_def fxl_lib_root_def fxl_leaf_lib_def fxl_dep1_def fxl_dep2_def new_library_def)

lemma fxl_root_no_rela: "dyn_info (chain fxl_final ! 0) ! DT_RELA = 0"
  by (simp add: fxl_final_def fxl_lib_root_def fxl_root_info_def new_library_def)

text \<open>The search-list bound (C18) at the fixture's run.\<close>

theorem mapLibrary_search_lists_witness:
  "mapLibrary fxl_host (\<lambda>_. 0) ''/t/libroot.so'' 0x100000 = ret fxl_final \<and>
   (\<exists>sl. search_list (chain fxl_final ! 0) = Some sl \<and> sl ! 0 = Some 0 \<and> sl ! 2 = None)"
proof -
  have "\<forall>j < length (chain fxl_final). \<exists>sl. search_list (chain fxl_final ! j) = Some sl \<and> sl ! 0 = Some j \<and>
          (\<forall>k. 2 \<le> k \<longrightarrow> k < length sl \<longrightarrow> sl ! k = None)"
    by (rule mapLibrary_search_lists [OF fxl_mapLibrary])
  then obtain sl where "search_list (chain fxl_final ! 0) = Some sl" "sl ! 0 = Some 0"
      "\<forall>k. 2 \<le> k \<longrightarrow> k < length sl \<longrightarrow> sl ! k = None"
    using fxl_lengths by fastforce
  moreover have "sl = [Some 0, Some 2, None]" using calculation(1) fxl_final_fields by simp
  ultimately show ?thesis using fxl_mapLibrary by auto
qed

text \<open>The NULL \<open>DT_RELA\<close> dereference (C25) at the fixture's run.\<close>

theorem openLibrary_no_rela_witness:
  "mapLibrary fxl_host (\<lambda>_. 0) ''/t/libroot.so'' 0x100000 = ret fxl_final \<and>
   dyn_info (chain fxl_final ! 0) ! DT_RELA = 0 \<and>
   openLibrary fxl_host (\<lambda>_. 0) ''/t/libroot.so'' 0 0x100000 = fail NullDeref"
  using openLibrary_no_rela [OF fxl_mapLibrary fxl_root_no_rela, of 0] fxl_mapLibrary fxl_root_no_rela
  by simp


text \<open>The registry invariant (C22) at the fixture's run.\<close>

theorem mapLibrary_registry_witness:
  "mapLibrary fxl_host (\<lambda>_. 0) ''/t/libroot.so'' 0x100000 = ret fxl_final \<and>
   distinct (map name (chain fxl_final)) \<and> (\<exists>ys. map name (chain fxl_final) = ''/t/libroot.so'' # ys)"
  using mapLibrary_registry [OF fxl_mapLibrary] fxl_mapLibrary by simp

text \<open>The search-list holes (C23) at the root's \<open>mapWorker\<close>.\<close>

theorem mapWorker_search_list_witness:
  "mapWorker fxl_host 0 0x100000 fxl_st0 = ret (fxl_st1, 0x1000) \<and> 0 < length (chain fxl_st0) \<and>
   (\<exists>sl. search_list (chain fxl_st1 ! 0) = Some sl \<and> sl ! 0 = Some 0 \<and> sl ! 2 = None)"
  using mapWorker_search_list [OF fxl_mw0] fxl_mw0 by (simp add: fxl_lengths fxl_st1_def)

text \<open>The frame (C24) at the first dependency's \<open>mapWorker\<close>.\<close>

theorem mapWorker_frame_witness:
  "mapWorker fxl_host 1 0x101000 fxl_st1 = ret (fxl_st2, 0x1000) \<and> 1 < length (chain fxl_st1) \<and>
   addr (chain fxl_st2 ! 1) = 0x101000 \<and> length (chain fxl_st1) \<le> length (chain fxl_st2) \<and>
   chain fxl_st2 ! 0 = chain fxl_st1 ! 0 \<and> chain fxl_st2 ! 2 = chain fxl_st1 ! 2"
  using mapWorker_frame [OF fxl_mw1] fxl_mw1 by (simp add: fxl_lengths)

text \<open>The record invariant (C27) at the fixture's run.\<close>

theorem mapLibrary_records_witness:
  "mapLibrary fxl_host (\<lambda>_. 0) ''/t/libroot.so'' 0x100000 = ret fxl_final \<and>
   search_list (chain fxl_final ! 1) \<noteq> None \<and> search_list (chain fxl_final ! 2) \<noteq> None \<and>
   length (dyn_info (chain fxl_final ! 2)) = DT_NUM + OS_SPECIFIC_FLAG"
proof -
  have "\<forall>l\<in>set (chain fxl_final). search_list l \<noteq> None \<and> length (dyn_info l) = DT_NUM + OS_SPECIFIC_FLAG"
    by (rule mapLibrary_records [OF fxl_mapLibrary])
  moreover have "chain fxl_final ! 1 \<in> set (chain fxl_final)" "chain fxl_final ! 2 \<in> set (chain fxl_final)"
    using fxl_lengths by simp_all
  ultimately show ?thesis using fxl_mapLibrary by simp
qed

end
