(* ===== verification/Spec2Isabelle.thy ===== *)
theory Spec2Isabelle
  imports Reloc DynIndex FindSymbol Segments Paths LoaderRun
begin

text \<open>
  \<^bold>\<open>A verification development for dl-rebuild, a userspace ELF64 dynamic
  loader for x86-64.\<close>

  \<^bold>\<open>The program.\<close>  \<^verbatim>\<open>openLibrary\<close> (\<^verbatim>\<open>src/openLibrary.c\<close>) maps a shared
  object and its dependencies at a caller-chosen address (\<^verbatim>\<open>mapLibrary\<close>,
  \<^verbatim>\<open>src/mapLibrary.c\<close>) and relocates the root (\<^verbatim>\<open>relocLibrary\<close>,
  \<^verbatim>\<open>src/relocLibrary.c\<close>); \<^verbatim>\<open>findSymbol\<close> (\<^verbatim>\<open>src/findSymbol.c\<close>) looks a
  name up in the root's symbol table; \<^verbatim>\<open>runtimeResolve\<close>
  (\<^verbatim>\<open>src/runtimeResolve.c\<close>) binds one PLT slot lazily.  Inside
  \<^verbatim>\<open>mapLibrary\<close>: the path resolver (\<^verbatim>\<open>openFile\<close>, \<^verbatim>\<open>openDep\<close>), the
  allow-list of delegated libraries (\<^verbatim>\<open>doFakeLoad\<close>), the chain registry
  (\<^verbatim>\<open>isLibraryOpen\<close>), the segment mapper (\<^verbatim>\<open>mapSegment\<close>), the dynamic
  section indexer (\<^verbatim>\<open>fill_info\<close>), the hash-table reader
  (\<^verbatim>\<open>setup_hash\<close>) and the per-library worker (\<^verbatim>\<open>mapWorker\<close>), which the
  loop of \<^verbatim>\<open>mapLibrary\<close> runs on every record of the chain in order.
  Inside \<^verbatim>\<open>relocLibrary.c\<close>: the GNU hash (\<^verbatim>\<open>dl_new_hash\<close>), the symbol
  resolver (\<^verbatim>\<open>symbolLookup\<close>) and the two relocation passes
  (\<^verbatim>\<open>relocRela\<close>, \<^verbatim>\<open>relocPLT\<close>).  All components share one address space,
  which the loader reads and patches in place, and the chain of \<open>Library\<close>
  records (\<^verbatim>\<open>src/library.h\<close>).

  \<^bold>\<open>The model.\<close>  A shallow embedding, one theory per component.  Every
  operation returns \<open>'a res = (err + 'a) option\<close>: \<open>Inl\<close> is an \<open>exit(-1)\<close>
  of the code or an undefined-behaviour path (a NULL dereference, a read
  past an array, an uninitialised slot), \<open>None\<close> a loop that never returns;
  the C loops that may not end are \<open>partial_function (option)\<close> with code
  equations, so the model runs with \<open>value\<close> and its claims are proved by
  rewriting.  The loader state \<open>ld_state\<close> is the byte memory and the chain.
  \<^item> \<open>Prelude\<close>: machine types, \<open>err\<close>, \<open>res\<close> and its bind, little-endian
    encoding, \<^verbatim>\<open>ALIGN_DOWN\<close>/\<^verbatim>\<open>ALIGN_UP\<close> and their bounds.
  \<^item> \<open>Memory\<close>: the address space \<open>addr \<Rightarrow> u8\<close>, loads and the single store
    primitive, disjointness and frame rules, C strings (\<open>read_cstr\<close>,
    \<open>cstr_eq\<close>, \<open>strcmp_eq\<close>), the pointer loop \<open>ptr_loop\<close> and its fold form.
  \<^item> \<open>Elf\<close>: the \<^verbatim>\<open><elf.h>\<close> constants and layouts read by the code, the
    \<open>Library\<close> struct as the record \<open>library\<close> (pointers to other records are
    chain indices), the host collaborators as the record \<open>host\<close> (\<open>dlopen\<close>,
    \<open>dlsym\<close>, IFUNC calls, the page size, which mappings the kernel grants,
    and the file system as a map from paths to byte lists).
  \<^item> \<open>Fixture\<close>: concrete images shared by the witnesses: a one-symbol mapped
    library (\<open>fx_mem\<close>, \<open>fx_lib\<close>) and two ELF files (\<open>fxl_root\<close> with two
    \<open>DT_NEEDED\<close> entries, \<open>fxl_leaf\<close>) on a host file system.
  \<^item> \<open>GnuHash\<close>: \<open>dl_new_hash\<close>, \<open>setup_hash\<close>, \<open>symbolLookup\<close> (Bloom test,
    bucket, \<open>chain_walk\<close>).  C1 to C4.
  \<^item> \<open>Reloc\<close>: the search-list scan, \<open>relocRela\<close>, \<open>relocPLT\<close>,
    \<open>relocLibrary\<close>, \<open>runtimeResolve\<close>.  C5 to C9.
  \<^item> \<open>DynIndex\<close>: \<open>fill_info\<close> (the scan as \<open>dyn_scan\<close>, the slot choice,
    the rebase of six pointer slots).  C10 to C12.
  \<^item> \<open>FindSymbol\<close>: \<open>findSymbol\<close> against a reference \<open>find\<close>.  C13.
  \<^item> \<open>Segments\<close>: \<open>mapSegment\<close> (load commands, the span and per-segment
    mappings, the \<open>.bss\<close> fill) by their effect on memory.  C14 to C17.
  \<^item> \<open>Paths\<close>: the registry lookup, the allow-list, \<open>openFile\<close>,
    \<open>strtok_r\<close> splitting and \<open>openDep\<close>.  C19 to C21.
  \<^item> \<open>Loader\<close>: \<open>mapWorker\<close> (\<open>read_headers\<close>, \<open>count_needed\<close>, one
    \<open>need_step\<close> per \<open>DT_NEEDED\<close> entry in \<open>need_loop\<close>), \<open>map_loop\<close>,
    \<open>mapLibrary\<close>, \<open>openLibrary\<close>; loop rules proved once by fixpoint
    induction (\<open>need_loop_rel\<close>, \<open>map_loop_rel\<close>, \<open>map_loop_inv\<close>) and the
    shape of a successful \<open>mapWorker\<close> (\<open>mapWorker_shape\<close>).  C18, C22 to C27.
  \<^item> \<open>LoaderRun\<close>: \<open>mapLibrary\<close> and \<open>openLibrary\<close> run end to end on the
    two-file fixture, stage by stage; the witnesses of the loader's claims.

  \<^bold>\<open>What is proved.\<close>  Symbol lookup is sound, its Bloom test a sound
  negative, its hash the specified one, and it returns on terminated chains
  (C1 to C4).  The search-list scan returns the first library defining a
  name, and reads past the unterminated array when none does (C5, C9); lazy
  binding patches exactly one word and, on a miss, overruns the list before
  its fatal exit (C6, C7); the relative pass writes base plus addend at every
  target (C8).  The indexer keeps the last entry of a tag, rebases each
  present pointer once per call and not idempotently (C10 to C12).
  \<open>findSymbol\<close> is a linear \<open>find\<close> (C13).  The segment mapper's protection
  bits and length bounds, its blindness to refused mappings, and the zeroed
  \<open>.bss\<close> (C14 to C17).  The allow-list and the system path table are
  read past their ends; run-path search order (C19 to C21).  The chain never names a library twice (C22); every dependency
  lands in slot 1 of the search list, so slots 2 and above stay unset (C23);
  \<open>mapWorker\<close> places its record and touches no other (C24); every record
  returned, delegated ones included, has been mapped and has a full index
  (C27).  Whatever the root, every record's search list holds itself in slot
  0 and nothing from slot 2 on, so no library searches more than one of its
  dependencies (C18); \<open>openLibrary\<close> of any library without a
  \<open>DT_RELA\<close> entry is the NULL dereference of its index slot (C25); and
  the records are placed at page multiples from the requested base, the root
  at the base itself (C26).  Since a dependency not on the allow-list makes
  \<open>doFakeLoad\<close> read past \<open>fake_so\<close> (C19), a successful \<open>mapLibrary\<close>
  in the model only ever adds allow-listed (delegated) dependencies; the
  loader-wide claims C18 and C22 to C27 are therefore about such chains.
  On the fixture, the root's search list is \<open>[0, 2, NULL]\<close>.

  \<^bold>\<open>Bounds and fuel.\<close>  No fuel: every loop is a \<open>partial_function\<close>;
  claims that a loop returns state the conditions (a terminated chain, a
  \<open>DT_NULL\<close> within \<open>n\<close> entries) and prove \<open>\<exists>y. f x = Some y\<close>.  Pointer
  loops need \<open>end + stride\<close> not to wrap; placement and rounding claims need
  the span plus a page to stay below \<open>2^64\<close>; the fixture sits at
  \<open>0x100000\<close>, far from any wrap.

  \<^bold>\<open>Not modelled.\<close>  The operating system's \<open>mmap\<close> beyond its effect on
  the bytes of memory, page protections, \<open>fopen\<close>/\<open>fread\<close> beyond a file
  system that maps paths to byte lists (a file is read from offset 0), the
  host's \<open>dlopen\<close>/\<open>dlsym\<close> and the code an IFUNC resolver runs (parameters
  of the model), and the diagnostics printed before each \<open>exit\<close>.
  \<^verbatim>\<open>src/dl-rebuild.h\<close> only declares the two entry points.
\<close>

end
